theory Spec2Isabelle
  imports Main "HOL-Library.Word"
begin

section \<open>Strings of the C++ standard library\<close>

text \<open>
  A \<open>std::string\<close> is a list of bytes.  Positions and lengths (\<open>size_t\<close>) are natural
  numbers; the one place of \<open>util/options_helper.cc\<close> where \<open>size_t\<close> arithmetic wraps
  around (\<open>str.size() - 1\<close> in \<open>trim\<close>) is written out.  \<open>std::string::npos\<close>, the "not
  found" result of \<open>find\<close>, is \<open>None\<close>.
\<close>

definition SIZE_MAX :: nat where
  "SIZE_MAX = 2 ^ 64 - 1"

text \<open>
  \<open>isspace\<close> of \<open>cctype\<close> in the "C" locale: the space, and the five control characters
  tab, line feed, vertical tab, form feed and carriage return (codes 9 to 13).
\<close>

definition isspace :: "char \<Rightarrow> bool" where
  "isspace c = (c = CHR '' '' \<or> c = CHR 0x09 \<or> c = CHR 0x0A \<or> c = CHR 0x0B
     \<or> c = CHR 0x0C \<or> c = CHR 0x0D)"

text \<open>
  Reading outside a string is undefined behaviour in C++.  The model makes it a result of
  its own, so that a theorem can say whether it happens.
\<close>

datatype fault = OutOfRange

text \<open>
  \<open>str[i]\<close> on a \<open>const std::string\<close>: the character at \<open>i\<close> when \<open>i < size()\<close>, the
  null character when \<open>i = size()\<close> (defined since C++11), undefined beyond.
\<close>

definition str_at :: "string \<Rightarrow> nat \<Rightarrow> fault + char" where
  "str_at str i =
     (if i < length str then Inr (str ! i)
      else if i = length str then Inr (CHR 0x00)
      else Inl OutOfRange)"

text \<open>\<open>s.find(c, pos)\<close>: the first position from \<open>pos\<close> on that holds \<open>c\<close>.\<close>

definition str_find :: "string \<Rightarrow> char \<Rightarrow> nat \<Rightarrow> nat option" where
  "str_find s c pos =
     (if c \<in> set (drop pos s)
      then Some (pos + length (takeWhile (\<lambda>x. x \<noteq> c) (drop pos s)))
      else None)"

text \<open>
  \<open>s.substr(pos, n)\<close> and \<open>s.substr(pos)\<close>.  \<open>substr\<close> throws when \<open>pos > size()\<close>; every
  call of the file has \<open>pos \<le> size()\<close> (each follows a bounds test or a successful
  \<open>find\<close>/\<open>compare\<close>), so the model has no branch for it.
\<close>

definition substr :: "string \<Rightarrow> nat \<Rightarrow> nat \<Rightarrow> string" where
  "substr s pos n = take n (drop pos s)"

definition substr_from :: "string \<Rightarrow> nat \<Rightarrow> string" where
  "substr_from s pos = drop pos s"

section \<open>trim\<close>

text \<open>
  The first loop of \<open>trim\<close>: \<open>while (isspace(str[start]) != 0 && start <= end) ++start;\<close>.
  The character is read before the bound is tested.
\<close>

function trim_start :: "string \<Rightarrow> nat \<Rightarrow> nat \<Rightarrow> fault + nat" where
  "trim_start str start end =
     (case str_at str start of
        Inl f \<Rightarrow> Inl f
      | Inr c \<Rightarrow>
          if isspace c \<and> start \<le> end then trim_start str (start + 1) end
          else Inr start)"
  by pat_completeness auto
termination
  by (relation "measure (\<lambda>(str, start, end). length str - start)")
     (auto simp: str_at_def isspace_def split: if_splits)

declare trim_start.simps [simp del]

text \<open>
  The second loop: \<open>while (isspace(str[end]) != 0 && start <= end) --end;\<close>.  \<open>--end\<close> at
  \<open>end = 0\<close> wraps to \<open>SIZE_MAX\<close>, and the next test reads \<open>str[SIZE_MAX]\<close>, which is outside
  every string (\<open>max_size() < SIZE_MAX\<close>): that step is the fault.
\<close>

function trim_end :: "string \<Rightarrow> nat \<Rightarrow> nat \<Rightarrow> fault + nat" where
  "trim_end str start end =
     (case str_at str end of
        Inl f \<Rightarrow> Inl f
      | Inr c \<Rightarrow>
          if isspace c \<and> start \<le> end
          then (if end = 0 then Inl OutOfRange else trim_end str start (end - 1))
          else Inr end)"
  by pat_completeness auto
termination
  by (relation "measure (\<lambda>(str, start, end). end)") auto

declare trim_end.simps [simp del]

text \<open>
  \<open>trim\<close> itself.  \<open>size_t end = str.size() - 1\<close> is \<open>SIZE_MAX\<close> for the empty string.
\<close>

definition trim :: "string \<Rightarrow> fault + string" where
  "trim str =
     (let start = 0;
          end = (if str = [] then SIZE_MAX else length str - 1)
      in case trim_start str start end of
           Inl f \<Rightarrow> Inl f
         | Inr start' \<Rightarrow>
             (case trim_end str start' end of
                Inl f \<Rightarrow> Inl f
              | Inr end' \<Rightarrow>
                  if start' \<le> end' then Inr (substr str start' (end' - start' + 1))
                  else Inr []))"

section \<open>StringToMap\<close>

datatype Status = OK | InvalidArgument string | NotSupported string

text \<open>
  \<open>std::unordered_map<std::string, std::string>\<close>: the entries, with distinct keys.
  \<open>(*opts_map)[key] = value\<close> is \<open>map_assign\<close>.  The order in which a range-for visits the
  entries is not the order of this list; see \<open>GetBlockBasedTableOptionsFromString\<close>.
\<close>

type_synonym opts_map = "(string \<times> string) list"

fun map_assign :: "string \<Rightarrow> string \<Rightarrow> opts_map \<Rightarrow> opts_map" where
  "map_assign k v [] = [(k, v)]"
| "map_assign k v ((k', v') # m) =
     (if k' = k then (k, v) # m else (k', v') # map_assign k v m)"

text \<open>\<open>while (pos < opts.size() && isspace(opts[pos])) ++pos;\<close>\<close>

function skip_space :: "string \<Rightarrow> nat \<Rightarrow> nat" where
  "skip_space opts pos =
     (if pos < length opts \<and> isspace (opts ! pos) then skip_space opts (pos + 1) else pos)"
  by pat_completeness auto
termination
  by (relation "measure (\<lambda>(opts, pos). length opts - pos)") auto

declare skip_space.simps [simp del]

text \<open>
  The scan for the matching closing brace, from \<open>count = 1\<close> and \<open>brace_pos = pos + 1\<close>; it
  returns \<open>count\<close> and \<open>brace_pos\<close> as they are when the loop is left.
\<close>

function scan_braces :: "string \<Rightarrow> int \<Rightarrow> nat \<Rightarrow> int \<times> nat" where
  "scan_braces opts count brace_pos =
     (if brace_pos < length opts then
        (if opts ! brace_pos = CHR ''{'' then scan_braces opts (count + 1) (brace_pos + 1)
         else if opts ! brace_pos = CHR ''}'' then
           (if count - 1 = 0 then (count - 1, brace_pos)
            else scan_braces opts (count - 1) (brace_pos + 1))
         else scan_braces opts count (brace_pos + 1))
      else (count, brace_pos))"
  by pat_completeness auto
termination
  by (relation "measure (\<lambda>(opts, count, brace_pos). length opts - brace_pos)") auto

declare scan_braces.simps [simp del]

text \<open>
  One iteration of the \<open>while (pos < opts.size())\<close> loop.  An iteration assigns to the map
  at most once and then goes on at a new position, leaves the loop (\<open>break\<close>), or returns
  a status; the body yields the assignment and what follows it.
\<close>

datatype control = Next nat | Break | Return Status

definition StringToMap_body ::
  "string \<Rightarrow> nat \<Rightarrow> fault + ((string \<times> string) option \<times> control)" where
  "StringToMap_body opts pos =
     (case str_find opts CHR ''='' pos of
        None \<Rightarrow>
          Inr (None, Return (InvalidArgument ''Mismatched key value pair, '=' expected''))
      | Some eq_pos \<Rightarrow>
          (case trim (substr opts pos (eq_pos - pos)) of
             Inl f \<Rightarrow> Inl f
           | Inr key \<Rightarrow>
               if key = [] then Inr (None, Return (InvalidArgument ''Empty key found''))
               else
                 let pos1 = skip_space opts (eq_pos + 1) in
                 if pos1 \<ge> length opts then Inr (Some (key, []), Break)
                 else if opts ! pos1 = CHR ''{'' then
                   (case scan_braces opts 1 (pos1 + 1) of
                      (count, brace_pos) \<Rightarrow>
                        if count = 0 then
                          (case trim (substr opts (pos1 + 1) (brace_pos - pos1 - 1)) of
                             Inl f \<Rightarrow> Inl f
                           | Inr v \<Rightarrow>
                               let pos2 = skip_space opts (brace_pos + 1) in
                               if pos2 < length opts \<and> opts ! pos2 \<noteq> CHR '';''
                               then Inr (Some (key, v), Return (InvalidArgument
                                      ''Unexpected chars after nested options''))
                               else Inr (Some (key, v), Next (pos2 + 1)))
                        else Inr (None, Return (InvalidArgument
                               ''Mismatched curly braces for nested options'')))
                 else
                   (case str_find opts CHR '';'' pos1 of
                      None \<Rightarrow>
                        (case trim (substr_from opts pos1) of
                           Inl f \<Rightarrow> Inl f
                         | Inr v \<Rightarrow> Inr (Some (key, v), Break))
                    | Some sc_pos \<Rightarrow>
                        (case trim (substr opts pos1 (sc_pos - pos1)) of
                           Inl f \<Rightarrow> Inl f
                         | Inr v \<Rightarrow> Inr (Some (key, v), Next (sc_pos + 1))))))"

fun assign :: "(string \<times> string) option \<Rightarrow> opts_map \<Rightarrow> opts_map" where
  "assign None m = m"
| "assign (Some (k, v)) m = map_assign k v m"

lemma skip_space_ge: "pos \<le> skip_space opts pos"
proof (induction opts pos rule: skip_space.induct)
  case (1 opts pos)
  show ?case
  proof (cases "pos < length opts \<and> isspace (opts ! pos)")
    case True
    with "1" have "pos + 1 \<le> skip_space opts (pos + 1)" by simp
    with True show ?thesis by (subst skip_space.simps) simp
  next
    case False
    then show ?thesis by (subst skip_space.simps) auto
  qed
qed

lemma scan_braces_ge: "scan_braces opts count brace_pos = (c, b) \<Longrightarrow> brace_pos \<le> b"
proof (induction opts count brace_pos rule: scan_braces.induct)
  case (1 opts count brace_pos)
  note p = "1.prems" [unfolded scan_braces.simps [of opts count brace_pos]]
  show ?case
  proof (cases "brace_pos < length opts")
    case False
    with p show ?thesis by simp
  next
    case True
    show ?thesis
    proof (cases "opts ! brace_pos = CHR ''{''")
      case yes: True
      with p True have "scan_braces opts (count + 1) (brace_pos + 1) = (c, b)" by simp
      from "1.IH"(1) [OF True yes this] show ?thesis by simp
    next
      case no: False
      show ?thesis
      proof (cases "opts ! brace_pos = CHR ''}''")
        case close: True
        show ?thesis
        proof (cases "count - 1 = 0")
          case True
          with p \<open>brace_pos < length opts\<close> no close show ?thesis by simp
        next
          case False
          with p \<open>brace_pos < length opts\<close> no close
          have "scan_braces opts (count - 1) (brace_pos + 1) = (c, b)" by simp
          from "1.IH"(2) [OF \<open>brace_pos < length opts\<close> no close False this]
          show ?thesis by simp
        qed
      next
        case other: False
        with p True no have "scan_braces opts count (brace_pos + 1) = (c, b)" by simp
        from "1.IH"(3) [OF True no other this] show ?thesis by simp
      qed
    qed
  qed
qed

lemma str_find_ge: "str_find s c pos = Some i \<Longrightarrow> pos \<le> i"
  by (auto simp: str_find_def split: if_splits)

lemma StringToMap_body_progress:
  assumes "StringToMap_body opts pos = Inr (a, Next pos')"
  shows "pos < pos'"
proof -
  from assms obtain eq_pos where eq: "str_find opts CHR ''='' pos = Some eq_pos"
    by (auto simp: StringToMap_body_def split: option.splits)
  then have p0: "pos \<le> eq_pos" by (rule str_find_ge)
  define pos1 where "pos1 = skip_space opts (eq_pos + 1)"
  have p1: "eq_pos + 1 \<le> pos1" unfolding pos1_def by (rule skip_space_ge)
  from assms eq consider
    (nested) count brace_pos where "scan_braces opts 1 (pos1 + 1) = (count, brace_pos)"
      "pos' = skip_space opts (brace_pos + 1) + 1"
    | (plain) sc_pos where "str_find opts CHR '';'' pos1 = Some sc_pos" "pos' = sc_pos + 1"
    by (auto simp: StringToMap_body_def Let_def pos1_def
        split: option.splits sum.splits if_splits prod.splits)
  then show ?thesis
  proof cases
    case nested
    from nested(1) have "pos1 + 1 \<le> brace_pos" by (rule scan_braces_ge)
    moreover have "brace_pos + 1 \<le> skip_space opts (brace_pos + 1)" by (rule skip_space_ge)
    ultimately show ?thesis using p0 p1 nested(2) by simp
  next
    case plain
    from plain(1) have "pos1 \<le> sc_pos" by (rule str_find_ge)
    then show ?thesis using p0 p1 plain(2) by simp
  qed
qed

text \<open>The loop, entered with \<open>pos\<close> and the map as they are.\<close>

function StringToMap_loop :: "string \<Rightarrow> nat \<Rightarrow> opts_map \<Rightarrow> fault + (Status \<times> opts_map)" where
  "StringToMap_loop opts pos m =
     (if pos < length opts then
        (case StringToMap_body opts pos of
           Inl f \<Rightarrow> Inl f
         | Inr (a, c) \<Rightarrow>
             (case c of
                Next pos' \<Rightarrow> StringToMap_loop opts pos' (assign a m)
              | Break \<Rightarrow> Inr (OK, assign a m)
              | Return st \<Rightarrow> Inr (st, assign a m)))
      else Inr (OK, m))"
  by pat_completeness auto
termination
proof (relation "measure (\<lambda>(opts, pos, m). length opts - pos)")
  show "wf (measure (\<lambda>(opts, pos, m). length opts - pos))" by simp
next
  fix opts :: string and pos :: nat and m :: opts_map and x a c pos'
  assume "pos < length opts" and "StringToMap_body opts pos = Inr x"
    and "(a, c) = x" and "c = Next pos'"
  then have "pos < pos'" using StringToMap_body_progress [of opts pos a pos'] by simp
  with \<open>pos < length opts\<close>
  show "((opts, pos', assign a m), opts, pos, m) \<in> measure (\<lambda>(opts, pos, m). length opts - pos)"
    by simp
qed

declare StringToMap_loop.simps [simp del]

definition StringToMap :: "string \<Rightarrow> opts_map \<Rightarrow> fault + (Status \<times> opts_map)" where
  "StringToMap opts_str opts_map =
     (case trim opts_str of
        Inl f \<Rightarrow> Inl f
      | Inr opts \<Rightarrow> StringToMap_loop opts 0 opts_map)"

section \<open>What trim computes\<close>

text \<open>
  The trimmed string as the specification describes it: the input without its leading and
  trailing whitespace.
\<close>

definition trimmed :: "string \<Rightarrow> string" where
  "trimmed s = rev (dropWhile isspace (rev (dropWhile isspace s)))"

lemma trim_empty: "trim [] = Inl OutOfRange"
proof -
  have "trim_start [] 0 SIZE_MAX = Inr 0"
    by (subst trim_start.simps) (simp add: str_at_def isspace_def)
  moreover have "trim_end [] 0 SIZE_MAX = Inl OutOfRange"
    by (subst trim_end.simps) (simp add: str_at_def SIZE_MAX_def)
  ultimately show ?thesis by (simp add: trim_def)
qed

lemma isspace_NUL: "\<not> isspace (CHR 0x00)"
  by (simp add: isspace_def)

lemma trim_start_eq:
  "start \<le> length str \<Longrightarrow> str \<noteq> [] \<Longrightarrow>
   trim_start str start (length str - 1) =
     Inr (start + length (takeWhile isspace (drop start str)))"
proof (induction "length str - start" arbitrary: start)
  case 0
  then have "start = length str" by simp
  then show ?case
    by (subst trim_start.simps) (simp add: str_at_def isspace_NUL)
next
  case (Suc n)
  then have lt: "start < length str" by simp
  then have d: "drop start str = str ! start # drop (Suc start) str"
    by (simp add: Cons_nth_drop_Suc)
  show ?case
  proof (cases "isspace (str ! start)")
    case True
    from Suc have "trim_start str (Suc start) (length str - 1) =
        Inr (Suc start + length (takeWhile isspace (drop (Suc start) str)))"
      by (intro Suc.hyps(1)) auto
    with True lt show ?thesis
      by (subst trim_start.simps) (simp add: str_at_def d)
  next
    case False
    with lt show ?thesis
      by (subst trim_start.simps) (simp add: str_at_def d)
  qed
qed

lemma trim_end_eq:
  "start \<le> e \<Longrightarrow> e < length str \<Longrightarrow> \<not> isspace (str ! start) \<Longrightarrow>
   trim_end str start e = Inr (e - length (takeWhile isspace (rev (take (Suc e) str))))
   \<and> length (takeWhile isspace (rev (take (Suc e) str))) \<le> e - start"
proof (induction e)
  case 0
  then show ?case
    by (subst trim_end.simps) (simp add: str_at_def take_Suc_conv_app_nth)
next
  case (Suc e)
  have t: "rev (take (Suc (Suc e)) str) = str ! Suc e # rev (take (Suc e) str)"
    using Suc.prems(2) by (simp add: take_Suc_conv_app_nth)
  show ?case
  proof (cases "isspace (str ! Suc e)")
    case True
    with Suc.prems(3) have "start \<noteq> Suc e" by auto
    with Suc.prems have se: "start \<le> e" and el: "e < length str" by simp_all
    define L where "L = length (takeWhile isspace (rev (take (Suc e) str)))"
    from Suc.IH [OF se el Suc.prems(3)]
    have ih1: "trim_end str start e = Inr (e - L)" and ih2: "L \<le> e - start"
      by (simp_all add: L_def)
    have len: "length (takeWhile isspace (rev (take (Suc (Suc e)) str))) = Suc L"
      using True by (simp add: t L_def)
    have "trim_end str start (Suc e) = trim_end str start e"
      using True Suc.prems by (subst trim_end.simps) (simp add: str_at_def)
    with ih1 have "trim_end str start (Suc e) = Inr (Suc e - Suc L)" by simp
    moreover have "Suc L \<le> Suc e - start" using ih2 se by arith
    ultimately show ?thesis by (simp only: len)
  next
    case False
    with Suc.prems show ?thesis
      by (subst trim_end.simps) (simp add: str_at_def t)
  qed
qed

lemma trim_nonempty: "str \<noteq> [] \<Longrightarrow> trim str = Inr (trimmed str)"
proof -
  assume ne: "str \<noteq> []"
  define a where "a = length (takeWhile isspace str)"
  define d where "d = dropWhile isspace str"
  have start: "trim_start str 0 (length str - 1) = Inr a"
    using trim_start_eq [of 0 str] ne by (simp add: a_def)
  have da: "d = drop a str" by (simp add: d_def a_def dropWhile_eq_drop)
  show ?thesis
  proof (cases "d = []")
    case True
    then have "a = length str"
      using da length_takeWhile_le [of isspace str] by (simp add: a_def)
    moreover have "\<not> length str \<le> length str - 1" using ne by (cases str) simp_all
    ultimately have "trim_end str a (length str - 1) = Inr (length str - 1)"
      using ne by (subst trim_end.simps) (simp add: str_at_def)
    with start ne True \<open>a = length str\<close> \<open>\<not> length str \<le> length str - 1\<close> show ?thesis
      by (simp add: trim_def Let_def trimmed_def d_def [symmetric])
  next
    case False
    then have lt: "a < length str" using da by simp
    have "str ! a = hd d" using lt da by (simp add: hd_drop_conv_nth)
    moreover have "\<not> isspace (hd d)" using False unfolding d_def by (rule hd_dropWhile)
    ultimately have ns: "\<not> isspace (str ! a)" by simp
    define t where "t = length (takeWhile isspace (rev str))"
    from lt ne have "a \<le> length str - 1" "length str - 1 < length str" by simp_all
    from trim_end_eq [OF this ns] ne
    have e: "trim_end str a (length str - 1) = Inr (length str - 1 - t)"
      and tle: "t \<le> length str - 1 - a"
      by (simp_all add: t_def)
    have "hd d \<in> set (rev d)" using False by simp
    then have "takeWhile isspace (rev d @ rev (takeWhile isspace str)) = takeWhile isspace (rev d)"
      using \<open>\<not> isspace (hd d)\<close> by (rule takeWhile_append1)
    moreover have "rev str = rev d @ rev (takeWhile isspace str)"
      unfolding d_def by (simp flip: rev_append)
    ultimately have t': "t = length (takeWhile isspace (rev d))" by (simp add: t_def)
    have "substr str a (length str - 1 - t - a + 1) = take (length d - t) d"
      using lt tle da by (simp add: substr_def) (metis Suc_diff_Suc Suc_pred diff_commute
          diff_diff_left le_imp_less_Suc length_greater_0_conv ne plus_1_eq_Suc zero_less_diff)
    also have "\<dots> = rev (drop t (rev d))" by (simp add: rev_drop)
    also have "\<dots> = rev (dropWhile isspace (rev d))" by (simp add: t' dropWhile_eq_drop)
    finally have "substr str a (length str - 1 - t - a + 1) = trimmed str"
      by (simp add: trimmed_def d_def)
    moreover have "a \<le> length str - 1 - t" using tle lt by arith
    ultimately show ?thesis using start e ne by (simp add: trim_def)
  qed
qed

lemma set_trimmed: "set (trimmed s) \<subseteq> set s"
proof -
  have "set (trimmed s) \<subseteq> set (dropWhile isspace s)"
    unfolding trimmed_def using set_dropWhileD [of _ isspace "rev (dropWhile isspace s)"] by auto
  also have "\<dots> \<subseteq> set s" using set_dropWhileD [of _ isspace s] by auto
  finally show ?thesis .
qed

lemma length_trimmed: "length (trimmed s) \<le> length s"
proof -
  have "length (trimmed s) \<le> length (dropWhile isspace s)"
    unfolding trimmed_def using length_dropWhile_le [of isspace "rev (dropWhile isspace s)"] by simp
  also have "\<dots> \<le> length s" by (rule length_dropWhile_le)
  finally show ?thesis .
qed

lemma trimmed_eq_Nil: "trimmed s = [] \<longleftrightarrow> (\<forall>c \<in> set s. isspace c)"
proof -
  have "trimmed s = [] \<longleftrightarrow> dropWhile isspace (rev (dropWhile isspace s)) = []"
    by (simp add: trimmed_def)
  also have "\<dots> \<longleftrightarrow> (\<forall>c \<in> set (dropWhile isspace s). isspace c)"
    by (simp only: dropWhile_eq_Nil_conv set_rev)
  also have "\<dots> \<longleftrightarrow> dropWhile isspace s = []"
  proof
    assume all: "\<forall>c \<in> set (dropWhile isspace s). isspace c"
    show "dropWhile isspace s = []"
    proof (rule ccontr)
      assume ne: "dropWhile isspace s \<noteq> []"
      then have "\<not> isspace (hd (dropWhile isspace s))" by (rule hd_dropWhile)
      moreover have "hd (dropWhile isspace s) \<in> set (dropWhile isspace s)"
        using ne by (rule hd_in_set)
      ultimately show False using all by blast
    qed
  next
    assume "dropWhile isspace s = []"
    then show "\<forall>c \<in> set (dropWhile isspace s). isspace c"
      by (simp only: list.set ball_empty)
  qed
  also have "\<dots> \<longleftrightarrow> (\<forall>c \<in> set s. isspace c)"
    by (simp only: dropWhile_eq_Nil_conv)
  finally show ?thesis .
qed

text \<open>
  The same loop with a bound on how often its condition is tested: \<open>None\<close> when the bound
  is used up before the loop is left.
\<close>

fun StringToMap_iter ::
  "nat \<Rightarrow> string \<Rightarrow> nat \<Rightarrow> opts_map \<Rightarrow> (fault + (Status \<times> opts_map)) option" where
  "StringToMap_iter 0 opts pos m = None"
| "StringToMap_iter (Suc n) opts pos m =
     (if pos < length opts then
        (case StringToMap_body opts pos of
           Inl f \<Rightarrow> Some (Inl f)
         | Inr (a, c) \<Rightarrow>
             (case c of
                Next pos' \<Rightarrow> StringToMap_iter n opts pos' (assign a m)
              | Break \<Rightarrow> Some (Inr (OK, assign a m))
              | Return st \<Rightarrow> Some (Inr (st, assign a m))))
      else Some (Inr (OK, m)))"

definition StringToMap_bounded ::
  "nat \<Rightarrow> string \<Rightarrow> opts_map \<Rightarrow> (fault + (Status \<times> opts_map)) option" where
  "StringToMap_bounded n opts_str opts_map =
     (case trim opts_str of
        Inl f \<Rightarrow> Some (Inl f)
      | Inr opts \<Rightarrow> StringToMap_iter n opts 0 opts_map)"

section \<open>The tokenizer: faults, errors, termination\<close>

lemma StringToMap_loop_end: "length opts \<le> pos \<Longrightarrow> StringToMap_loop opts pos m = Inr (OK, m)"
  by (subst StringToMap_loop.simps) simp

lemma trim_all_space:
  assumes "str \<noteq> []" and "\<forall>c \<in> set str. isspace c"
  shows "trim str = Inr []"
  using assms trimmed_eq_Nil [of str] by (simp add: trim_nonempty)

lemma StringToMap_all_space:
  assumes "str \<noteq> []" and "\<forall>c \<in> set str. isspace c"
  shows "StringToMap str m = Inr (OK, m)"
  using trim_all_space [OF assms] by (simp add: StringToMap_def StringToMap_loop_end)

text \<open>
  C1.  \<open>trim\<close> should never read outside its string, and the empty input should
  tokenize to the empty map.  It is not so: on the empty string \<open>end\<close> is \<open>SIZE_MAX\<close>, the
  first loop stops at \<open>start = 0\<close>, and the second loop's test reads \<open>str[SIZE_MAX]\<close>:
  \<open>trim\<close>, and \<open>StringToMap\<close> with it, run into the out-of-range read.  (A non-empty string
  of whitespace is trimmed to the empty string without any such read: \<open>trim_all_space\<close>.)
\<close>

theorem trim_empty_out_of_range:
  "trim [] = Inl OutOfRange \<and> StringToMap [] m = Inl OutOfRange"
  by (simp add: trim_empty StringToMap_def)

lemma StringToMap_loop_no_eq:
  assumes "pos < length opts" and "CHR ''='' \<notin> set (drop pos opts)"
  shows "StringToMap_loop opts pos m =
    Inr (InvalidArgument ''Mismatched key value pair, '=' expected'', m)"
  using assms
  by (subst StringToMap_loop.simps) (simp add: StringToMap_body_def str_find_def)

text \<open>
  C8.  When the text that is left is not empty and holds no \<open>=\<close>, the loop returns the
  status \<open>InvalidArgument("Mismatched key value pair, '=' expected")\<close>, at whatever position
  it stands; and so does \<open>StringToMap\<close> on an input without \<open>=\<close> that is not all whitespace.
\<close>

theorem StringToMap_missing_equals:
  "(pos < length opts \<and> CHR ''='' \<notin> set (drop pos opts) \<longrightarrow>
      StringToMap_loop opts pos m =
        Inr (InvalidArgument ''Mismatched key value pair, '=' expected'', m))
   \<and> (CHR ''='' \<notin> set s \<and> (\<exists>c \<in> set s. \<not> isspace c) \<longrightarrow>
      StringToMap s m =
        Inr (InvalidArgument ''Mismatched key value pair, '=' expected'', m))"
proof (intro conjI impI)
  assume "pos < length opts \<and> CHR ''='' \<notin> set (drop pos opts)"
  then show "StringToMap_loop opts pos m =
      Inr (InvalidArgument ''Mismatched key value pair, '=' expected'', m)"
    by (simp add: StringToMap_loop_no_eq)
next
  assume a: "CHR ''='' \<notin> set s \<and> (\<exists>c \<in> set s. \<not> isspace c)"
  then have ne: "s \<noteq> []" by auto
  then have t: "trim s = Inr (trimmed s)" by (rule trim_nonempty)
  from a have "trimmed s \<noteq> []" by (simp add: trimmed_eq_Nil)
  then have "0 < length (trimmed s)" by simp
  moreover from a set_trimmed [of s] have "CHR ''='' \<notin> set (drop 0 (trimmed s))" by auto
  ultimately have "StringToMap_loop (trimmed s) 0 m =
      Inr (InvalidArgument ''Mismatched key value pair, '=' expected'', m)"
    by (rule StringToMap_loop_no_eq)
  with t show "StringToMap s m =
      Inr (InvalidArgument ''Mismatched key value pair, '=' expected'', m)"
    by (simp add: StringToMap_def)
qed

theorem StringToMap_missing_equals_witness:
  "StringToMap_loop ''a=1;foo'' 4 [] =
      Inr (InvalidArgument ''Mismatched key value pair, '=' expected'', [])
   \<and> StringToMap ''foo'' [] =
      Inr (InvalidArgument ''Mismatched key value pair, '=' expected'', [])"
  using StringToMap_missing_equals [of 4 "''a=1;foo''" "[]" "''foo''"]
  by (simp add: isspace_def)

lemma StringToMap_iter_enough:
  "length opts - pos < n \<Longrightarrow> StringToMap_iter n opts pos m = Some (StringToMap_loop opts pos m)"
proof (induction n arbitrary: pos m)
  case 0
  then show ?case by simp
next
  case (Suc n)
  show ?case
  proof (cases "pos < length opts")
    case False
    then show ?thesis by (simp add: StringToMap_loop_end)
  next
    case True
    show ?thesis
    proof (cases "StringToMap_body opts pos")
      case (Inl f)
      with True show ?thesis by (subst StringToMap_loop.simps) simp
    next
      case (Inr r)
      obtain a c where r: "r = (a, c)" by (cases r)
      show ?thesis
      proof (cases c)
        case (Next pos')
        with Inr r have "pos < pos'" using StringToMap_body_progress by simp
        with Suc.prems True have "length opts - pos' < n" by arith
        then have "StringToMap_iter n opts pos' (assign a m) =
            Some (StringToMap_loop opts pos' (assign a m))"
          by (rule Suc.IH)
        with True Inr r Next show ?thesis by (subst StringToMap_loop.simps) simp
      next
        case Break
        with True Inr r show ?thesis by (subst StringToMap_loop.simps) simp
      next
        case (Return st)
        with True Inr r show ?thesis by (subst StringToMap_loop.simps) simp
      qed
    qed
  qed
qed

lemma length_trim: "trim s = Inr t \<Longrightarrow> length t \<le> length s"
  using length_trimmed [of s] by (cases "s = []") (auto simp: trim_empty trim_nonempty)

text \<open>
  C9.  The tokenizer terminates on every input: the loop tests its condition at most
  \<open>length opts + 1\<close> times, because every iteration that goes on moves \<open>pos\<close> forward
  (\<open>StringToMap_body_progress\<close>, which is also what makes \<open>StringToMap_loop\<close> a total
  function).  With that bound the bounded tokenizer never runs out, and its result is the
  result of \<open>StringToMap\<close>: a status with the map, or the fault of \<open>trim\<close> (C1).
\<close>

theorem StringToMap_terminates:
  "StringToMap_bounded (Suc (length opts_str)) opts_str m = Some (StringToMap opts_str m)"
proof (cases "trim opts_str")
  case (Inl f)
  then show ?thesis by (simp add: StringToMap_bounded_def StringToMap_def)
next
  case (Inr opts)
  then have "length opts - 0 < Suc (length opts_str)" using length_trim by fastforce
  then have "StringToMap_iter (Suc (length opts_str)) opts 0 m = Some (StringToMap_loop opts 0 m)"
    by (rule StringToMap_iter_enough)
  with Inr show ?thesis by (simp add: StringToMap_bounded_def StringToMap_def)
qed

section \<open>Value coercers\<close>

text \<open>
  The exceptions the coercers throw, with the text \<open>what()\<close> returns.  The dispatchers
  catch them (\<open>catch (std::exception& e)\<close>).
\<close>

datatype exn = invalid_argument string | out_of_range string

fun what :: "exn \<Rightarrow> string" where
  "what (invalid_argument s) = s"
| "what (out_of_range s) = s"

text \<open>
  \<open>std::stoull\<close> and \<open>std::stoi\<close> belong to the C++ standard library, not to this
  repository; they are modelled from the standard (\<open>strtoull\<close>, \<open>strtol\<close> in base 10):
  leading whitespace is skipped, one sign is read, then the longest run of decimal digits.
  No digit at all is \<open>std::invalid_argument\<close>; a value outside the result type is
  \<open>std::out_of_range\<close>.  The second component of the result is the index stored through
  \<open>idx\<close>: the number of characters read.  The text of a library exception's \<open>what()\<close> is the
  function's name, as in libstdc++.
\<close>

definition is_digit :: "char \<Rightarrow> bool" where
  "is_digit c = (c \<in> set ''0123456789'')"

definition digit_val :: "char \<Rightarrow> nat" where
  "digit_val c = of_char c - 48"

definition decimal :: "string \<Rightarrow> nat" where
  "decimal ds = foldl (\<lambda>a c. 10 * a + digit_val c) 0 ds"

definition numeral_prefix :: "string \<Rightarrow> (bool \<times> nat \<times> nat) option" where
  "numeral_prefix s =
     (let ws = takeWhile isspace s;
          r = dropWhile isspace s;
          (neg, sign, r') =
            (case r of
               [] \<Rightarrow> (False, 0, r)
             | c # cs \<Rightarrow>
                 if c = CHR ''-'' then (True, 1, cs)
                 else if c = CHR ''+'' then (False, 1, cs)
                 else (False, 0, r));
          ds = takeWhile is_digit r'
      in if ds = [] then None
         else Some (neg, decimal ds, length ws + sign + length ds))"

definition stoull :: "string \<Rightarrow> exn + (64 word \<times> nat)" where
  "stoull s =
     (case numeral_prefix s of
        None \<Rightarrow> Inl (invalid_argument ''stoull'')
      | Some (neg, mag, idx) \<Rightarrow>
          if mag > 2 ^ 64 - 1 then Inl (out_of_range ''stoull'')
          else Inr (if neg then - of_nat mag else of_nat mag, idx))"

definition stoi :: "string \<Rightarrow> exn + (32 word \<times> nat)" where
  "stoi s =
     (case numeral_prefix s of
        None \<Rightarrow> Inl (invalid_argument ''stoi'')
      | Some (neg, mag, idx) \<Rightarrow>
          let v = (if neg then - int mag else int mag) in
          if v < - (2 ^ 31) \<or> v > 2 ^ 31 - 1 then Inl (out_of_range ''stoi'')
          else Inr (of_int v, idx))"

text \<open>
  \<open>value.c_str()\<close> converted back to a \<open>std::string\<close>, as the calls
  \<open>std::stoull(value.c_str(), &endchar)\<close> and \<open>std::stoi(value.c_str(), &endchar)\<close> do: the
  characters before the first null character.
\<close>

definition c_str :: "string \<Rightarrow> string" where
  "c_str s = takeWhile (\<lambda>c. c \<noteq> CHR 0x00) s"

definition ParseBoolean :: "string \<Rightarrow> string \<Rightarrow> exn + bool" where
  "ParseBoolean type value =
     (if value = ''true'' \<or> value = ''1'' then Inr True
      else if value = ''false'' \<or> value = ''0'' then Inr False
      else Inl (invalid_argument type))"

text \<open>\<open>uint64_t\<close> is \<open>64 word\<close>; \<open>num <<= n\<close> is \<open>push_bit n num\<close>, which drops the high bits.\<close>

definition ParseUint64 :: "string \<Rightarrow> exn + 64 word" where
  "ParseUint64 value =
     (case stoull (c_str value) of
        Inl e \<Rightarrow> Inl e
      | Inr (num, endchar) \<Rightarrow>
          if endchar < length value then
            (let c = value ! endchar in
             if c = CHR ''k'' \<or> c = CHR ''K'' then Inr (push_bit 10 num)
             else if c = CHR ''m'' \<or> c = CHR ''M'' then Inr (push_bit 20 num)
             else if c = CHR ''g'' \<or> c = CHR ''G'' then Inr (push_bit 30 num)
             else if c = CHR ''t'' \<or> c = CHR ''T'' then Inr (push_bit 40 num)
             else Inr num)
          else Inr num)"

text \<open>\<open>size_t\<close> has 64 bits, so the \<open>static_cast\<close> of \<open>ParseSizeT\<close> changes nothing.\<close>

definition ParseSizeT :: "string \<Rightarrow> exn + 64 word" where
  "ParseSizeT value = ParseUint64 value"

definition ParseUint32 :: "string \<Rightarrow> exn + 32 word" where
  "ParseUint32 value =
     (case ParseUint64 value of
        Inl e \<Rightarrow> Inl e
      | Inr num \<Rightarrow>
          if drop_bit 32 num = 0 then Inr (ucast num)
          else Inl (out_of_range value))"

text \<open>
  \<open>int\<close> is \<open>32 word\<close>.  \<open>num <<= n\<close> on an \<open>int\<close> is modelled as the two's complement shift
  that compilers emit (the C++ of the time leaves an overflowing signed shift undefined).
\<close>

definition ParseInt :: "string \<Rightarrow> exn + 32 word" where
  "ParseInt value =
     (case stoi (c_str value) of
        Inl e \<Rightarrow> Inl e
      | Inr (num, endchar) \<Rightarrow>
          if endchar < length value then
            (let c = value ! endchar in
             if c = CHR ''k'' \<or> c = CHR ''K'' then Inr (push_bit 10 num)
             else if c = CHR ''m'' \<or> c = CHR ''M'' then Inr (push_bit 20 num)
             else if c = CHR ''g'' \<or> c = CHR ''G'' then Inr (push_bit 30 num)
             else Inr num)
          else Inr num)"

datatype CompressionType =
  kNoCompression | kSnappyCompression | kZlibCompression | kBZip2Compression
  | kLZ4Compression | kLZ4HCCompression

definition ParseCompressionType :: "string \<Rightarrow> exn + CompressionType" where
  "ParseCompressionType type =
     (if type = ''kNoCompression'' then Inr kNoCompression
      else if type = ''kSnappyCompression'' then Inr kSnappyCompression
      else if type = ''kZlibCompression'' then Inr kZlibCompression
      else if type = ''kBZip2Compression'' then Inr kBZip2Compression
      else if type = ''kLZ4Compression'' then Inr kLZ4Compression
      else if type = ''kLZ4HCCompression'' then Inr kLZ4HCCompression
      else Inl (invalid_argument (''Unknown compression type: '' @ type)))"

datatype IndexType = kBinarySearch | kHashSearch

definition ParseBlockBasedTableIndexType :: "string \<Rightarrow> exn + IndexType" where
  "ParseBlockBasedTableIndexType type =
     (if type = ''kBinarySearch'' then Inr kBinarySearch
      else if type = ''kHashSearch'' then Inr kHashSearch
      else Inl (invalid_argument (''Unknown index type: '' @ type)))"

datatype ChecksumType = kNoChecksum | kCRC32c | kxxHash

definition ParseBlockBasedTableChecksumType :: "string \<Rightarrow> exn + ChecksumType" where
  "ParseBlockBasedTableChecksumType type =
     (if type = ''kNoChecksum'' then Inr kNoChecksum
      else if type = ''kCRC32c'' then Inr kCRC32c
      else if type = ''kxxHash'' then Inr kxxHash
      else Inl (invalid_argument (''Unknown checksum type: '' @ type)))"

datatype CompactionStyle =
  kCompactionStyleLevel | kCompactionStyleUniversal | kCompactionStyleFIFO

definition ParseCompactionStyle :: "string \<Rightarrow> exn + CompactionStyle" where
  "ParseCompactionStyle type =
     (if type = ''kCompactionStyleLevel'' then Inr kCompactionStyleLevel
      else if type = ''kCompactionStyleUniversal'' then Inr kCompactionStyleUniversal
      else if type = ''kCompactionStyleFIFO'' then Inr kCompactionStyleFIFO
      else Inl (invalid_argument (''unknown compaction style: '' @ type)))"

section \<open>The integer coercers on decimal numerals\<close>

lemma is_digit_not_space: "is_digit c \<Longrightarrow> \<not> isspace c"
  by (auto simp: is_digit_def isspace_def)

lemma is_digit_not_sign: "is_digit c \<Longrightarrow> c \<noteq> CHR ''-'' \<and> c \<noteq> CHR ''+''"
  by (auto simp: is_digit_def)

lemma is_digit_not_NUL: "is_digit c \<Longrightarrow> c \<noteq> CHR 0x00"
  by (auto simp: is_digit_def)

lemma takeWhile_digits:
  assumes "list_all is_digit ds" and "r = [] \<or> \<not> is_digit (hd r)"
  shows "takeWhile is_digit (ds @ r) = ds"
proof -
  have "takeWhile is_digit r = []" using assms(2) by (cases r) auto
  moreover have "takeWhile is_digit (ds @ r) = ds @ takeWhile is_digit r"
    using assms(1) by (intro takeWhile_append2) (simp add: list_all_iff)
  ultimately show ?thesis by simp
qed

lemma numeral_prefix_digits:
  assumes "ds \<noteq> []" and "list_all is_digit ds" and "r = [] \<or> \<not> is_digit (hd r)"
  shows "numeral_prefix (ds @ r) = Some (False, decimal ds, length ds)"
proof -
  from assms(1) obtain d ds' where ds: "ds = d # ds'" by (cases ds) auto
  with assms(2) have d: "is_digit d" by simp
  have "takeWhile is_digit (ds @ r) = ds" using assms(2,3) by (rule takeWhile_digits)
  then have td: "takeWhile is_digit (d # ds' @ r) = d # ds'" by (simp add: ds)
  have ws: "takeWhile isspace (d # ds' @ r) = []" "dropWhile isspace (d # ds' @ r) = d # ds' @ r"
    using is_digit_not_space [OF d] by simp_all
  show ?thesis
    using is_digit_not_sign [OF d] td ws
    unfolding numeral_prefix_def ds by (simp del: takeWhile.simps dropWhile.simps)
qed

lemma c_str_digits: "list_all is_digit ds \<Longrightarrow> c_str (ds @ r) = ds @ c_str r"
  unfolding c_str_def by (intro takeWhile_append2) (auto simp: list_all_iff is_digit_not_NUL)

lemma stoull_digits:
  assumes "ds \<noteq> []" and "list_all is_digit ds" and "decimal ds < 2 ^ 64"
    and "r = [] \<or> \<not> is_digit (hd r)"
  shows "stoull (c_str (ds @ r)) = Inr (of_nat (decimal ds), length ds)"
proof -
  have "c_str r = [] \<or> \<not> is_digit (hd (c_str r))"
    using assms(4) by (cases r) (auto simp: c_str_def)
  with assms(1,2) have "numeral_prefix (ds @ c_str r) = Some (False, decimal ds, length ds)"
    by (rule numeral_prefix_digits)
  moreover have "\<not> decimal ds > 2 ^ 64 - 1" using assms(3) by simp
  ultimately show ?thesis using assms(2) by (simp add: stoull_def c_str_digits)
qed

lemma stoi_digits:
  assumes "ds \<noteq> []" and "list_all is_digit ds" and "decimal ds < 2 ^ 31"
    and "r = [] \<or> \<not> is_digit (hd r)"
  shows "stoi (c_str (ds @ r)) = Inr (of_nat (decimal ds), length ds)"
proof -
  have "c_str r = [] \<or> \<not> is_digit (hd (c_str r))"
    using assms(4) by (cases r) (auto simp: c_str_def)
  with assms(1,2) have "numeral_prefix (ds @ c_str r) = Some (False, decimal ds, length ds)"
    by (rule numeral_prefix_digits)
  moreover have "\<not> int (decimal ds) < - (2 ^ 31)" by simp
  moreover have "\<not> int (decimal ds) > 2 ^ 31 - 1" using assms(3) by simp
  ultimately show ?thesis using assms(2) by (simp add: stoi_def c_str_digits Let_def)
qed

lemma ParseUint64_digits:
  assumes "ds \<noteq> []" and "list_all is_digit ds" and "decimal ds < 2 ^ 64"
  shows "ParseUint64 ds = Inr (of_nat (decimal ds))"
  using stoull_digits [OF assms, of "[]"] by (simp add: ParseUint64_def)

lemma ParseUint64_digits_char:
  assumes "ds \<noteq> []" and "list_all is_digit ds" and "decimal ds < 2 ^ 64" and "\<not> is_digit c"
  shows "ParseUint64 (ds @ c # rest) =
    (if c = CHR ''k'' \<or> c = CHR ''K'' then Inr (push_bit 10 (of_nat (decimal ds)))
     else if c = CHR ''m'' \<or> c = CHR ''M'' then Inr (push_bit 20 (of_nat (decimal ds)))
     else if c = CHR ''g'' \<or> c = CHR ''G'' then Inr (push_bit 30 (of_nat (decimal ds)))
     else if c = CHR ''t'' \<or> c = CHR ''T'' then Inr (push_bit 40 (of_nat (decimal ds)))
     else Inr (of_nat (decimal ds)))"
proof -
  have "stoull (c_str (ds @ c # rest)) = Inr (of_nat (decimal ds), length ds)"
    using assms by (intro stoull_digits) simp_all
  then show ?thesis by (simp add: ParseUint64_def Let_def)
qed

lemma ParseInt_digits_char:
  assumes "ds \<noteq> []" and "list_all is_digit ds" and "decimal ds < 2 ^ 31" and "\<not> is_digit c"
  shows "ParseInt (ds @ c # rest) =
    (if c = CHR ''k'' \<or> c = CHR ''K'' then Inr (push_bit 10 (of_nat (decimal ds)))
     else if c = CHR ''m'' \<or> c = CHR ''M'' then Inr (push_bit 20 (of_nat (decimal ds)))
     else if c = CHR ''g'' \<or> c = CHR ''G'' then Inr (push_bit 30 (of_nat (decimal ds)))
     else Inr (of_nat (decimal ds)))"
proof -
  have "stoi (c_str (ds @ c # rest)) = Inr (of_nat (decimal ds), length ds)"
    using assms by (intro stoi_digits) simp_all
  then show ?thesis by (simp add: ParseInt_def Let_def)
qed

lemmas parse_defs = ParseUint64_def ParseInt_def ParseUint32_def ParseSizeT_def stoull_def
  stoi_def c_str_def numeral_prefix_def isspace_def is_digit_def decimal_def digit_val_def

text \<open>
  C4, as the code has it.  \<open>"4k"\<close>, \<open>"2m"\<close> and \<open>"1g"\<close> give 4096, 2097152 and 1073741824.  A
  decimal numeral \<open>ds\<close> with nothing after it gives its own value, and one trailing
  \<open>k/K\<close>, \<open>m/M\<close>, \<open>g/G\<close>, \<open>t/T\<close> shifts that value left by 10, 20, 30, 40 bits (in 64 bits),
  provided the numeral's value is below \<open>2 ^ 64\<close>.  The proviso is needed: \<open>std::stoull\<close>
  throws \<open>std::out_of_range\<close> on a larger numeral, as the evaluation at \<open>2 ^ 64\<close> below
  shows.
\<close>

theorem ParseUint64_units:
  "ParseUint64 ''4k'' = Inr 4096 \<and> ParseUint64 ''2m'' = Inr 2097152
   \<and> ParseUint64 ''1g'' = Inr 1073741824
   \<and> (ds \<noteq> [] \<and> list_all is_digit ds \<and> decimal ds < 2 ^ 64 \<longrightarrow>
        ParseUint64 ds = Inr (of_nat (decimal ds))
        \<and> unat (of_nat (decimal ds) :: 64 word) = decimal ds
        \<and> (c \<in> set ''kK'' \<longrightarrow> ParseUint64 (ds @ [c]) = Inr (push_bit 10 (of_nat (decimal ds))))
        \<and> (c \<in> set ''mM'' \<longrightarrow> ParseUint64 (ds @ [c]) = Inr (push_bit 20 (of_nat (decimal ds))))
        \<and> (c \<in> set ''gG'' \<longrightarrow> ParseUint64 (ds @ [c]) = Inr (push_bit 30 (of_nat (decimal ds))))
        \<and> (c \<in> set ''tT'' \<longrightarrow> ParseUint64 (ds @ [c]) = Inr (push_bit 40 (of_nat (decimal ds)))))"
proof (intro conjI impI)
  show "ParseUint64 ''4k'' = Inr 4096" by (simp add: parse_defs)
  show "ParseUint64 ''2m'' = Inr 2097152" by (simp add: parse_defs)
  show "ParseUint64 ''1g'' = Inr 1073741824" by (simp add: parse_defs)
next
  assume a: "ds \<noteq> [] \<and> list_all is_digit ds \<and> decimal ds < 2 ^ 64"
  then show "ParseUint64 ds = Inr (of_nat (decimal ds))" by (simp add: ParseUint64_digits)
  from a show "unat (of_nat (decimal ds) :: 64 word) = decimal ds"
    by (simp add: unat_of_nat)
  note p = ParseUint64_digits_char [of ds c "[]"]
  { assume "c \<in> set ''kK''"
    with a p show "ParseUint64 (ds @ [c]) = Inr (push_bit 10 (of_nat (decimal ds)))"
      by (auto simp: is_digit_def) }
  { assume "c \<in> set ''mM''"
    with a p show "ParseUint64 (ds @ [c]) = Inr (push_bit 20 (of_nat (decimal ds)))"
      by (auto simp: is_digit_def) }
  { assume "c \<in> set ''gG''"
    with a p show "ParseUint64 (ds @ [c]) = Inr (push_bit 30 (of_nat (decimal ds)))"
      by (auto simp: is_digit_def) }
  { assume "c \<in> set ''tT''"
    with a p show "ParseUint64 (ds @ [c]) = Inr (push_bit 40 (of_nat (decimal ds)))"
      by (auto simp: is_digit_def) }
qed

theorem ParseUint64_units_witness:
  "ParseUint64 ''12'' = Inr 12 \<and> ParseUint64 ''12K'' = Inr 12288"
  using ParseUint64_units [of "''12''" "CHR ''K''"]
  by (simp add: is_digit_def decimal_def digit_val_def)

theorem ParseUint64_large_numeral_counterexample:
  "list_all is_digit ''18446744073709551616''
   \<and> ParseUint64 ''18446744073709551616'' = Inl (out_of_range ''stoull'')"
  by (simp add: parse_defs)

text \<open>
  C10.  A character after the numeral that is not a suffix letter of the coercer is
  ignored, with all that follows it, and the coercer returns the numeral: for the
  unsigned 64-bit coercer (suffixes \<open>kKmMgGtT\<close>) and for the signed one (\<open>kKmMgG\<close>, so that
  \<open>t\<close> is ignored there).  Stated for a decimal numeral \<open>ds\<close> that the library call
  accepts, followed by a character \<open>c\<close> and any text \<open>rest\<close>; and, in the terms of the
  code, for any result of the library call.
\<close>

theorem Parse_unknown_suffix_ignored:
  "(ds \<noteq> [] \<and> list_all is_digit ds \<and> decimal ds < 2 ^ 64 \<and> \<not> is_digit c
      \<and> c \<notin> set ''kKmMgGtT'' \<longrightarrow>
      ParseUint64 (ds @ c # rest) = Inr (of_nat (decimal ds)))
   \<and> (ds \<noteq> [] \<and> list_all is_digit ds \<and> decimal ds < 2 ^ 31 \<and> \<not> is_digit c
      \<and> c \<notin> set ''kKmMgG'' \<longrightarrow>
      ParseInt (ds @ c # rest) = Inr (of_nat (decimal ds)))
   \<and> (stoull (c_str v) = Inr (num, endchar) \<and> endchar < length v
      \<and> v ! endchar \<notin> set ''kKmMgGtT'' \<longrightarrow> ParseUint64 v = Inr num)
   \<and> (stoi (c_str v) = Inr (inum, endchar) \<and> endchar < length v
      \<and> v ! endchar \<notin> set ''kKmMgG'' \<longrightarrow> ParseInt v = Inr inum)"
proof (intro conjI impI)
  assume "ds \<noteq> [] \<and> list_all is_digit ds \<and> decimal ds < 2 ^ 64 \<and> \<not> is_digit c
      \<and> c \<notin> set ''kKmMgGtT''"
  then show "ParseUint64 (ds @ c # rest) = Inr (of_nat (decimal ds))"
    using ParseUint64_digits_char [of ds c rest] by auto
next
  assume "ds \<noteq> [] \<and> list_all is_digit ds \<and> decimal ds < 2 ^ 31 \<and> \<not> is_digit c
      \<and> c \<notin> set ''kKmMgG''"
  then show "ParseInt (ds @ c # rest) = Inr (of_nat (decimal ds))"
    using ParseInt_digits_char [of ds c rest] by auto
next
  assume "stoull (c_str v) = Inr (num, endchar) \<and> endchar < length v
      \<and> v ! endchar \<notin> set ''kKmMgGtT''"
  then show "ParseUint64 v = Inr num" by (simp add: ParseUint64_def)
next
  assume "stoi (c_str v) = Inr (inum, endchar) \<and> endchar < length v
      \<and> v ! endchar \<notin> set ''kKmMgG''"
  then show "ParseInt v = Inr inum" by (simp add: ParseInt_def)
qed

theorem Parse_unknown_suffix_ignored_witness:
  "ParseUint64 ''4x'' = Inr 4 \<and> ParseInt ''1t'' = Inr 1
   \<and> ParseUint64 '' 7;9'' = Inr 7 \<and> ParseInt ''-3:8'' = Inr (- 3)"
proof -
  have u: "stoull (c_str '' 7;9'') = Inr (7, 2)" by (simp add: parse_defs)
  have i: "stoi (c_str ''-3:8'') = Inr (- 3, 2)" by (simp add: parse_defs)
  from u i show ?thesis
    using Parse_unknown_suffix_ignored [of "''4''" "CHR ''x''" "[]" "'' 7;9''" 7 2 "- 3"]
      Parse_unknown_suffix_ignored [of "''1''" "CHR ''t''" "[]" "''-3:8''" 7 2 "- 3"]
    by (simp add: is_digit_def decimal_def digit_val_def)
qed

section \<open>The pairs a tokenization records\<close>

text \<open>
  The assignments \<open>(*opts_map)[key] = value\<close> that the loop performs from \<open>pos\<close> on, in the
  order in which it performs them: the key/value pairs the tokenizer reads from its input.
\<close>

function StringToMap_pairs :: "string \<Rightarrow> nat \<Rightarrow> (string \<times> string) list" where
  "StringToMap_pairs opts pos =
     (if pos < length opts then
        (case StringToMap_body opts pos of
           Inl f \<Rightarrow> []
         | Inr (a, c) \<Rightarrow>
             (case a of None \<Rightarrow> [] | Some kv \<Rightarrow> [kv])
             @ (case c of Next pos' \<Rightarrow> StringToMap_pairs opts pos' | _ \<Rightarrow> []))
      else [])"
  by pat_completeness auto
termination
proof (relation "measure (\<lambda>(opts, pos). length opts - pos)")
  show "wf (measure (\<lambda>(opts, pos). length opts - pos))" by simp
next
  fix opts :: string and pos :: nat and x a c pos'
  assume "pos < length opts" and "StringToMap_body opts pos = Inr x"
    and "(a, c) = x" and "c = Next pos'"
  then have "pos < pos'" using StringToMap_body_progress [of opts pos a pos'] by simp
  with \<open>pos < length opts\<close>
  show "((opts, pos'), opts, pos) \<in> measure (\<lambda>(opts, pos). length opts - pos)"
    by simp
qed

declare StringToMap_pairs.simps [simp del]

definition assign_all :: "(string \<times> string) list \<Rightarrow> opts_map \<Rightarrow> opts_map" where
  "assign_all ps m = foldl (\<lambda>m (k, v). map_assign k v m) m ps"

lemma map_of_map_assign: "map_of (map_assign k v m) = (map_of m)(k \<mapsto> v)"
  by (induction m) auto

lemma keys_map_assign: "set (map fst (map_assign k v m)) = insert k (set (map fst m))"
proof (induction m)
  case Nil
  then show ?case by simp
next
  case (Cons p m)
  obtain k' v' where p: "p = (k', v')" by (cases p)
  show ?case
  proof (cases "k' = k")
    case True
    then show ?thesis by (simp add: p)
  next
    case False
    have "set (map fst (map_assign k v (p # m))) = insert k' (set (map fst (map_assign k v m)))"
      using False by (simp add: p)
    also have "\<dots> = insert k' (insert k (set (map fst m)))" by (simp only: Cons.IH)
    also have "\<dots> = insert k (set (map fst (p # m)))" by (auto simp: p)
    finally show ?thesis .
  qed
qed

lemma distinct_map_assign:
  "distinct (map fst m) \<Longrightarrow> distinct (map fst (map_assign k v m))"
proof (induction m)
  case Nil
  then show ?case by simp
next
  case (Cons p m)
  obtain k' v' where p: "p = (k', v')" by (cases p)
  show ?case
  proof (cases "k' = k")
    case True
    with Cons.prems p show ?thesis by simp
  next
    case False
    from Cons have "distinct (map fst (map_assign k v m))" by simp
    moreover have "k' \<notin> set (map fst (map_assign k v m))"
      using Cons.prems False p by (simp only: keys_map_assign) simp
    ultimately show ?thesis using False p by simp
  qed
qed

lemma assign_all_Cons: "assign_all ((k, v) # ps) m = assign_all ps (map_assign k v m)"
  by (simp add: assign_all_def)

lemma map_of_assign_all: "map_of (assign_all ps m) = map_of m ++ map_of (rev ps)"
proof (induction ps arbitrary: m)
  case Nil
  then show ?case by (simp add: assign_all_def)
next
  case (Cons p ps)
  obtain k v where p: "p = (k, v)" by (cases p)
  have "map_of (assign_all (p # ps) m) = map_of (map_assign k v m) ++ map_of (rev ps)"
    by (simp add: p assign_all_Cons Cons.IH)
  also have "\<dots> = (map_of m ++ [k \<mapsto> v]) ++ map_of (rev ps)"
    by (simp add: map_of_map_assign)
  also have "\<dots> = map_of m ++ map_of (rev (p # ps))"
    by (simp add: p)
  finally show ?case .
qed

lemma distinct_assign_all:
  "distinct (map fst m) \<Longrightarrow> distinct (map fst (assign_all ps m))"
proof (induction ps arbitrary: m)
  case Nil
  then show ?case by (simp add: assign_all_def)
next
  case (Cons p ps)
  obtain k v where p: "p = (k, v)" by (cases p)
  from Cons.prems have "distinct (map fst (map_assign k v m))" by (rule distinct_map_assign)
  then show ?case unfolding p assign_all_Cons by (rule Cons.IH)
qed

lemma StringToMap_loop_pairs:
  "StringToMap_loop opts pos m = Inr (st, m') \<Longrightarrow> m' = assign_all (StringToMap_pairs opts pos) m"
proof (induction opts pos m rule: StringToMap_loop.induct)
  case (1 opts pos m)
  note l = StringToMap_loop.simps [of opts pos m] and q = StringToMap_pairs.simps [of opts pos]
  show ?case
  proof (cases "pos < length opts")
    case False
    with "1.prems" show ?thesis by (simp add: l q assign_all_def)
  next
    case True
    show ?thesis
    proof (cases "StringToMap_body opts pos")
      case (Inl f)
      with True "1.prems" show ?thesis by (simp add: l)
    next
      case (Inr r)
      obtain a c where r: "r = (a, c)" by (cases r)
      have am: "assign_all (case a of None \<Rightarrow> [] | Some kv \<Rightarrow> [kv]) m = assign a m"
        by (cases a) (auto simp: assign_all_def)
      have app: "\<And>ps. assign_all ((case a of None \<Rightarrow> [] | Some kv \<Rightarrow> [kv]) @ ps) m
          = assign_all ps (assign a m)"
        using am by (simp add: assign_all_def)
      show ?thesis
      proof (cases c)
        case (Next pos')
        with True Inr r "1.prems" have "StringToMap_loop opts pos' (assign a m) = Inr (st, m')"
          by (simp add: l)
        with "1.IH" [OF True Inr r [symmetric] Next]
        have "m' = assign_all (StringToMap_pairs opts pos') (assign a m)" by simp
        with True Inr r Next show ?thesis by (simp add: q app)
      next
        case Break
        with True Inr r "1.prems" show ?thesis by (simp add: l q am)
      next
        case (Return s)
        with True Inr r "1.prems" show ?thesis by (simp add: l q am)
      qed
    qed
  qed
qed

lemmas tok_simps = StringToMap_def StringToMap_loop.simps StringToMap_body_def trim_def
  trim_start.simps trim_end.simps str_at_def str_find_def substr_def substr_from_def
  skip_space.simps scan_braces.simps isspace_def Let_def

section \<open>Configuration objects\<close>

text \<open>
  The option structs are declared in \<open>rocksdb/options.h\<close> and \<open>rocksdb/table.h\<close>, which are not
  among the sources.  Each record below has the fields that \<open>util/options_helper.cc\<close> assigns,
  each with the type of the value that its key's coercer yields.  The objects that the
  factory functions \<open>NewLRUCache\<close>, \<open>NewBloomFilterPolicy\<close>, \<open>NewBlockBasedTableFactory\<close> and
  \<open>NewFixedPrefixTransform\<close> build are represented by the arguments of the call; a
  \<open>shared_ptr\<close> is an \<open>option\<close>, \<open>None\<close> for the null pointer.
\<close>

datatype Cache = LRUCache "64 word"

datatype FilterPolicy = BloomFilterPolicy "32 word" bool

record BlockBasedTableOptions =
  cache_index_and_filter_blocks :: bool
  index_type :: IndexType
  hash_index_allow_collision :: bool
  checksum :: ChecksumType
  no_block_cache :: bool
  block_cache :: "Cache option"
  block_cache_compressed :: "Cache option"
  block_size :: "64 word"
  block_size_deviation :: "32 word"
  block_restart_interval :: "32 word"
  filter_policy :: "FilterPolicy option"
  whole_key_filtering :: bool

section \<open>Dispatching one entry\<close>

text \<open>
  What the body of a dispatcher's \<open>try\<close> block does with one entry, together with the
  configuration as it is at that moment: it comes to its end (\<open>Done\<close>), executes a
  \<open>return\<close>, lets an exception escape to the \<open>catch\<close> clause, or reads outside a string.
\<close>

datatype 'o attempt = Done 'o | Returned Status 'o | Thrown exn 'o | Faulted fault

text \<open>\<open>new_options->field = Parse...(value)\<close>: no assignment when the coercer throws.\<close>

definition store :: "exn + 'a \<Rightarrow> ('a \<Rightarrow> 'o) \<Rightarrow> 'o \<Rightarrow> 'o attempt" where
  "store r upd opts = (case r of Inl e \<Rightarrow> Thrown e opts | Inr v \<Rightarrow> Done (upd v))"

text \<open>
  The range-for over the map with its \<open>try\<close>/\<open>catch\<close>, which the three dispatchers share
  word for word: \<open>entries\<close> are the entries of \<open>opts_map\<close> in the order in which the loop
  visits them, \<open>body\<close> is the \<open>if\<close>/\<open>else if\<close> chain of the dispatcher.
\<close>

fun for_each_entry ::
  "(string \<Rightarrow> string \<Rightarrow> 'o \<Rightarrow> 'o attempt) \<Rightarrow> (string \<times> string) list \<Rightarrow> 'o
     \<Rightarrow> fault + (Status \<times> 'o)" where
  "for_each_entry body [] opts = Inr (OK, opts)"
| "for_each_entry body ((name, value) # entries) opts =
     (case body name value opts of
        Done opts' \<Rightarrow> for_each_entry body entries opts'
      | Returned s opts' \<Rightarrow> Inr (s, opts')
      | Thrown e opts' \<Rightarrow>
          Inr (InvalidArgument (''error parsing '' @ name @ '':'' @ what e), opts')
      | Faulted f \<Rightarrow> Inl f)"

section \<open>GetBlockBasedTableOptionsFromMap\<close>

definition GetBlockBasedTableOptions_entry ::
  "string \<Rightarrow> string \<Rightarrow> BlockBasedTableOptions \<Rightarrow> BlockBasedTableOptions attempt" where
  "GetBlockBasedTableOptions_entry name value t =
     (if name = ''cache_index_and_filter_blocks'' then
        store (ParseBoolean name value) (\<lambda>v. t\<lparr>cache_index_and_filter_blocks := v\<rparr>) t
      else if name = ''index_type'' then
        store (ParseBlockBasedTableIndexType value) (\<lambda>v. t\<lparr>index_type := v\<rparr>) t
      else if name = ''hash_index_allow_collision'' then
        store (ParseBoolean name value) (\<lambda>v. t\<lparr>hash_index_allow_collision := v\<rparr>) t
      else if name = ''checksum'' then
        store (ParseBlockBasedTableChecksumType value) (\<lambda>v. t\<lparr>checksum := v\<rparr>) t
      else if name = ''no_block_cache'' then
        store (ParseBoolean name value) (\<lambda>v. t\<lparr>no_block_cache := v\<rparr>) t
      else if name = ''block_cache'' then
        store (ParseSizeT value) (\<lambda>v. t\<lparr>block_cache := Some (LRUCache v)\<rparr>) t
      else if name = ''block_cache_compressed'' then
        store (ParseSizeT value) (\<lambda>v. t\<lparr>block_cache_compressed := Some (LRUCache v)\<rparr>) t
      else if name = ''block_size'' then
        store (ParseSizeT value) (\<lambda>v. t\<lparr>block_size := v\<rparr>) t
      else if name = ''block_size_deviation'' then
        store (ParseInt value) (\<lambda>v. t\<lparr>block_size_deviation := v\<rparr>) t
      else if name = ''block_restart_interval'' then
        store (ParseInt value) (\<lambda>v. t\<lparr>block_restart_interval := v\<rparr>) t
      else if name = ''filter_policy'' then
        (let kName = ''bloomfilter:'' in
         if substr value 0 (length kName) \<noteq> kName then
           Returned (InvalidArgument ''Invalid filter policy name'') t
         else
           (case str_find value CHR '':'' (length kName) of
              None \<Rightarrow>
                Returned (InvalidArgument
                  ''Invalid filter policy config, missing bits_per_key'') t
            | Some pos \<Rightarrow>
                (case trim (substr value (length kName) (pos - length kName)) of
                   Inl f \<Rightarrow> Faulted f
                 | Inr bits \<Rightarrow>
                     (case ParseInt bits of
                        Inl e \<Rightarrow> Thrown e t
                      | Inr bits_per_key \<Rightarrow>
                          (case trim (substr_from value (pos + 1)) of
                             Inl f \<Rightarrow> Faulted f
                           | Inr b \<Rightarrow>
                               store (ParseBoolean ''use_block_based_builder'' b)
                                 (\<lambda>use_block_based_builder. t\<lparr>filter_policy :=
                                    Some (BloomFilterPolicy bits_per_key
                                      use_block_based_builder)\<rparr>) t)))))
      else if name = ''whole_key_filtering'' then
        store (ParseBoolean name value) (\<lambda>v. t\<lparr>whole_key_filtering := v\<rparr>) t
      else Returned (InvalidArgument (''Unrecognized option: '' @ name)) t)"

text \<open>
  \<open>*new_table_options = table_options\<close>, then the loop.  The result is the status with
  \<open>*new_table_options\<close> as the call leaves it.
\<close>

definition GetBlockBasedTableOptionsFromMap ::
  "BlockBasedTableOptions \<Rightarrow> (string \<times> string) list
     \<Rightarrow> fault + (Status \<times> BlockBasedTableOptions)" where
  "GetBlockBasedTableOptionsFromMap table_options entries =
     for_each_entry GetBlockBasedTableOptions_entry entries table_options"

text \<open>
  The order in which a range-for visits a \<open>std::unordered_map\<close> is left open by the
  language; the functions that tokenize and then dispatch take it as the parameter
  \<open>iter\<close>, which lists the entries of a map in the order of the visit.
  \<open>new_table_options\<close> is the object behind the output pointer as it is before the call:
  it is left alone when the tokenizer fails.
\<close>

definition GetBlockBasedTableOptionsFromString ::
  "(opts_map \<Rightarrow> (string \<times> string) list) \<Rightarrow> BlockBasedTableOptions \<Rightarrow> string
     \<Rightarrow> BlockBasedTableOptions \<Rightarrow> fault + (Status \<times> BlockBasedTableOptions)" where
  "GetBlockBasedTableOptionsFromString iter table_options opts_str new_table_options =
     (case StringToMap opts_str [] of
        Inl f \<Rightarrow> Inl f
      | Inr (s, opts_map) \<Rightarrow>
          if s \<noteq> OK then Inr (s, new_table_options)
          else GetBlockBasedTableOptionsFromMap table_options (iter opts_map))"

section \<open>GetDBOptionsFromMap\<close>

record DBOptions =
  create_if_missing :: bool
  create_missing_column_families :: bool
  error_if_exists :: bool
  paranoid_checks :: bool
  max_open_files :: "32 word"
  max_total_wal_size :: "64 word"
  disableDataSync :: bool
  use_fsync :: bool
  db_log_dir :: string
  wal_dir :: string
  delete_obsolete_files_period_micros :: "64 word"
  max_background_compactions :: "32 word"
  max_background_flushes :: "32 word"
  max_log_file_size :: "64 word"
  log_file_time_to_roll :: "64 word"
  keep_log_file_num :: "64 word"
  max_manifest_file_size :: "64 word"
  table_cache_numshardbits :: "32 word"
  table_cache_remove_scan_count_limit :: "32 word"
  WAL_ttl_seconds :: "64 word"
  WAL_size_limit_MB :: "64 word"
  manifest_preallocation_size :: "64 word"
  allow_os_buffer :: bool
  allow_mmap_reads :: bool
  allow_mmap_writes :: bool
  is_fd_close_on_exec :: bool
  skip_log_error_on_recovery :: bool
  stats_dump_period_sec :: "32 word"
  advise_random_on_open :: bool
  db_write_buffer_size :: "64 word"
  use_adaptive_mutex :: bool
  bytes_per_sync :: "64 word"

definition GetDBOptions_entry :: "string \<Rightarrow> string \<Rightarrow> DBOptions \<Rightarrow> DBOptions attempt" where
  "GetDBOptions_entry name value d =
     (if name = ''create_if_missing'' then
        store (ParseBoolean name value) (\<lambda>v. d\<lparr>create_if_missing := v\<rparr>) d
      else if name = ''create_missing_column_families'' then
        store (ParseBoolean name value) (\<lambda>v. d\<lparr>create_missing_column_families := v\<rparr>) d
      else if name = ''error_if_exists'' then
        store (ParseBoolean name value) (\<lambda>v. d\<lparr>error_if_exists := v\<rparr>) d
      else if name = ''paranoid_checks'' then
        store (ParseBoolean name value) (\<lambda>v. d\<lparr>paranoid_checks := v\<rparr>) d
      else if name = ''max_open_files'' then
        store (ParseInt value) (\<lambda>v. d\<lparr>max_open_files := v\<rparr>) d
      else if name = ''max_total_wal_size'' then
        store (ParseUint64 value) (\<lambda>v. d\<lparr>max_total_wal_size := v\<rparr>) d
      else if name = ''disable_data_sync'' then
        store (ParseBoolean name value) (\<lambda>v. d\<lparr>disableDataSync := v\<rparr>) d
      else if name = ''use_fsync'' then
        store (ParseBoolean name value) (\<lambda>v. d\<lparr>use_fsync := v\<rparr>) d
      else if name = ''db_paths'' then
        Returned (NotSupported (''Not supported: '' @ name)) d
      else if name = ''db_log_dir'' then Done (d\<lparr>db_log_dir := value\<rparr>)
      else if name = ''wal_dir'' then Done (d\<lparr>wal_dir := value\<rparr>)
      else if name = ''delete_obsolete_files_period_micros'' then
        store (ParseUint64 value) (\<lambda>v. d\<lparr>delete_obsolete_files_period_micros := v\<rparr>) d
      else if name = ''max_background_compactions'' then
        store (ParseInt value) (\<lambda>v. d\<lparr>max_background_compactions := v\<rparr>) d
      else if name = ''max_background_flushes'' then
        store (ParseInt value) (\<lambda>v. d\<lparr>max_background_flushes := v\<rparr>) d
      else if name = ''max_log_file_size'' then
        store (ParseSizeT value) (\<lambda>v. d\<lparr>max_log_file_size := v\<rparr>) d
      else if name = ''log_file_time_to_roll'' then
        store (ParseSizeT value) (\<lambda>v. d\<lparr>log_file_time_to_roll := v\<rparr>) d
      else if name = ''keep_log_file_num'' then
        store (ParseSizeT value) (\<lambda>v. d\<lparr>keep_log_file_num := v\<rparr>) d
      else if name = ''max_manifest_file_size'' then
        store (ParseUint64 value) (\<lambda>v. d\<lparr>max_manifest_file_size := v\<rparr>) d
      else if name = ''table_cache_numshardbits'' then
        store (ParseInt value) (\<lambda>v. d\<lparr>table_cache_numshardbits := v\<rparr>) d
      else if name = ''table_cache_remove_scan_count_limit'' then
        store (ParseInt value) (\<lambda>v. d\<lparr>table_cache_remove_scan_count_limit := v\<rparr>) d
      else if name = ''WAL_ttl_seconds'' then
        store (ParseUint64 value) (\<lambda>v. d\<lparr>WAL_ttl_seconds := v\<rparr>) d
      else if name = ''WAL_size_limit_MB'' then
        store (ParseUint64 value) (\<lambda>v. d\<lparr>WAL_size_limit_MB := v\<rparr>) d
      else if name = ''manifest_preallocation_size'' then
        store (ParseSizeT value) (\<lambda>v. d\<lparr>manifest_preallocation_size := v\<rparr>) d
      else if name = ''allow_os_buffer'' then
        store (ParseBoolean name value) (\<lambda>v. d\<lparr>allow_os_buffer := v\<rparr>) d
      else if name = ''allow_mmap_reads'' then
        store (ParseBoolean name value) (\<lambda>v. d\<lparr>allow_mmap_reads := v\<rparr>) d
      else if name = ''allow_mmap_writes'' then
        store (ParseBoolean name value) (\<lambda>v. d\<lparr>allow_mmap_writes := v\<rparr>) d
      else if name = ''is_fd_close_on_exec'' then
        store (ParseBoolean name value) (\<lambda>v. d\<lparr>is_fd_close_on_exec := v\<rparr>) d
      else if name = ''skip_log_error_on_recovery'' then
        store (ParseBoolean name value) (\<lambda>v. d\<lparr>skip_log_error_on_recovery := v\<rparr>) d
      else if name = ''stats_dump_period_sec'' then
        store (ParseUint32 value) (\<lambda>v. d\<lparr>stats_dump_period_sec := v\<rparr>) d
      else if name = ''advise_random_on_open'' then
        store (ParseBoolean name value) (\<lambda>v. d\<lparr>advise_random_on_open := v\<rparr>) d
      else if name = ''db_write_buffer_size'' then
        store (ParseUint64 value) (\<lambda>v. d\<lparr>db_write_buffer_size := v\<rparr>) d
      else if name = ''use_adaptive_mutex'' then
        store (ParseBoolean name value) (\<lambda>v. d\<lparr>use_adaptive_mutex := v\<rparr>) d
      else if name = ''bytes_per_sync'' then
        store (ParseUint64 value) (\<lambda>v. d\<lparr>bytes_per_sync := v\<rparr>) d
      else Returned (InvalidArgument (''Unrecognized option: '' @ name)) d)"

text \<open>
  \<open>*new_options = base_options\<close>, then the loop.  The loop reads and writes
  \<open>*new_options\<close> only, so the result depends on \<open>base_options\<close> through that first copy
  alone; it is the status with \<open>*new_options\<close> as the call leaves it.
\<close>

definition GetDBOptionsFromMap ::
  "DBOptions \<Rightarrow> (string \<times> string) list \<Rightarrow> fault + (Status \<times> DBOptions)" where
  "GetDBOptionsFromMap base_options entries =
     for_each_entry GetDBOptions_entry entries base_options"

definition GetDBOptionsFromString ::
  "(opts_map \<Rightarrow> (string \<times> string) list) \<Rightarrow> DBOptions \<Rightarrow> string \<Rightarrow> DBOptions
     \<Rightarrow> fault + (Status \<times> DBOptions)" where
  "GetDBOptionsFromString iter base_options opts_str new_options =
     (case StringToMap opts_str [] of
        Inl f \<Rightarrow> Inl f
      | Inr (s, opts_map) \<Rightarrow>
          if s \<noteq> OK then Inr (s, new_options)
          else GetDBOptionsFromMap base_options (iter opts_map))"

section \<open>The option groups shared by the column family dispatchers\<close>

datatype TableFactory = BlockBasedTableFactory BlockBasedTableOptions

datatype SliceTransform = FixedPrefixTransform "32 word"

record CompressionOptions =
  window_bits :: "32 word"
  level :: "32 word"
  strategy :: "32 word"

record CompactionOptionsFIFO =
  max_table_files_size :: "64 word"

text \<open>
  \<open>ColumnFamilyOptions\<close>.  The type \<open>'d\<close> stands for \<open>double\<close>: the two rate limits are
  whatever \<open>std::stod\<close> returns, and \<open>std::stod\<close> is a parameter of the functions that
  parse them.
\<close>

record 'd ColumnFamilyOptions =
  write_buffer_size :: "64 word"
  arena_block_size :: "64 word"
  memtable_prefix_bloom_bits :: "32 word"
  memtable_prefix_bloom_probes :: "32 word"
  memtable_prefix_bloom_huge_page_tlb_size :: "64 word"
  max_successive_merges :: "64 word"
  filter_deletes :: bool
  max_write_buffer_number :: "32 word"
  inplace_update_num_locks :: "64 word"
  disable_auto_compactions :: bool
  soft_rate_limit :: 'd
  hard_rate_limit :: 'd
  level0_file_num_compaction_trigger :: "32 word"
  level0_slowdown_writes_trigger :: "32 word"
  level0_stop_writes_trigger :: "32 word"
  max_grandparent_overlap_factor :: "32 word"
  expanded_compaction_factor :: "32 word"
  source_compaction_factor :: "32 word"
  target_file_size_base :: "32 word"
  target_file_size_multiplier :: "32 word"
  max_bytes_for_level_base :: "64 word"
  max_bytes_for_level_multiplier :: "32 word"
  max_bytes_for_level_multiplier_additional :: "32 word list"
  max_mem_compaction_level :: "32 word"
  verify_checksums_in_compaction :: bool
  max_sequential_skip_in_iterations :: "64 word"
  table_factory :: "TableFactory option"
  min_write_buffer_number_to_merge :: "32 word"
  compression :: CompressionType
  compression_per_level :: "CompressionType list"
  compression_opts :: CompressionOptions
  num_levels :: "32 word"
  purge_redundant_kvs_while_flush :: bool
  compaction_style :: CompactionStyle
  compaction_options_fifo :: CompactionOptionsFIFO
  bloom_locality :: "32 word"
  min_partial_merge_operands :: "32 word"
  inplace_update_support :: bool
  prefix_extractor :: "SliceTransform option"

text \<open>
  The result of one of the \<open>bool\<close> functions \<open>ParseMemtableOptions\<close>,
  \<open>ParseCompactionOptions\<close>, \<open>ParseMiscOptions\<close>: \<open>return false\<close> (nothing assigned),
  \<open>return true\<close>, or an exception, the latter two with the options as they are then.
  The three functions are templates over the type of the options; they are taken at
  \<open>ColumnFamilyOptions\<close>, where \<open>GetColumnFamilyOptionsFromMap\<close> uses them.
\<close>

datatype 'o parsed = NotParsed | Parsed 'o | ParseThrew exn 'o

definition parse_store :: "exn + 'a \<Rightarrow> ('a \<Rightarrow> 'o) \<Rightarrow> 'o \<Rightarrow> 'o parsed" where
  "parse_store r upd opts = (case r of Inl e \<Rightarrow> ParseThrew e opts | Inr v \<Rightarrow> Parsed (upd v))"

definition ParseMemtableOptions ::
  "string \<Rightarrow> string \<Rightarrow> 'd ColumnFamilyOptions \<Rightarrow> 'd ColumnFamilyOptions parsed" where
  "ParseMemtableOptions name value c =
     (if name = ''write_buffer_size'' then
        parse_store (ParseSizeT value) (\<lambda>v. c\<lparr>write_buffer_size := v\<rparr>) c
      else if name = ''arena_block_size'' then
        parse_store (ParseSizeT value) (\<lambda>v. c\<lparr>arena_block_size := v\<rparr>) c
      else if name = ''memtable_prefix_bloom_bits'' then
        parse_store (ParseUint32 value) (\<lambda>v. c\<lparr>memtable_prefix_bloom_bits := v\<rparr>) c
      else if name = ''memtable_prefix_bloom_probes'' then
        parse_store (ParseUint32 value) (\<lambda>v. c\<lparr>memtable_prefix_bloom_probes := v\<rparr>) c
      else if name = ''memtable_prefix_bloom_huge_page_tlb_size'' then
        parse_store (ParseSizeT value)
          (\<lambda>v. c\<lparr>memtable_prefix_bloom_huge_page_tlb_size := v\<rparr>) c
      else if name = ''max_successive_merges'' then
        parse_store (ParseSizeT value) (\<lambda>v. c\<lparr>max_successive_merges := v\<rparr>) c
      else if name = ''filter_deletes'' then
        parse_store (ParseBoolean name value) (\<lambda>v. c\<lparr>filter_deletes := v\<rparr>) c
      else if name = ''max_write_buffer_number'' then
        parse_store (ParseInt value) (\<lambda>v. c\<lparr>max_write_buffer_number := v\<rparr>) c
      else if name = ''inplace_update_num_locks'' then
        parse_store (ParseSizeT value) (\<lambda>v. c\<lparr>inplace_update_num_locks := v\<rparr>) c
      else NotParsed)"

lemma length_takeWhile_neq: "c \<in> set xs \<Longrightarrow> length (takeWhile (\<lambda>x. x \<noteq> c) xs) < length xs"
  by (induction xs) auto

lemma str_find_lt: "str_find s c pos = Some i \<Longrightarrow> i < length s"
proof -
  assume a: "str_find s c pos = Some i"
  then have c: "c \<in> set (drop pos s)"
    and i: "i = pos + length (takeWhile (\<lambda>x. x \<noteq> c) (drop pos s))"
    by (auto simp: str_find_def split: if_splits)
  from c have "length (takeWhile (\<lambda>x. x \<noteq> c) (drop pos s)) < length (drop pos s)"
    by (rule length_takeWhile_neq)
  with i show ?thesis by simp
qed

text \<open>
  The loop that splits \<open>value\<close> at \<open>:\<close> and appends each parsed segment to a vector
  (\<open>push_back\<close>), entered with \<open>start\<close> and the vector as they are.  When a segment does
  not parse, the exception leaves the vector with the segments before it.
\<close>

function parse_colon_list ::
  "(string \<Rightarrow> exn + 'a) \<Rightarrow> string \<Rightarrow> nat \<Rightarrow> 'a list \<Rightarrow> (exn \<times> 'a list) + 'a list" where
  "parse_colon_list parse value start vec =
     (case str_find value CHR '':'' start of
        None \<Rightarrow>
          (case parse (substr_from value start) of
             Inl e \<Rightarrow> Inl (e, vec)
           | Inr v \<Rightarrow> Inr (vec @ [v]))
      | Some end \<Rightarrow>
          (case parse (substr value start (end - start)) of
             Inl e \<Rightarrow> Inl (e, vec)
           | Inr v \<Rightarrow> parse_colon_list parse value (end + 1) (vec @ [v])))"
  by pat_completeness auto
termination
proof (relation "measure (\<lambda>(parse, value, start, vec). Suc (length value) - start)")
  show "wf (measure (\<lambda>(parse, value, start, vec). Suc (length value) - start))" by simp
next
  fix parse :: "string \<Rightarrow> exn + 'a" and "value" :: string and start x2 :: nat
    and vec :: "'a list" and b :: 'a
  assume "str_find value CHR '':'' start = Some x2"
  then have "start \<le> x2" "x2 < length value" by (rule str_find_ge, rule str_find_lt)
  then show "((parse, value, x2 + 1, vec @ [b]), parse, value, start, vec)
      \<in> measure (\<lambda>(parse, value, start, vec). Suc (length value) - start)"
    by simp
qed

declare parse_colon_list.simps [simp del]

definition ParseDouble :: "(string \<Rightarrow> exn + 'd) \<Rightarrow> string \<Rightarrow> exn + 'd" where
  "ParseDouble stod value = stod value"

definition ParseCompactionOptions ::
  "(string \<Rightarrow> exn + 'd) \<Rightarrow> string \<Rightarrow> string \<Rightarrow> 'd ColumnFamilyOptions
     \<Rightarrow> 'd ColumnFamilyOptions parsed" where
  "ParseCompactionOptions stod name value c =
     (if name = ''disable_auto_compactions'' then
        parse_store (ParseBoolean name value) (\<lambda>v. c\<lparr>disable_auto_compactions := v\<rparr>) c
      else if name = ''soft_rate_limit'' then
        parse_store (ParseDouble stod value) (\<lambda>v. c\<lparr>soft_rate_limit := v\<rparr>) c
      else if name = ''hard_rate_limit'' then
        parse_store (ParseDouble stod value) (\<lambda>v. c\<lparr>hard_rate_limit := v\<rparr>) c
      else if name = ''level0_file_num_compaction_trigger'' then
        parse_store (ParseInt value) (\<lambda>v. c\<lparr>level0_file_num_compaction_trigger := v\<rparr>) c
      else if name = ''level0_slowdown_writes_trigger'' then
        parse_store (ParseInt value) (\<lambda>v. c\<lparr>level0_slowdown_writes_trigger := v\<rparr>) c
      else if name = ''level0_stop_writes_trigger'' then
        parse_store (ParseInt value) (\<lambda>v. c\<lparr>level0_stop_writes_trigger := v\<rparr>) c
      else if name = ''max_grandparent_overlap_factor'' then
        parse_store (ParseInt value) (\<lambda>v. c\<lparr>max_grandparent_overlap_factor := v\<rparr>) c
      else if name = ''expanded_compaction_factor'' then
        parse_store (ParseInt value) (\<lambda>v. c\<lparr>expanded_compaction_factor := v\<rparr>) c
      else if name = ''source_compaction_factor'' then
        parse_store (ParseInt value) (\<lambda>v. c\<lparr>source_compaction_factor := v\<rparr>) c
      else if name = ''target_file_size_base'' then
        parse_store (ParseInt value) (\<lambda>v. c\<lparr>target_file_size_base := v\<rparr>) c
      else if name = ''target_file_size_multiplier'' then
        parse_store (ParseInt value) (\<lambda>v. c\<lparr>target_file_size_multiplier := v\<rparr>) c
      else if name = ''max_bytes_for_level_base'' then
        parse_store (ParseUint64 value) (\<lambda>v. c\<lparr>max_bytes_for_level_base := v\<rparr>) c
      else if name = ''max_bytes_for_level_multiplier'' then
        parse_store (ParseInt value) (\<lambda>v. c\<lparr>max_bytes_for_level_multiplier := v\<rparr>) c
      else if name = ''max_bytes_for_level_multiplier_additional'' then
        (case parse_colon_list ParseInt value 0 [] of
           Inl (e, vec) \<Rightarrow> ParseThrew e (c\<lparr>max_bytes_for_level_multiplier_additional := vec\<rparr>)
         | Inr vec \<Rightarrow> Parsed (c\<lparr>max_bytes_for_level_multiplier_additional := vec\<rparr>))
      else if name = ''max_mem_compaction_level'' then
        parse_store (ParseInt value) (\<lambda>v. c\<lparr>max_mem_compaction_level := v\<rparr>) c
      else if name = ''verify_checksums_in_compaction'' then
        parse_store (ParseBoolean name value) (\<lambda>v. c\<lparr>verify_checksums_in_compaction := v\<rparr>) c
      else NotParsed)"

definition ParseMiscOptions ::
  "string \<Rightarrow> string \<Rightarrow> 'd ColumnFamilyOptions \<Rightarrow> 'd ColumnFamilyOptions parsed" where
  "ParseMiscOptions name value c =
     (if name = ''max_sequential_skip_in_iterations'' then
        parse_store (ParseUint64 value) (\<lambda>v. c\<lparr>max_sequential_skip_in_iterations := v\<rparr>) c
      else NotParsed)"

section \<open>GetColumnFamilyOptionsFromMap\<close>

text \<open>
  The \<open>try\<close> block of \<open>GetColumnFamilyOptionsFromMap\<close> for one entry.  Besides \<open>iter\<close> and
  \<open>stod\<close> it takes \<open>dflt\<close>, the default-constructed \<open>BlockBasedTableOptions()\<close>, whose
  values \<open>rocksdb/table.h\<close> sets: both the base of the nested call and the local
  \<open>table_opt\<close> that the nested call fills.
\<close>

definition GetColumnFamilyOptions_entry ::
  "(opts_map \<Rightarrow> (string \<times> string) list) \<Rightarrow> (string \<Rightarrow> exn + 'd) \<Rightarrow> BlockBasedTableOptions
     \<Rightarrow> string \<Rightarrow> string \<Rightarrow> 'd ColumnFamilyOptions \<Rightarrow> 'd ColumnFamilyOptions attempt" where
  "GetColumnFamilyOptions_entry iter stod dflt name value c =
     (case ParseMemtableOptions name value c of
        ParseThrew e c' \<Rightarrow> Thrown e c'
      | Parsed c' \<Rightarrow> Done c'
      | NotParsed \<Rightarrow>
     (case ParseCompactionOptions stod name value c of
        ParseThrew e c' \<Rightarrow> Thrown e c'
      | Parsed c' \<Rightarrow> Done c'
      | NotParsed \<Rightarrow>
     (case ParseMiscOptions name value c of
        ParseThrew e c' \<Rightarrow> Thrown e c'
      | Parsed c' \<Rightarrow> Done c'
      | NotParsed \<Rightarrow>
      if name = ''block_based_table_factory'' then
        (case GetBlockBasedTableOptionsFromString iter dflt value dflt of
           Inl f \<Rightarrow> Faulted f
         | Inr (table_opt_s, table_opt) \<Rightarrow>
             if table_opt_s \<noteq> OK then Returned table_opt_s c
             else Done (c\<lparr>table_factory := Some (BlockBasedTableFactory table_opt)\<rparr>))
      else if name = ''min_write_buffer_number_to_merge'' then
        store (ParseInt value) (\<lambda>v. c\<lparr>min_write_buffer_number_to_merge := v\<rparr>) c
      else if name = ''compression'' then
        store (ParseCompressionType value) (\<lambda>v. c\<lparr>compression := v\<rparr>) c
      else if name = ''compression_per_level'' then
        (case parse_colon_list ParseCompressionType value 0 [] of
           Inl (e, vec) \<Rightarrow> Thrown e (c\<lparr>compression_per_level := vec\<rparr>)
         | Inr vec \<Rightarrow> Done (c\<lparr>compression_per_level := vec\<rparr>))
      else if name = ''compression_opts'' then
        (case str_find value CHR '':'' 0 of
           None \<Rightarrow> Returned (InvalidArgument (''invalid config value for: '' @ name)) c
         | Some end1 \<Rightarrow>
             (case ParseInt (substr value 0 (end1 - 0)) of
                Inl e \<Rightarrow> Thrown e c
              | Inr w \<Rightarrow>
                  let c1 = c\<lparr>compression_opts := (compression_opts c)\<lparr>window_bits := w\<rparr>\<rparr>;
                      start1 = end1 + 1
                  in
                  (case str_find value CHR '':'' start1 of
                     None \<Rightarrow>
                       Returned (InvalidArgument (''invalid config value for: '' @ name)) c1
                   | Some end2 \<Rightarrow>
                       (case ParseInt (substr value start1 (end2 - start1)) of
                          Inl e \<Rightarrow> Thrown e c1
                        | Inr l \<Rightarrow>
                            let c2 = c1\<lparr>compression_opts := (compression_opts c1)\<lparr>level := l\<rparr>\<rparr>;
                                start2 = end2 + 1
                            in
                            if start2 \<ge> length value then
                              Returned (InvalidArgument
                                (''invalid config value for: '' @ name)) c2
                            else
                              store (ParseInt (substr value start2 (length value - start2)))
                                (\<lambda>s. c2\<lparr>compression_opts :=
                                   (compression_opts c2)\<lparr>strategy := s\<rparr>\<rparr>) c2))))
      else if name = ''num_levels'' then
        store (ParseInt value) (\<lambda>v. c\<lparr>num_levels := v\<rparr>) c
      else if name = ''purge_redundant_kvs_while_flush'' then
        store (ParseBoolean name value) (\<lambda>v. c\<lparr>purge_redundant_kvs_while_flush := v\<rparr>) c
      else if name = ''compaction_style'' then
        store (ParseCompactionStyle value) (\<lambda>v. c\<lparr>compaction_style := v\<rparr>) c
      else if name = ''compaction_options_universal'' then
        Returned (NotSupported (''Not supported: '' @ name)) c
      else if name = ''compaction_options_fifo'' then
        store (ParseUint64 value)
          (\<lambda>v. c\<lparr>compaction_options_fifo :=
             (compaction_options_fifo c)\<lparr>max_table_files_size := v\<rparr>\<rparr>) c
      else if name = ''bloom_locality'' then
        store (ParseUint32 value) (\<lambda>v. c\<lparr>bloom_locality := v\<rparr>) c
      else if name = ''min_partial_merge_operands'' then
        store (ParseUint32 value) (\<lambda>v. c\<lparr>min_partial_merge_operands := v\<rparr>) c
      else if name = ''inplace_update_support'' then
        store (ParseBoolean name value) (\<lambda>v. c\<lparr>inplace_update_support := v\<rparr>) c
      else if name = ''prefix_extractor'' then
        (let kName = ''fixed:'' in
         if substr value 0 (length kName) \<noteq> kName then
           Returned (InvalidArgument (''Invalid Prefix Extractor type: '' @ value)) c
         else
           (case trim (substr_from value (length kName)) of
              Inl f \<Rightarrow> Faulted f
            | Inr len \<Rightarrow>
                store (ParseInt len)
                  (\<lambda>prefix_length. c\<lparr>prefix_extractor :=
                     Some (FixedPrefixTransform prefix_length)\<rparr>) c))
      else Returned (InvalidArgument (''Unrecognized option: '' @ name)) c)))"

definition GetColumnFamilyOptionsFromMap ::
  "(opts_map \<Rightarrow> (string \<times> string) list) \<Rightarrow> (string \<Rightarrow> exn + 'd) \<Rightarrow> BlockBasedTableOptions
     \<Rightarrow> 'd ColumnFamilyOptions \<Rightarrow> (string \<times> string) list
     \<Rightarrow> fault + (Status \<times> 'd ColumnFamilyOptions)" where
  "GetColumnFamilyOptionsFromMap iter stod dflt base_options entries =
     for_each_entry (GetColumnFamilyOptions_entry iter stod dflt) entries base_options"

definition GetColumnFamilyOptionsFromString ::
  "(opts_map \<Rightarrow> (string \<times> string) list) \<Rightarrow> (string \<Rightarrow> exn + 'd) \<Rightarrow> BlockBasedTableOptions
     \<Rightarrow> 'd ColumnFamilyOptions \<Rightarrow> string \<Rightarrow> 'd ColumnFamilyOptions
     \<Rightarrow> fault + (Status \<times> 'd ColumnFamilyOptions)" where
  "GetColumnFamilyOptionsFromString iter stod dflt base_options opts_str new_options =
     (case StringToMap opts_str [] of
        Inl f \<Rightarrow> Inl f
      | Inr (s, opts_map) \<Rightarrow>
          if s \<noteq> OK then Inr (s, new_options)
          else GetColumnFamilyOptionsFromMap iter stod dflt base_options (iter opts_map))"

section \<open>Calls on objects\<close>

text \<open>
  The callers' objects live in a store, addressed by where they are: \<open>base_options\<close> is a
  reference and \<open>new_options\<close> a pointer, and nothing keeps a caller from passing the same
  object as both.  A call copies the base into \<open>*new_options\<close> and runs the loop on
  \<open>*new_options\<close>; the store it leaves differs from the one it found at \<open>new_options\<close>
  only.
\<close>

definition call_FromMap ::
  "('o \<Rightarrow> (string \<times> string) list \<Rightarrow> fault + (Status \<times> 'o)) \<Rightarrow> (nat \<Rightarrow> 'o) \<Rightarrow> nat
     \<Rightarrow> (string \<times> string) list \<Rightarrow> nat \<Rightarrow> fault + (Status \<times> (nat \<Rightarrow> 'o))" where
  "call_FromMap from_map objs base_options entries new_options =
     (let objs1 = objs(new_options := objs base_options) in
      case from_map (objs1 new_options) entries of
        Inl f \<Rightarrow> Inl f
      | Inr (s, result) \<Rightarrow> Inr (s, objs1(new_options := result)))"

section \<open>Lemmas on the loop over the entries\<close>

text \<open>
  \<open>attempt_all P a\<close>: the configuration that the attempt \<open>a\<close> carries, if it carries one,
  satisfies \<open>P\<close>.
\<close>

fun attempt_all :: "('o \<Rightarrow> bool) \<Rightarrow> 'o attempt \<Rightarrow> bool" where
  "attempt_all P (Done opts) = P opts"
| "attempt_all P (Returned s opts) = P opts"
| "attempt_all P (Thrown e opts) = P opts"
| "attempt_all P (Faulted f) = True"

lemma attempt_all_store:
  "attempt_all P (store r upd opts) = (case r of Inl e \<Rightarrow> P opts | Inr v \<Rightarrow> P (upd v))"
  by (cases r) (simp_all add: store_def)

lemma store_not_Returned: "store r upd opts \<noteq> Returned s opts'"
  by (cases r) (simp_all add: store_def)

lemma for_each_entry_invariant:
  assumes "\<And>name value opts. (name, value) \<in> set entries \<Longrightarrow> P opts
      \<Longrightarrow> attempt_all P (body name value opts)"
    and "P opts" and "for_each_entry body entries opts = Inr (s, opts')"
  shows "P opts'"
  using assms
proof (induction entries arbitrary: opts)
  case Nil
  then show ?case by simp
next
  case (Cons e entries)
  obtain name "value" where e: "e = (name, value)" by (cases e)
  have a: "attempt_all P (body name value opts)"
    using Cons.prems(1) [of name "value" opts] Cons.prems(2) by (simp add: e)
  show ?case
  proof (cases "body name value opts")
    case (Done o1)
    with a have "P o1" by simp
    moreover from Cons.prems(3) Done have "for_each_entry body entries o1 = Inr (s, opts')"
      by (simp add: e)
    ultimately show ?thesis using Cons.IH [of o1] Cons.prems(1) by simp
  next
    case (Returned s1 o1)
    with a Cons.prems(3) show ?thesis by (simp add: e)
  next
    case (Thrown x o1)
    with a Cons.prems(3) show ?thesis by (simp add: e)
  next
    case (Faulted f)
    with Cons.prems(3) show ?thesis by (simp add: e)
  qed
qed

lemma for_each_entry_append:
  assumes "\<And>name value opts opts'. body name value opts \<noteq> Returned OK opts'"
    and "for_each_entry body pre opts = Inr (OK, o1)"
  shows "for_each_entry body (pre @ entries) opts = for_each_entry body entries o1"
  using assms(2)
proof (induction pre arbitrary: opts)
  case Nil
  then show ?case by simp
next
  case (Cons e pre)
  obtain name "value" where e: "e = (name, value)" by (cases e)
  show ?case
  proof (cases "body name value opts")
    case (Done o2)
    with Cons.prems have "for_each_entry body pre o2 = Inr (OK, o1)" by (simp add: e)
    then have "for_each_entry body (pre @ entries) o2 = for_each_entry body entries o1"
      by (rule Cons.IH)
    with Done show ?thesis by (simp add: e)
  next
    case (Returned s1 o2)
    with Cons.prems assms(1) [of name "value" opts o2] show ?thesis by (simp add: e)
  next
    case (Thrown x o2)
    with Cons.prems show ?thesis by (simp add: e)
  next
    case (Faulted f)
    with Cons.prems show ?thesis by (simp add: e)
  qed
qed

lemma for_each_entry_aborts:
  assumes "\<And>name value opts opts'. body name value opts \<noteq> Returned OK opts'"
    and "(k, v) \<in> set entries" and "\<And>opts. \<exists>s opts'. body k v opts = Returned s opts'"
  shows "for_each_entry body entries opts \<noteq> Inr (OK, o1)"
  using assms(2)
proof (induction entries arbitrary: opts)
  case Nil
  then show ?case by simp
next
  case (Cons e entries)
  obtain name "value" where e: "e = (name, value)" by (cases e)
  show ?case
  proof (cases "body name value opts")
    case (Done o2)
    have "(k, v) \<in> set entries"
    proof (rule ccontr)
      assume "(k, v) \<notin> set entries"
      with Cons.prems e have "name = k" "value = v" by auto
      with assms(3) [of opts] Done show False by auto
    qed
    then have "for_each_entry body entries o2 \<noteq> Inr (OK, o1)" by (rule Cons.IH)
    with Done show ?thesis by (simp add: e)
  next
    case (Returned s1 o2)
    with assms(1) [of name "value" opts o2] show ?thesis by (auto simp: e)
  next
    case (Thrown x o2)
    then show ?thesis by (simp add: e)
  next
    case (Faulted f)
    then show ?thesis by (simp add: e)
  qed
qed

section \<open>Keys and the fields they set\<close>

text \<open>
  For each dispatcher: the keys that set a field, in the order of the source, and what it
  means for two configurations to agree on the field that a key sets.  The keys that the
  source answers with \<open>NotSupported\<close> (\<open>db_paths\<close>, \<open>compaction_options_universal\<close>) set
  nothing and are not in the lists.
\<close>

definition Table_keys :: "string list" where
  "Table_keys =
     [''cache_index_and_filter_blocks'', ''index_type'', ''hash_index_allow_collision'',
      ''checksum'', ''no_block_cache'', ''block_cache'', ''block_cache_compressed'',
      ''block_size'', ''block_size_deviation'', ''block_restart_interval'',
      ''filter_policy'', ''whole_key_filtering'']"

definition Table_same_field :: "string \<Rightarrow> BlockBasedTableOptions \<Rightarrow> BlockBasedTableOptions \<Rightarrow> bool" where
  "Table_same_field key a b =
     (if key = ''cache_index_and_filter_blocks'' then cache_index_and_filter_blocks a = cache_index_and_filter_blocks b
      else if key = ''index_type'' then index_type a = index_type b
      else if key = ''hash_index_allow_collision'' then hash_index_allow_collision a = hash_index_allow_collision b
      else if key = ''checksum'' then checksum a = checksum b
      else if key = ''no_block_cache'' then no_block_cache a = no_block_cache b
      else if key = ''block_cache'' then block_cache a = block_cache b
      else if key = ''block_cache_compressed'' then block_cache_compressed a = block_cache_compressed b
      else if key = ''block_size'' then block_size a = block_size b
      else if key = ''block_size_deviation'' then block_size_deviation a = block_size_deviation b
      else if key = ''block_restart_interval'' then block_restart_interval a = block_restart_interval b
      else if key = ''filter_policy'' then filter_policy a = filter_policy b
      else if key = ''whole_key_filtering'' then whole_key_filtering a = whole_key_filtering b
      else True)"

definition DB_keys :: "string list" where
  "DB_keys =
     [''create_if_missing'', ''create_missing_column_families'', ''error_if_exists'',
      ''paranoid_checks'', ''max_open_files'', ''max_total_wal_size'',
      ''disable_data_sync'', ''use_fsync'', ''db_log_dir'', ''wal_dir'',
      ''delete_obsolete_files_period_micros'', ''max_background_compactions'',
      ''max_background_flushes'', ''max_log_file_size'', ''log_file_time_to_roll'',
      ''keep_log_file_num'', ''max_manifest_file_size'', ''table_cache_numshardbits'',
      ''table_cache_remove_scan_count_limit'', ''WAL_ttl_seconds'', ''WAL_size_limit_MB'',
      ''manifest_preallocation_size'', ''allow_os_buffer'', ''allow_mmap_reads'',
      ''allow_mmap_writes'', ''is_fd_close_on_exec'', ''skip_log_error_on_recovery'',
      ''stats_dump_period_sec'', ''advise_random_on_open'', ''db_write_buffer_size'',
      ''use_adaptive_mutex'', ''bytes_per_sync'']"

definition DB_same_field :: "string \<Rightarrow> DBOptions \<Rightarrow> DBOptions \<Rightarrow> bool" where
  "DB_same_field key a b =
     (if key = ''create_if_missing'' then create_if_missing a = create_if_missing b
      else if key = ''create_missing_column_families'' then create_missing_column_families a = create_missing_column_families b
      else if key = ''error_if_exists'' then error_if_exists a = error_if_exists b
      else if key = ''paranoid_checks'' then paranoid_checks a = paranoid_checks b
      else if key = ''max_open_files'' then max_open_files a = max_open_files b
      else if key = ''max_total_wal_size'' then max_total_wal_size a = max_total_wal_size b
      else if key = ''disable_data_sync'' then disableDataSync a = disableDataSync b
      else if key = ''use_fsync'' then use_fsync a = use_fsync b
      else if key = ''db_log_dir'' then db_log_dir a = db_log_dir b
      else if key = ''wal_dir'' then wal_dir a = wal_dir b
      else if key = ''delete_obsolete_files_period_micros'' then delete_obsolete_files_period_micros a = delete_obsolete_files_period_micros b
      else if key = ''max_background_compactions'' then max_background_compactions a = max_background_compactions b
      else if key = ''max_background_flushes'' then max_background_flushes a = max_background_flushes b
      else if key = ''max_log_file_size'' then max_log_file_size a = max_log_file_size b
      else if key = ''log_file_time_to_roll'' then log_file_time_to_roll a = log_file_time_to_roll b
      else if key = ''keep_log_file_num'' then keep_log_file_num a = keep_log_file_num b
      else if key = ''max_manifest_file_size'' then max_manifest_file_size a = max_manifest_file_size b
      else if key = ''table_cache_numshardbits'' then table_cache_numshardbits a = table_cache_numshardbits b
      else if key = ''table_cache_remove_scan_count_limit'' then table_cache_remove_scan_count_limit a = table_cache_remove_scan_count_limit b
      else if key = ''WAL_ttl_seconds'' then WAL_ttl_seconds a = WAL_ttl_seconds b
      else if key = ''WAL_size_limit_MB'' then WAL_size_limit_MB a = WAL_size_limit_MB b
      else if key = ''manifest_preallocation_size'' then manifest_preallocation_size a = manifest_preallocation_size b
      else if key = ''allow_os_buffer'' then allow_os_buffer a = allow_os_buffer b
      else if key = ''allow_mmap_reads'' then allow_mmap_reads a = allow_mmap_reads b
      else if key = ''allow_mmap_writes'' then allow_mmap_writes a = allow_mmap_writes b
      else if key = ''is_fd_close_on_exec'' then is_fd_close_on_exec a = is_fd_close_on_exec b
      else if key = ''skip_log_error_on_recovery'' then skip_log_error_on_recovery a = skip_log_error_on_recovery b
      else if key = ''stats_dump_period_sec'' then stats_dump_period_sec a = stats_dump_period_sec b
      else if key = ''advise_random_on_open'' then advise_random_on_open a = advise_random_on_open b
      else if key = ''db_write_buffer_size'' then db_write_buffer_size a = db_write_buffer_size b
      else if key = ''use_adaptive_mutex'' then use_adaptive_mutex a = use_adaptive_mutex b
      else if key = ''bytes_per_sync'' then bytes_per_sync a = bytes_per_sync b
      else True)"

definition CF_keys :: "string list" where
  "CF_keys =
     [''write_buffer_size'', ''arena_block_size'', ''memtable_prefix_bloom_bits'',
      ''memtable_prefix_bloom_probes'', ''memtable_prefix_bloom_huge_page_tlb_size'',
      ''max_successive_merges'', ''filter_deletes'', ''max_write_buffer_number'',
      ''inplace_update_num_locks'', ''disable_auto_compactions'', ''soft_rate_limit'',
      ''hard_rate_limit'', ''level0_file_num_compaction_trigger'',
      ''level0_slowdown_writes_trigger'', ''level0_stop_writes_trigger'',
      ''max_grandparent_overlap_factor'', ''expanded_compaction_factor'',
      ''source_compaction_factor'', ''target_file_size_base'',
      ''target_file_size_multiplier'', ''max_bytes_for_level_base'',
      ''max_bytes_for_level_multiplier'', ''max_bytes_for_level_multiplier_additional'',
      ''max_mem_compaction_level'', ''verify_checksums_in_compaction'',
      ''max_sequential_skip_in_iterations'', ''block_based_table_factory'',
      ''min_write_buffer_number_to_merge'', ''compression'', ''compression_per_level'',
      ''compression_opts'', ''num_levels'', ''purge_redundant_kvs_while_flush'',
      ''compaction_style'', ''compaction_options_fifo'', ''bloom_locality'',
      ''min_partial_merge_operands'', ''inplace_update_support'', ''prefix_extractor'']"

definition CF_same_field :: "string \<Rightarrow> 'd ColumnFamilyOptions \<Rightarrow> 'd ColumnFamilyOptions \<Rightarrow> bool" where
  "CF_same_field key a b =
     (if key = ''write_buffer_size'' then write_buffer_size a = write_buffer_size b
      else if key = ''arena_block_size'' then arena_block_size a = arena_block_size b
      else if key = ''memtable_prefix_bloom_bits'' then memtable_prefix_bloom_bits a = memtable_prefix_bloom_bits b
      else if key = ''memtable_prefix_bloom_probes'' then memtable_prefix_bloom_probes a = memtable_prefix_bloom_probes b
      else if key = ''memtable_prefix_bloom_huge_page_tlb_size'' then memtable_prefix_bloom_huge_page_tlb_size a = memtable_prefix_bloom_huge_page_tlb_size b
      else if key = ''max_successive_merges'' then max_successive_merges a = max_successive_merges b
      else if key = ''filter_deletes'' then filter_deletes a = filter_deletes b
      else if key = ''max_write_buffer_number'' then max_write_buffer_number a = max_write_buffer_number b
      else if key = ''inplace_update_num_locks'' then inplace_update_num_locks a = inplace_update_num_locks b
      else if key = ''disable_auto_compactions'' then disable_auto_compactions a = disable_auto_compactions b
      else if key = ''soft_rate_limit'' then soft_rate_limit a = soft_rate_limit b
      else if key = ''hard_rate_limit'' then hard_rate_limit a = hard_rate_limit b
      else if key = ''level0_file_num_compaction_trigger'' then level0_file_num_compaction_trigger a = level0_file_num_compaction_trigger b
      else if key = ''level0_slowdown_writes_trigger'' then level0_slowdown_writes_trigger a = level0_slowdown_writes_trigger b
      else if key = ''level0_stop_writes_trigger'' then level0_stop_writes_trigger a = level0_stop_writes_trigger b
      else if key = ''max_grandparent_overlap_factor'' then max_grandparent_overlap_factor a = max_grandparent_overlap_factor b
      else if key = ''expanded_compaction_factor'' then expanded_compaction_factor a = expanded_compaction_factor b
      else if key = ''source_compaction_factor'' then source_compaction_factor a = source_compaction_factor b
      else if key = ''target_file_size_base'' then target_file_size_base a = target_file_size_base b
      else if key = ''target_file_size_multiplier'' then target_file_size_multiplier a = target_file_size_multiplier b
      else if key = ''max_bytes_for_level_base'' then max_bytes_for_level_base a = max_bytes_for_level_base b
      else if key = ''max_bytes_for_level_multiplier'' then max_bytes_for_level_multiplier a = max_bytes_for_level_multiplier b
      else if key = ''max_bytes_for_level_multiplier_additional'' then max_bytes_for_level_multiplier_additional a = max_bytes_for_level_multiplier_additional b
      else if key = ''max_mem_compaction_level'' then max_mem_compaction_level a = max_mem_compaction_level b
      else if key = ''verify_checksums_in_compaction'' then verify_checksums_in_compaction a = verify_checksums_in_compaction b
      else if key = ''max_sequential_skip_in_iterations'' then max_sequential_skip_in_iterations a = max_sequential_skip_in_iterations b
      else if key = ''block_based_table_factory'' then table_factory a = table_factory b
      else if key = ''min_write_buffer_number_to_merge'' then min_write_buffer_number_to_merge a = min_write_buffer_number_to_merge b
      else if key = ''compression'' then compression a = compression b
      else if key = ''compression_per_level'' then compression_per_level a = compression_per_level b
      else if key = ''compression_opts'' then compression_opts a = compression_opts b
      else if key = ''num_levels'' then num_levels a = num_levels b
      else if key = ''purge_redundant_kvs_while_flush'' then purge_redundant_kvs_while_flush a = purge_redundant_kvs_while_flush b
      else if key = ''compaction_style'' then compaction_style a = compaction_style b
      else if key = ''compaction_options_fifo'' then compaction_options_fifo a = compaction_options_fifo b
      else if key = ''bloom_locality'' then bloom_locality a = bloom_locality b
      else if key = ''min_partial_merge_operands'' then min_partial_merge_operands a = min_partial_merge_operands b
      else if key = ''inplace_update_support'' then inplace_update_support a = inplace_update_support b
      else if key = ''prefix_extractor'' then prefix_extractor a = prefix_extractor b
      else True)"

lemma Table_same_field_refl: "Table_same_field key a a"
  by (simp add: Table_same_field_def cong: if_cong)

lemma DB_same_field_refl: "DB_same_field key a a"
  by (simp add: DB_same_field_def cong: if_cong)

lemma CF_same_field_refl: "CF_same_field key a a"
  by (simp add: CF_same_field_def cong: if_cong)

lemma Table_same_field_update:
  "key \<noteq> ''cache_index_and_filter_blocks'' \<Longrightarrow>
     Table_same_field key (t\<lparr>cache_index_and_filter_blocks := v0\<rparr>) b = Table_same_field key t b"
  "key \<noteq> ''index_type'' \<Longrightarrow>
     Table_same_field key (t\<lparr>index_type := v1\<rparr>) b = Table_same_field key t b"
  "key \<noteq> ''hash_index_allow_collision'' \<Longrightarrow>
     Table_same_field key (t\<lparr>hash_index_allow_collision := v2\<rparr>) b = Table_same_field key t b"
  "key \<noteq> ''checksum'' \<Longrightarrow>
     Table_same_field key (t\<lparr>checksum := v3\<rparr>) b = Table_same_field key t b"
  "key \<noteq> ''no_block_cache'' \<Longrightarrow>
     Table_same_field key (t\<lparr>no_block_cache := v4\<rparr>) b = Table_same_field key t b"
  "key \<noteq> ''block_cache'' \<Longrightarrow>
     Table_same_field key (t\<lparr>block_cache := v5\<rparr>) b = Table_same_field key t b"
  "key \<noteq> ''block_cache_compressed'' \<Longrightarrow>
     Table_same_field key (t\<lparr>block_cache_compressed := v6\<rparr>) b = Table_same_field key t b"
  "key \<noteq> ''block_size'' \<Longrightarrow>
     Table_same_field key (t\<lparr>block_size := v7\<rparr>) b = Table_same_field key t b"
  "key \<noteq> ''block_size_deviation'' \<Longrightarrow>
     Table_same_field key (t\<lparr>block_size_deviation := v8\<rparr>) b = Table_same_field key t b"
  "key \<noteq> ''block_restart_interval'' \<Longrightarrow>
     Table_same_field key (t\<lparr>block_restart_interval := v9\<rparr>) b = Table_same_field key t b"
  "key \<noteq> ''filter_policy'' \<Longrightarrow>
     Table_same_field key (t\<lparr>filter_policy := v10\<rparr>) b = Table_same_field key t b"
  "key \<noteq> ''whole_key_filtering'' \<Longrightarrow>
     Table_same_field key (t\<lparr>whole_key_filtering := v11\<rparr>) b = Table_same_field key t b"
  by (simp_all add: Table_same_field_def cong: if_cong)

lemma DB_same_field_update:
  "key \<noteq> ''create_if_missing'' \<Longrightarrow>
     DB_same_field key (d\<lparr>create_if_missing := v0\<rparr>) b = DB_same_field key d b"
  "key \<noteq> ''create_missing_column_families'' \<Longrightarrow>
     DB_same_field key (d\<lparr>create_missing_column_families := v1\<rparr>) b = DB_same_field key d b"
  "key \<noteq> ''error_if_exists'' \<Longrightarrow>
     DB_same_field key (d\<lparr>error_if_exists := v2\<rparr>) b = DB_same_field key d b"
  "key \<noteq> ''paranoid_checks'' \<Longrightarrow>
     DB_same_field key (d\<lparr>paranoid_checks := v3\<rparr>) b = DB_same_field key d b"
  "key \<noteq> ''max_open_files'' \<Longrightarrow>
     DB_same_field key (d\<lparr>max_open_files := v4\<rparr>) b = DB_same_field key d b"
  "key \<noteq> ''max_total_wal_size'' \<Longrightarrow>
     DB_same_field key (d\<lparr>max_total_wal_size := v5\<rparr>) b = DB_same_field key d b"
  "key \<noteq> ''disable_data_sync'' \<Longrightarrow>
     DB_same_field key (d\<lparr>disableDataSync := v6\<rparr>) b = DB_same_field key d b"
  "key \<noteq> ''use_fsync'' \<Longrightarrow>
     DB_same_field key (d\<lparr>use_fsync := v7\<rparr>) b = DB_same_field key d b"
  "key \<noteq> ''db_log_dir'' \<Longrightarrow>
     DB_same_field key (d\<lparr>db_log_dir := v8\<rparr>) b = DB_same_field key d b"
  "key \<noteq> ''wal_dir'' \<Longrightarrow>
     DB_same_field key (d\<lparr>wal_dir := v9\<rparr>) b = DB_same_field key d b"
  "key \<noteq> ''delete_obsolete_files_period_micros'' \<Longrightarrow>
     DB_same_field key (d\<lparr>delete_obsolete_files_period_micros := v10\<rparr>) b = DB_same_field key d b"
  "key \<noteq> ''max_background_compactions'' \<Longrightarrow>
     DB_same_field key (d\<lparr>max_background_compactions := v11\<rparr>) b = DB_same_field key d b"
  "key \<noteq> ''max_background_flushes'' \<Longrightarrow>
     DB_same_field key (d\<lparr>max_background_flushes := v12\<rparr>) b = DB_same_field key d b"
  "key \<noteq> ''max_log_file_size'' \<Longrightarrow>
     DB_same_field key (d\<lparr>max_log_file_size := v13\<rparr>) b = DB_same_field key d b"
  "key \<noteq> ''log_file_time_to_roll'' \<Longrightarrow>
     DB_same_field key (d\<lparr>log_file_time_to_roll := v14\<rparr>) b = DB_same_field key d b"
  "key \<noteq> ''keep_log_file_num'' \<Longrightarrow>
     DB_same_field key (d\<lparr>keep_log_file_num := v15\<rparr>) b = DB_same_field key d b"
  "key \<noteq> ''max_manifest_file_size'' \<Longrightarrow>
     DB_same_field key (d\<lparr>max_manifest_file_size := v16\<rparr>) b = DB_same_field key d b"
  "key \<noteq> ''table_cache_numshardbits'' \<Longrightarrow>
     DB_same_field key (d\<lparr>table_cache_numshardbits := v17\<rparr>) b = DB_same_field key d b"
  "key \<noteq> ''table_cache_remove_scan_count_limit'' \<Longrightarrow>
     DB_same_field key (d\<lparr>table_cache_remove_scan_count_limit := v18\<rparr>) b = DB_same_field key d b"
  "key \<noteq> ''WAL_ttl_seconds'' \<Longrightarrow>
     DB_same_field key (d\<lparr>WAL_ttl_seconds := v19\<rparr>) b = DB_same_field key d b"
  "key \<noteq> ''WAL_size_limit_MB'' \<Longrightarrow>
     DB_same_field key (d\<lparr>WAL_size_limit_MB := v20\<rparr>) b = DB_same_field key d b"
  "key \<noteq> ''manifest_preallocation_size'' \<Longrightarrow>
     DB_same_field key (d\<lparr>manifest_preallocation_size := v21\<rparr>) b = DB_same_field key d b"
  "key \<noteq> ''allow_os_buffer'' \<Longrightarrow>
     DB_same_field key (d\<lparr>allow_os_buffer := v22\<rparr>) b = DB_same_field key d b"
  "key \<noteq> ''allow_mmap_reads'' \<Longrightarrow>
     DB_same_field key (d\<lparr>allow_mmap_reads := v23\<rparr>) b = DB_same_field key d b"
  "key \<noteq> ''allow_mmap_writes'' \<Longrightarrow>
     DB_same_field key (d\<lparr>allow_mmap_writes := v24\<rparr>) b = DB_same_field key d b"
  "key \<noteq> ''is_fd_close_on_exec'' \<Longrightarrow>
     DB_same_field key (d\<lparr>is_fd_close_on_exec := v25\<rparr>) b = DB_same_field key d b"
  "key \<noteq> ''skip_log_error_on_recovery'' \<Longrightarrow>
     DB_same_field key (d\<lparr>skip_log_error_on_recovery := v26\<rparr>) b = DB_same_field key d b"
  "key \<noteq> ''stats_dump_period_sec'' \<Longrightarrow>
     DB_same_field key (d\<lparr>stats_dump_period_sec := v27\<rparr>) b = DB_same_field key d b"
  "key \<noteq> ''advise_random_on_open'' \<Longrightarrow>
     DB_same_field key (d\<lparr>advise_random_on_open := v28\<rparr>) b = DB_same_field key d b"
  "key \<noteq> ''db_write_buffer_size'' \<Longrightarrow>
     DB_same_field key (d\<lparr>db_write_buffer_size := v29\<rparr>) b = DB_same_field key d b"
  "key \<noteq> ''use_adaptive_mutex'' \<Longrightarrow>
     DB_same_field key (d\<lparr>use_adaptive_mutex := v30\<rparr>) b = DB_same_field key d b"
  "key \<noteq> ''bytes_per_sync'' \<Longrightarrow>
     DB_same_field key (d\<lparr>bytes_per_sync := v31\<rparr>) b = DB_same_field key d b"
  by (simp_all add: DB_same_field_def cong: if_cong)

lemma CF_same_field_update:
  "key \<noteq> ''write_buffer_size'' \<Longrightarrow>
     CF_same_field key (c\<lparr>write_buffer_size := v0\<rparr>) b = CF_same_field key c b"
  "key \<noteq> ''arena_block_size'' \<Longrightarrow>
     CF_same_field key (c\<lparr>arena_block_size := v1\<rparr>) b = CF_same_field key c b"
  "key \<noteq> ''memtable_prefix_bloom_bits'' \<Longrightarrow>
     CF_same_field key (c\<lparr>memtable_prefix_bloom_bits := v2\<rparr>) b = CF_same_field key c b"
  "key \<noteq> ''memtable_prefix_bloom_probes'' \<Longrightarrow>
     CF_same_field key (c\<lparr>memtable_prefix_bloom_probes := v3\<rparr>) b = CF_same_field key c b"
  "key \<noteq> ''memtable_prefix_bloom_huge_page_tlb_size'' \<Longrightarrow>
     CF_same_field key (c\<lparr>memtable_prefix_bloom_huge_page_tlb_size := v4\<rparr>) b = CF_same_field key c b"
  "key \<noteq> ''max_successive_merges'' \<Longrightarrow>
     CF_same_field key (c\<lparr>max_successive_merges := v5\<rparr>) b = CF_same_field key c b"
  "key \<noteq> ''filter_deletes'' \<Longrightarrow>
     CF_same_field key (c\<lparr>filter_deletes := v6\<rparr>) b = CF_same_field key c b"
  "key \<noteq> ''max_write_buffer_number'' \<Longrightarrow>
     CF_same_field key (c\<lparr>max_write_buffer_number := v7\<rparr>) b = CF_same_field key c b"
  "key \<noteq> ''inplace_update_num_locks'' \<Longrightarrow>
     CF_same_field key (c\<lparr>inplace_update_num_locks := v8\<rparr>) b = CF_same_field key c b"
  "key \<noteq> ''disable_auto_compactions'' \<Longrightarrow>
     CF_same_field key (c\<lparr>disable_auto_compactions := v9\<rparr>) b = CF_same_field key c b"
  "key \<noteq> ''soft_rate_limit'' \<Longrightarrow>
     CF_same_field key (c\<lparr>soft_rate_limit := v10\<rparr>) b = CF_same_field key c b"
  "key \<noteq> ''hard_rate_limit'' \<Longrightarrow>
     CF_same_field key (c\<lparr>hard_rate_limit := v11\<rparr>) b = CF_same_field key c b"
  "key \<noteq> ''level0_file_num_compaction_trigger'' \<Longrightarrow>
     CF_same_field key (c\<lparr>level0_file_num_compaction_trigger := v12\<rparr>) b = CF_same_field key c b"
  "key \<noteq> ''level0_slowdown_writes_trigger'' \<Longrightarrow>
     CF_same_field key (c\<lparr>level0_slowdown_writes_trigger := v13\<rparr>) b = CF_same_field key c b"
  "key \<noteq> ''level0_stop_writes_trigger'' \<Longrightarrow>
     CF_same_field key (c\<lparr>level0_stop_writes_trigger := v14\<rparr>) b = CF_same_field key c b"
  "key \<noteq> ''max_grandparent_overlap_factor'' \<Longrightarrow>
     CF_same_field key (c\<lparr>max_grandparent_overlap_factor := v15\<rparr>) b = CF_same_field key c b"
  "key \<noteq> ''expanded_compaction_factor'' \<Longrightarrow>
     CF_same_field key (c\<lparr>expanded_compaction_factor := v16\<rparr>) b = CF_same_field key c b"
  "key \<noteq> ''source_compaction_factor'' \<Longrightarrow>
     CF_same_field key (c\<lparr>source_compaction_factor := v17\<rparr>) b = CF_same_field key c b"
  "key \<noteq> ''target_file_size_base'' \<Longrightarrow>
     CF_same_field key (c\<lparr>target_file_size_base := v18\<rparr>) b = CF_same_field key c b"
  "key \<noteq> ''target_file_size_multiplier'' \<Longrightarrow>
     CF_same_field key (c\<lparr>target_file_size_multiplier := v19\<rparr>) b = CF_same_field key c b"
  "key \<noteq> ''max_bytes_for_level_base'' \<Longrightarrow>
     CF_same_field key (c\<lparr>max_bytes_for_level_base := v20\<rparr>) b = CF_same_field key c b"
  "key \<noteq> ''max_bytes_for_level_multiplier'' \<Longrightarrow>
     CF_same_field key (c\<lparr>max_bytes_for_level_multiplier := v21\<rparr>) b = CF_same_field key c b"
  "key \<noteq> ''max_bytes_for_level_multiplier_additional'' \<Longrightarrow>
     CF_same_field key (c\<lparr>max_bytes_for_level_multiplier_additional := v22\<rparr>) b = CF_same_field key c b"
  "key \<noteq> ''max_mem_compaction_level'' \<Longrightarrow>
     CF_same_field key (c\<lparr>max_mem_compaction_level := v23\<rparr>) b = CF_same_field key c b"
  "key \<noteq> ''verify_checksums_in_compaction'' \<Longrightarrow>
     CF_same_field key (c\<lparr>verify_checksums_in_compaction := v24\<rparr>) b = CF_same_field key c b"
  "key \<noteq> ''max_sequential_skip_in_iterations'' \<Longrightarrow>
     CF_same_field key (c\<lparr>max_sequential_skip_in_iterations := v25\<rparr>) b = CF_same_field key c b"
  "key \<noteq> ''block_based_table_factory'' \<Longrightarrow>
     CF_same_field key (c\<lparr>table_factory := v26\<rparr>) b = CF_same_field key c b"
  "key \<noteq> ''min_write_buffer_number_to_merge'' \<Longrightarrow>
     CF_same_field key (c\<lparr>min_write_buffer_number_to_merge := v27\<rparr>) b = CF_same_field key c b"
  "key \<noteq> ''compression'' \<Longrightarrow>
     CF_same_field key (c\<lparr>compression := v28\<rparr>) b = CF_same_field key c b"
  "key \<noteq> ''compression_per_level'' \<Longrightarrow>
     CF_same_field key (c\<lparr>compression_per_level := v29\<rparr>) b = CF_same_field key c b"
  "key \<noteq> ''compression_opts'' \<Longrightarrow>
     CF_same_field key (c\<lparr>compression_opts := v30\<rparr>) b = CF_same_field key c b"
  "key \<noteq> ''num_levels'' \<Longrightarrow>
     CF_same_field key (c\<lparr>num_levels := v31\<rparr>) b = CF_same_field key c b"
  "key \<noteq> ''purge_redundant_kvs_while_flush'' \<Longrightarrow>
     CF_same_field key (c\<lparr>purge_redundant_kvs_while_flush := v32\<rparr>) b = CF_same_field key c b"
  "key \<noteq> ''compaction_style'' \<Longrightarrow>
     CF_same_field key (c\<lparr>compaction_style := v33\<rparr>) b = CF_same_field key c b"
  "key \<noteq> ''compaction_options_fifo'' \<Longrightarrow>
     CF_same_field key (c\<lparr>compaction_options_fifo := v34\<rparr>) b = CF_same_field key c b"
  "key \<noteq> ''bloom_locality'' \<Longrightarrow>
     CF_same_field key (c\<lparr>bloom_locality := v35\<rparr>) b = CF_same_field key c b"
  "key \<noteq> ''min_partial_merge_operands'' \<Longrightarrow>
     CF_same_field key (c\<lparr>min_partial_merge_operands := v36\<rparr>) b = CF_same_field key c b"
  "key \<noteq> ''inplace_update_support'' \<Longrightarrow>
     CF_same_field key (c\<lparr>inplace_update_support := v37\<rparr>) b = CF_same_field key c b"
  "key \<noteq> ''prefix_extractor'' \<Longrightarrow>
     CF_same_field key (c\<lparr>prefix_extractor := v38\<rparr>) b = CF_same_field key c b"
  by (simp_all add: CF_same_field_def cong: if_cong)

section \<open>What one entry does to the configuration\<close>

lemma GetBlockBasedTableOptions_entry_unrecognized:
  assumes "name \<notin> set Table_keys"
  shows "GetBlockBasedTableOptions_entry name value t =
    Returned (InvalidArgument (''Unrecognized option: '' @ name)) t"
  using assms by (simp add: GetBlockBasedTableOptions_entry_def Table_keys_def)

lemma GetBlockBasedTableOptions_entry_frame:
  assumes "key \<noteq> name" and "Table_same_field key t b"
  shows "attempt_all (\<lambda>t'. Table_same_field key t' b)
    (GetBlockBasedTableOptions_entry name value t)"
proof (cases "name \<in> set Table_keys")
  case True
  then show ?thesis
    using assms unfolding Table_keys_def set_simps insert_iff empty_iff
    by (elim disjE FalseE; hypsubst)
       (simp_all add: GetBlockBasedTableOptions_entry_def attempt_all_store
          Table_same_field_update Let_def split: sum.split option.split)
next
  case False
  then show ?thesis using assms by (simp add: GetBlockBasedTableOptions_entry_unrecognized)
qed

lemma GetBlockBasedTableOptions_entry_not_OK:
  "GetBlockBasedTableOptions_entry name value t \<noteq> Returned OK t'"
proof (cases "name \<in> set Table_keys")
  case True
  then show ?thesis
    unfolding Table_keys_def set_simps insert_iff empty_iff
    by (elim disjE FalseE; hypsubst)
       (simp_all add: GetBlockBasedTableOptions_entry_def store_not_Returned
          Let_def split: sum.split option.split)
next
  case False
  then show ?thesis by (simp add: GetBlockBasedTableOptions_entry_unrecognized)
qed

lemma GetDBOptions_entry_unrecognized:
  assumes "name \<notin> set DB_keys"
  shows "GetDBOptions_entry name value d =
    (if name = ''db_paths'' then Returned (NotSupported (''Not supported: '' @ name)) d
     else Returned (InvalidArgument (''Unrecognized option: '' @ name)) d)"
  using assms by (simp add: GetDBOptions_entry_def DB_keys_def)

lemma GetDBOptions_entry_frame:
  assumes "key \<noteq> name" and "DB_same_field key d b"
  shows "attempt_all (\<lambda>d'. DB_same_field key d' b) (GetDBOptions_entry name value d)"
proof (cases "name \<in> set DB_keys")
  case True
  then show ?thesis
    using assms unfolding DB_keys_def set_simps insert_iff empty_iff
    by (elim disjE FalseE; hypsubst)
       (simp_all add: GetDBOptions_entry_def attempt_all_store DB_same_field_update
          split: sum.split)
next
  case False
  then show ?thesis using assms by (simp add: GetDBOptions_entry_unrecognized)
qed

lemma GetDBOptions_entry_not_OK: "GetDBOptions_entry name value d \<noteq> Returned OK d'"
proof (cases "name \<in> set DB_keys")
  case True
  then show ?thesis
    unfolding DB_keys_def set_simps insert_iff empty_iff
    by (elim disjE FalseE; hypsubst)
       (simp_all add: GetDBOptions_entry_def store_not_Returned)
next
  case False
  then show ?thesis by (simp add: GetDBOptions_entry_unrecognized)
qed

lemmas CF_entry_defs = GetColumnFamilyOptions_entry_def ParseMemtableOptions_def
  ParseCompactionOptions_def ParseMiscOptions_def

lemma GetColumnFamilyOptions_entry_unrecognized:
  assumes "name \<notin> set CF_keys"
  shows "GetColumnFamilyOptions_entry iter stod dflt name value c =
    (if name = ''compaction_options_universal''
     then Returned (NotSupported (''Not supported: '' @ name)) c
     else Returned (InvalidArgument (''Unrecognized option: '' @ name)) c)"
  using assms by (simp add: CF_entry_defs CF_keys_def)

lemma GetColumnFamilyOptions_entry_frame:
  assumes "key \<noteq> name" and "CF_same_field key c b"
  shows "attempt_all (\<lambda>c'. CF_same_field key c' b)
    (GetColumnFamilyOptions_entry iter stod dflt name value c)"
proof (cases "name \<in> set CF_keys")
  case True
  then show ?thesis
    using assms unfolding CF_keys_def set_simps insert_iff empty_iff
    by (elim disjE FalseE; hypsubst)
       (simp_all add: CF_entry_defs parse_store_def attempt_all_store CF_same_field_update
          Let_def split: sum.split option.split prod.split)
next
  case False
  then show ?thesis using assms by (simp add: GetColumnFamilyOptions_entry_unrecognized)
qed

lemma GetColumnFamilyOptions_entry_not_OK:
  "GetColumnFamilyOptions_entry iter stod dflt name value c \<noteq> Returned OK c'"
proof (cases "name \<in> set CF_keys")
  case True
  then show ?thesis
    unfolding CF_keys_def set_simps insert_iff empty_iff
    by (elim disjE FalseE; hypsubst)
       (simp_all add: CF_entry_defs parse_store_def store_not_Returned
          Let_def split: sum.split option.split prod.split)
next
  case False
  then show ?thesis by (simp add: GetColumnFamilyOptions_entry_unrecognized)
qed

section \<open>Example configurations\<close>

text \<open>
  Three configurations on which the theorems below are tried.  The values of the table
  configuration are those that \<open>rocksdb/table.h\<close> gave a default-constructed
  \<open>BlockBasedTableOptions\<close> at the time.
\<close>

definition example_table_options :: BlockBasedTableOptions where
  "example_table_options =
     \<lparr>cache_index_and_filter_blocks = False, index_type = kBinarySearch,
      hash_index_allow_collision = True, checksum = kCRC32c, no_block_cache = False,
      block_cache = None, block_cache_compressed = None, block_size = 4096,
      block_size_deviation = 10, block_restart_interval = 16, filter_policy = None,
      whole_key_filtering = True\<rparr>"

definition example_db_options :: DBOptions where
  "example_db_options =
     \<lparr>create_if_missing = False, create_missing_column_families = False,
      error_if_exists = False, paranoid_checks = True, max_open_files = 5000,
      max_total_wal_size = 0, disableDataSync = False, use_fsync = False,
      db_log_dir = [], wal_dir = [], delete_obsolete_files_period_micros = 21600000000,
      max_background_compactions = 1, max_background_flushes = 1, max_log_file_size = 0,
      log_file_time_to_roll = 0, keep_log_file_num = 1000,
      max_manifest_file_size = 18446744073709551615, table_cache_numshardbits = 4,
      table_cache_remove_scan_count_limit = 16, WAL_ttl_seconds = 0, WAL_size_limit_MB = 0,
      manifest_preallocation_size = 4194304, allow_os_buffer = True,
      allow_mmap_reads = False, allow_mmap_writes = False, is_fd_close_on_exec = True,
      skip_log_error_on_recovery = False, stats_dump_period_sec = 3600,
      advise_random_on_open = True, db_write_buffer_size = 0, use_adaptive_mutex = False,
      bytes_per_sync = 0\<rparr>"

definition example_cf_options :: "unit ColumnFamilyOptions" where
  "example_cf_options =
     \<lparr>write_buffer_size = 4194304, arena_block_size = 0, memtable_prefix_bloom_bits = 0,
      memtable_prefix_bloom_probes = 6, memtable_prefix_bloom_huge_page_tlb_size = 0,
      max_successive_merges = 0, filter_deletes = False, max_write_buffer_number = 2,
      inplace_update_num_locks = 10000, disable_auto_compactions = False,
      soft_rate_limit = (), hard_rate_limit = (), level0_file_num_compaction_trigger = 4,
      level0_slowdown_writes_trigger = 20, level0_stop_writes_trigger = 24,
      max_grandparent_overlap_factor = 10, expanded_compaction_factor = 25,
      source_compaction_factor = 1, target_file_size_base = 2097152,
      target_file_size_multiplier = 1, max_bytes_for_level_base = 10485760,
      max_bytes_for_level_multiplier = 10, max_bytes_for_level_multiplier_additional = [],
      max_mem_compaction_level = 2, verify_checksums_in_compaction = True,
      max_sequential_skip_in_iterations = 8, table_factory = None,
      min_write_buffer_number_to_merge = 1, compression = kSnappyCompression,
      compression_per_level = [],
      compression_opts = \<lparr>window_bits = - 14, level = - 1, strategy = 0\<rparr>,
      num_levels = 7, purge_redundant_kvs_while_flush = True,
      compaction_style = kCompactionStyleLevel,
      compaction_options_fifo = \<lparr>max_table_files_size = 1073741824\<rparr>,
      bloom_locality = 0, min_partial_merge_operands = 2, inplace_update_support = False,
      prefix_extractor = None\<rparr>"

definition no_stod :: "string \<Rightarrow> exn + unit" where
  "no_stod s = Inl (invalid_argument ''stod'')"

section \<open>Unrecognized and unsupported keys\<close>

lemma FromMap_step:
  assumes "\<And>name value opts opts'. body name value opts \<noteq> Returned OK opts'"
    and "for_each_entry body pre opts = Inr (OK, o1)"
    and "body k v o1 = Returned s o1"
  shows "for_each_entry body (pre @ (k, v) # post) opts = Inr (s, o1)"
  using for_each_entry_append [of body pre opts o1 "(k, v) # post", OF assms(1,2)] assms(3)
  by simp

text \<open>
  C7.  In each of the three dispatchers, when the loop comes to an entry whose key is not
  one of the dispatcher's keys (the entries \<open>pre\<close> before it having been applied), the
  call returns \<open>InvalidArgument("Unrecognized option: " + key)\<close>; for \<open>db_paths\<close> in the
  engine-wide dispatcher and \<open>compaction_options_universal\<close> in the column family
  dispatcher it returns \<open>NotSupported("Not supported: " + key)\<close> instead.  And in whatever
  order the entries are visited, a map that holds such a key is never answered with \<open>OK\<close>.
\<close>

theorem unrecognized_key_aborts:
  "(GetBlockBasedTableOptionsFromMap t pre = Inr (OK, t1) \<and> k \<notin> set Table_keys \<longrightarrow>
      GetBlockBasedTableOptionsFromMap t (pre @ (k, v) # post) =
        Inr (InvalidArgument (''Unrecognized option: '' @ k), t1))
   \<and> (GetDBOptionsFromMap d pre = Inr (OK, d1) \<and> k \<notin> set DB_keys \<and> k \<noteq> ''db_paths'' \<longrightarrow>
      GetDBOptionsFromMap d (pre @ (k, v) # post) =
        Inr (InvalidArgument (''Unrecognized option: '' @ k), d1))
   \<and> (GetDBOptionsFromMap d pre = Inr (OK, d1) \<longrightarrow>
      GetDBOptionsFromMap d (pre @ (''db_paths'', v) # post) =
        Inr (NotSupported ''Not supported: db_paths'', d1))
   \<and> (GetColumnFamilyOptionsFromMap iter stod dflt c pre = Inr (OK, c1) \<and> k \<notin> set CF_keys
        \<and> k \<noteq> ''compaction_options_universal'' \<longrightarrow>
      GetColumnFamilyOptionsFromMap iter stod dflt c (pre @ (k, v) # post) =
        Inr (InvalidArgument (''Unrecognized option: '' @ k), c1))
   \<and> (GetColumnFamilyOptionsFromMap iter stod dflt c pre = Inr (OK, c1) \<longrightarrow>
      GetColumnFamilyOptionsFromMap iter stod dflt c
          (pre @ (''compaction_options_universal'', v) # post) =
        Inr (NotSupported ''Not supported: compaction_options_universal'', c1))
   \<and> ((k, v) \<in> set entries \<and> k \<notin> set Table_keys \<longrightarrow>
      GetBlockBasedTableOptionsFromMap t entries \<noteq> Inr (OK, t2))
   \<and> ((k, v) \<in> set entries \<and> k \<notin> set DB_keys \<longrightarrow>
      GetDBOptionsFromMap d entries \<noteq> Inr (OK, d2))
   \<and> ((k, v) \<in> set entries \<and> k \<notin> set CF_keys \<longrightarrow>
      GetColumnFamilyOptionsFromMap iter stod dflt c entries \<noteq> Inr (OK, c2))"
proof (intro conjI impI)
  assume "GetBlockBasedTableOptionsFromMap t pre = Inr (OK, t1) \<and> k \<notin> set Table_keys"
  then show "GetBlockBasedTableOptionsFromMap t (pre @ (k, v) # post) =
      Inr (InvalidArgument (''Unrecognized option: '' @ k), t1)"
    unfolding GetBlockBasedTableOptionsFromMap_def
    by (intro FromMap_step)
       (simp_all add: GetBlockBasedTableOptions_entry_not_OK
          GetBlockBasedTableOptions_entry_unrecognized)
next
  assume "GetDBOptionsFromMap d pre = Inr (OK, d1) \<and> k \<notin> set DB_keys \<and> k \<noteq> ''db_paths''"
  then show "GetDBOptionsFromMap d (pre @ (k, v) # post) =
      Inr (InvalidArgument (''Unrecognized option: '' @ k), d1)"
    unfolding GetDBOptionsFromMap_def
    by (intro FromMap_step)
       (simp_all add: GetDBOptions_entry_not_OK GetDBOptions_entry_unrecognized)
next
  assume "GetDBOptionsFromMap d pre = Inr (OK, d1)"
  moreover have "''db_paths'' \<notin> set DB_keys" by (simp add: DB_keys_def)
  ultimately show "GetDBOptionsFromMap d (pre @ (''db_paths'', v) # post) =
      Inr (NotSupported ''Not supported: db_paths'', d1)"
    unfolding GetDBOptionsFromMap_def
    by (intro FromMap_step)
       (simp_all add: GetDBOptions_entry_not_OK GetDBOptions_entry_unrecognized)
next
  assume "GetColumnFamilyOptionsFromMap iter stod dflt c pre = Inr (OK, c1) \<and> k \<notin> set CF_keys
      \<and> k \<noteq> ''compaction_options_universal''"
  then show "GetColumnFamilyOptionsFromMap iter stod dflt c (pre @ (k, v) # post) =
      Inr (InvalidArgument (''Unrecognized option: '' @ k), c1)"
    unfolding GetColumnFamilyOptionsFromMap_def
    by (intro FromMap_step)
       (simp_all add: GetColumnFamilyOptions_entry_not_OK
          GetColumnFamilyOptions_entry_unrecognized)
next
  assume "GetColumnFamilyOptionsFromMap iter stod dflt c pre = Inr (OK, c1)"
  moreover have "''compaction_options_universal'' \<notin> set CF_keys" by (simp add: CF_keys_def)
  ultimately show "GetColumnFamilyOptionsFromMap iter stod dflt c
        (pre @ (''compaction_options_universal'', v) # post) =
      Inr (NotSupported ''Not supported: compaction_options_universal'', c1)"
    unfolding GetColumnFamilyOptionsFromMap_def
    by (intro FromMap_step)
       (simp_all add: GetColumnFamilyOptions_entry_not_OK
          GetColumnFamilyOptions_entry_unrecognized)
next
  assume "(k, v) \<in> set entries \<and> k \<notin> set Table_keys"
  then show "GetBlockBasedTableOptionsFromMap t entries \<noteq> Inr (OK, t2)"
    unfolding GetBlockBasedTableOptionsFromMap_def
    by (intro for_each_entry_aborts [of _ k v])
       (simp_all add: GetBlockBasedTableOptions_entry_not_OK
          GetBlockBasedTableOptions_entry_unrecognized)
next
  assume "(k, v) \<in> set entries \<and> k \<notin> set DB_keys"
  then show "GetDBOptionsFromMap d entries \<noteq> Inr (OK, d2)"
    unfolding GetDBOptionsFromMap_def
    by (intro for_each_entry_aborts [of _ k v])
       (simp_all add: GetDBOptions_entry_not_OK GetDBOptions_entry_unrecognized)
next
  assume "(k, v) \<in> set entries \<and> k \<notin> set CF_keys"
  then show "GetColumnFamilyOptionsFromMap iter stod dflt c entries \<noteq> Inr (OK, c2)"
    unfolding GetColumnFamilyOptionsFromMap_def
    by (intro for_each_entry_aborts [of _ k v])
       (simp_all add: GetColumnFamilyOptions_entry_not_OK
          GetColumnFamilyOptions_entry_unrecognized)
qed

theorem unrecognized_key_aborts_witness:
  "GetBlockBasedTableOptionsFromMap example_table_options
      [(''block_size'', ''8192''), (''not_a_real_option'', ''1''), (''checksum'', ''kxxHash'')] =
     Inr (InvalidArgument ''Unrecognized option: not_a_real_option'',
          example_table_options\<lparr>block_size := 8192\<rparr>)
   \<and> GetDBOptionsFromMap example_db_options
      [(''use_fsync'', ''true''), (''not_a_real_option'', ''1'')] =
     Inr (InvalidArgument ''Unrecognized option: not_a_real_option'',
          example_db_options\<lparr>use_fsync := True\<rparr>)
   \<and> GetDBOptionsFromMap example_db_options
      [(''use_fsync'', ''true''), (''db_paths'', ''/tmp'')] =
     Inr (NotSupported ''Not supported: db_paths'', example_db_options\<lparr>use_fsync := True\<rparr>)
   \<and> GetColumnFamilyOptionsFromMap id no_stod example_table_options example_cf_options
      [(''num_levels'', ''5''), (''not_a_real_option'', ''1'')] =
     Inr (InvalidArgument ''Unrecognized option: not_a_real_option'',
          example_cf_options\<lparr>num_levels := 5\<rparr>)
   \<and> GetColumnFamilyOptionsFromMap id no_stod example_table_options example_cf_options
      [(''num_levels'', ''5''), (''compaction_options_universal'', ''{}'')] =
     Inr (NotSupported ''Not supported: compaction_options_universal'',
          example_cf_options\<lparr>num_levels := 5\<rparr>)
   \<and> GetBlockBasedTableOptionsFromMap example_table_options
      [(''checksum'', ''kxxHash''), (''not_a_real_option'', ''1'')] \<noteq>
     Inr (OK, example_table_options\<lparr>checksum := kxxHash\<rparr>)
   \<and> GetDBOptionsFromMap example_db_options
      [(''use_fsync'', ''true''), (''db_paths'', ''/tmp'')] \<noteq>
     Inr (OK, example_db_options\<lparr>use_fsync := True\<rparr>)
   \<and> GetColumnFamilyOptionsFromMap id no_stod example_table_options example_cf_options
      [(''num_levels'', ''5''), (''compaction_options_universal'', ''{}'')] \<noteq>
     Inr (OK, example_cf_options\<lparr>num_levels := 5\<rparr>)"
proof -
  have t: "GetBlockBasedTableOptionsFromMap example_table_options [(''block_size'', ''8192'')]
      = Inr (OK, example_table_options\<lparr>block_size := 8192\<rparr>)"
    by (simp add: GetBlockBasedTableOptionsFromMap_def GetBlockBasedTableOptions_entry_def
        store_def parse_defs)
  have d: "GetDBOptionsFromMap example_db_options [(''use_fsync'', ''true'')]
      = Inr (OK, example_db_options\<lparr>use_fsync := True\<rparr>)"
    by (simp add: GetDBOptionsFromMap_def GetDBOptions_entry_def store_def ParseBoolean_def)
  have c: "GetColumnFamilyOptionsFromMap id no_stod example_table_options example_cf_options
      [(''num_levels'', ''5'')] = Inr (OK, example_cf_options\<lparr>num_levels := 5\<rparr>)"
    by (simp add: GetColumnFamilyOptionsFromMap_def CF_entry_defs store_def parse_defs)
  note w1 = unrecognized_key_aborts [of example_table_options "[(''block_size'', ''8192'')]"
      "example_table_options\<lparr>block_size := 8192\<rparr>" "''not_a_real_option''" "''1''"
      "[(''checksum'', ''kxxHash'')]" example_db_options "example_db_options\<lparr>use_fsync := True\<rparr>"
      id no_stod example_table_options example_cf_options
      "example_cf_options\<lparr>num_levels := 5\<rparr>"
      "[(''checksum'', ''kxxHash''), (''not_a_real_option'', ''1'')]"
      "example_table_options\<lparr>checksum := kxxHash\<rparr>" example_db_options example_cf_options]
  note w2 = unrecognized_key_aborts [of example_table_options "[(''use_fsync'', ''true'')]"
      "example_table_options" "''not_a_real_option''" "''1''" "[]"
      example_db_options "example_db_options\<lparr>use_fsync := True\<rparr>"
      id no_stod example_table_options example_cf_options example_cf_options
      "[]" example_table_options example_db_options example_cf_options]
  note w3 = unrecognized_key_aborts [of example_table_options "[(''use_fsync'', ''true'')]"
      "example_table_options" "''db_paths''" "''/tmp''" "[]"
      example_db_options "example_db_options\<lparr>use_fsync := True\<rparr>"
      id no_stod example_table_options example_cf_options example_cf_options
      "[(''use_fsync'', ''true''), (''db_paths'', ''/tmp'')]" example_table_options
      "example_db_options\<lparr>use_fsync := True\<rparr>"]
  note w4 = unrecognized_key_aborts [of example_table_options "[(''num_levels'', ''5'')]"
      "example_table_options" "''not_a_real_option''" "''1''" "[]"
      example_db_options example_db_options
      id no_stod example_table_options example_cf_options
      "example_cf_options\<lparr>num_levels := 5\<rparr>"
      "[]" example_table_options example_db_options example_cf_options]
  note w5 = unrecognized_key_aborts [of example_table_options "[(''num_levels'', ''5'')]"
      "example_table_options" "''compaction_options_universal''" "''{}''" "[]"
      example_db_options example_db_options
      id no_stod example_table_options example_cf_options
      "example_cf_options\<lparr>num_levels := 5\<rparr>"
      "[(''num_levels'', ''5''), (''compaction_options_universal'', ''{}'')]"
      example_table_options example_db_options "example_cf_options\<lparr>num_levels := 5\<rparr>"]
  from t w1 have 1: "GetBlockBasedTableOptionsFromMap example_table_options
      [(''block_size'', ''8192''), (''not_a_real_option'', ''1''), (''checksum'', ''kxxHash'')] =
     Inr (InvalidArgument ''Unrecognized option: not_a_real_option'',
          example_table_options\<lparr>block_size := 8192\<rparr>)"
    by (simp add: Table_keys_def)
  from w1 have 6: "GetBlockBasedTableOptionsFromMap example_table_options
      [(''checksum'', ''kxxHash''), (''not_a_real_option'', ''1'')] \<noteq>
     Inr (OK, example_table_options\<lparr>checksum := kxxHash\<rparr>)"
    by (simp add: Table_keys_def)
  from d w2 have 2: "GetDBOptionsFromMap example_db_options
      [(''use_fsync'', ''true''), (''not_a_real_option'', ''1'')] =
     Inr (InvalidArgument ''Unrecognized option: not_a_real_option'',
          example_db_options\<lparr>use_fsync := True\<rparr>)"
    by (simp add: DB_keys_def)
  from d w3 have 3: "GetDBOptionsFromMap example_db_options
      [(''use_fsync'', ''true''), (''db_paths'', ''/tmp'')] =
     Inr (NotSupported ''Not supported: db_paths'', example_db_options\<lparr>use_fsync := True\<rparr>)"
    by simp
  from w3 have 7: "GetDBOptionsFromMap example_db_options
      [(''use_fsync'', ''true''), (''db_paths'', ''/tmp'')] \<noteq>
     Inr (OK, example_db_options\<lparr>use_fsync := True\<rparr>)"
    by (simp add: DB_keys_def)
  from c w4 have 4: "GetColumnFamilyOptionsFromMap id no_stod example_table_options
      example_cf_options [(''num_levels'', ''5''), (''not_a_real_option'', ''1'')] =
     Inr (InvalidArgument ''Unrecognized option: not_a_real_option'',
          example_cf_options\<lparr>num_levels := 5\<rparr>)"
    by (simp add: CF_keys_def)
  from c w5 have 5: "GetColumnFamilyOptionsFromMap id no_stod example_table_options
      example_cf_options [(''num_levels'', ''5''), (''compaction_options_universal'', ''{}'')] =
     Inr (NotSupported ''Not supported: compaction_options_universal'',
          example_cf_options\<lparr>num_levels := 5\<rparr>)"
    by simp
  from w5 have 8: "GetColumnFamilyOptionsFromMap id no_stod example_table_options
      example_cf_options [(''num_levels'', ''5''), (''compaction_options_universal'', ''{}'')] \<noteq>
     Inr (OK, example_cf_options\<lparr>num_levels := 5\<rparr>)"
    by (simp add: CF_keys_def)
  from 1 2 3 4 5 6 7 8 show ?thesis by (intro conjI)
qed

section \<open>Partial update and the base configuration\<close>

lemma call_FromMap_result:
  assumes "call_FromMap from_map objs base_options entries new_options = Inr (s, objs')"
  shows "from_map (objs base_options) entries = Inr (s, objs' new_options)
    \<and> (new_options \<noteq> base_options \<longrightarrow> objs' base_options = objs base_options)"
  using assms by (auto simp: call_FromMap_def Let_def split: sum.splits)

lemma store_not_Faulted: "store r upd opts \<noteq> Faulted f"
  by (cases r) (simp_all add: store_def)

lemma GetDBOptions_entry_not_Faulted: "GetDBOptions_entry name value d \<noteq> Faulted f"
proof (cases "name \<in> set DB_keys")
  case True
  then show ?thesis
    unfolding DB_keys_def set_simps insert_iff empty_iff
    by (elim disjE FalseE; hypsubst)
       (simp_all add: GetDBOptions_entry_def store_not_Faulted)
next
  case False
  then show ?thesis by (simp add: GetDBOptions_entry_unrecognized)
qed

lemma for_each_entry_returns:
  assumes "\<And>name value opts f. body name value opts \<noteq> Faulted f"
  shows "\<exists>s opts'. for_each_entry body entries opts = Inr (s, opts')"
proof (induction entries arbitrary: opts)
  case Nil
  then show ?case by simp
next
  case (Cons e entries)
  obtain name "value" where e: "e = (name, value)" by (cases e)
  show ?case
  proof (cases "body name value opts")
    case (Done o1)
    with Cons.IH [of o1] show ?thesis by (simp add: e)
  next
    case (Returned s1 o1)
    then show ?thesis by (simp add: e)
  next
    case (Thrown x o1)
    then show ?thesis by (simp add: e)
  next
    case (Faulted f)
    with assms [of name "value" opts f] show ?thesis by simp
  qed
qed

lemma GetDBOptionsFromMap_returns:
  "\<exists>s d'. GetDBOptionsFromMap d entries = Inr (s, d')"
  unfolding GetDBOptionsFromMap_def
  by (rule for_each_entry_returns) (rule GetDBOptions_entry_not_Faulted)

lemma call_GetDBOptionsFromMap_returns:
  "\<exists>s dbs'. call_FromMap GetDBOptionsFromMap dbs base_options entries new_options
     = Inr (s, dbs')"
proof -
  obtain s d' where "GetDBOptionsFromMap (dbs base_options) entries = Inr (s, d')"
    using GetDBOptionsFromMap_returns by blast
  then show ?thesis by (simp add: call_FromMap_def Let_def)
qed

text \<open>
  C2, as the code has it.  For each dispatcher and every call that returns a status, a key
  of the dispatcher that is not in the map leaves its field as the base has it, in the
  configuration that the call leaves in \<open>*new_options\<close>, whatever the status.  The base
  object itself is as before the call provided it is not the object that \<open>new_options\<close>
  points to: the signature does not keep a caller from passing the same object as both,
  and then the call writes into the base.  The engine-wide dispatcher returns a status on
  every map.  The other two do so unless a value of the map hands \<open>trim\<close> the empty string
  (as \<open>prefix_extractor=fixed:\<close> does), where the call runs into the read of C1; nothing
  is said of those maps.
\<close>

theorem absent_key_keeps_base_field:
  "(key \<in> set DB_keys \<and> key \<notin> set (map fst entries)
      \<and> call_FromMap GetDBOptionsFromMap dbs base_options entries new_options = Inr (s, dbs')
      \<longrightarrow> DB_same_field key (dbs' new_options) (dbs base_options))
   \<and> (new_options \<noteq> base_options
      \<and> call_FromMap GetDBOptionsFromMap dbs base_options entries new_options = Inr (s, dbs')
      \<longrightarrow> dbs' base_options = dbs base_options)
   \<and> (key \<in> set CF_keys \<and> key \<notin> set (map fst entries)
      \<and> call_FromMap (GetColumnFamilyOptionsFromMap iter stod dflt) cfs base_options entries
            new_options = Inr (s, cfs')
      \<longrightarrow> CF_same_field key (cfs' new_options) (cfs base_options))
   \<and> (new_options \<noteq> base_options
      \<and> call_FromMap (GetColumnFamilyOptionsFromMap iter stod dflt) cfs base_options entries
            new_options = Inr (s, cfs')
      \<longrightarrow> cfs' base_options = cfs base_options)
   \<and> (key \<in> set Table_keys \<and> key \<notin> set (map fst entries)
      \<and> call_FromMap GetBlockBasedTableOptionsFromMap tbs base_options entries new_options
            = Inr (s, tbs')
      \<longrightarrow> Table_same_field key (tbs' new_options) (tbs base_options))
   \<and> (new_options \<noteq> base_options
      \<and> call_FromMap GetBlockBasedTableOptionsFromMap tbs base_options entries new_options
            = Inr (s, tbs')
      \<longrightarrow> tbs' base_options = tbs base_options)
   \<and> (\<exists>s1 dbs1. call_FromMap GetDBOptionsFromMap dbs base_options entries new_options
        = Inr (s1, dbs1))"
proof (intro conjI impI)
  assume a: "key \<in> set DB_keys \<and> key \<notin> set (map fst entries)
      \<and> call_FromMap GetDBOptionsFromMap dbs base_options entries new_options = Inr (s, dbs')"
  then have r: "for_each_entry GetDBOptions_entry entries (dbs base_options)
      = Inr (s, dbs' new_options)"
    using call_FromMap_result [of GetDBOptionsFromMap] by (simp add: GetDBOptionsFromMap_def)
  show "DB_same_field key (dbs' new_options) (dbs base_options)"
  proof (rule for_each_entry_invariant [OF _ _ r])
    show "DB_same_field key (dbs base_options) (dbs base_options)"
      by (rule DB_same_field_refl)
  next
    fix name "value" opts
    assume "(name, value) \<in> set entries" and p: "DB_same_field key opts (dbs base_options)"
    with a have "key \<noteq> name" by force
    then show "attempt_all (\<lambda>d'. DB_same_field key d' (dbs base_options))
        (GetDBOptions_entry name value opts)"
      using p by (rule GetDBOptions_entry_frame)
  qed
next
  assume "new_options \<noteq> base_options
      \<and> call_FromMap GetDBOptionsFromMap dbs base_options entries new_options = Inr (s, dbs')"
  then show "dbs' base_options = dbs base_options"
    using call_FromMap_result [of GetDBOptionsFromMap] by blast
next
  assume a: "key \<in> set CF_keys \<and> key \<notin> set (map fst entries)
      \<and> call_FromMap (GetColumnFamilyOptionsFromMap iter stod dflt) cfs base_options entries
            new_options = Inr (s, cfs')"
  then have r: "for_each_entry (GetColumnFamilyOptions_entry iter stod dflt) entries
      (cfs base_options) = Inr (s, cfs' new_options)"
    using call_FromMap_result [of "GetColumnFamilyOptionsFromMap iter stod dflt"]
    by (simp add: GetColumnFamilyOptionsFromMap_def)
  show "CF_same_field key (cfs' new_options) (cfs base_options)"
  proof (rule for_each_entry_invariant [OF _ _ r])
    show "CF_same_field key (cfs base_options) (cfs base_options)"
      by (rule CF_same_field_refl)
  next
    fix name "value" opts
    assume "(name, value) \<in> set entries" and p: "CF_same_field key opts (cfs base_options)"
    with a have "key \<noteq> name" by force
    then show "attempt_all (\<lambda>c'. CF_same_field key c' (cfs base_options))
        (GetColumnFamilyOptions_entry iter stod dflt name value opts)"
      using p by (rule GetColumnFamilyOptions_entry_frame)
  qed
next
  assume "new_options \<noteq> base_options
      \<and> call_FromMap (GetColumnFamilyOptionsFromMap iter stod dflt) cfs base_options entries
            new_options = Inr (s, cfs')"
  then show "cfs' base_options = cfs base_options"
    using call_FromMap_result [of "GetColumnFamilyOptionsFromMap iter stod dflt"] by blast
next
  assume a: "key \<in> set Table_keys \<and> key \<notin> set (map fst entries)
      \<and> call_FromMap GetBlockBasedTableOptionsFromMap tbs base_options entries new_options
            = Inr (s, tbs')"
  then have r: "for_each_entry GetBlockBasedTableOptions_entry entries (tbs base_options)
      = Inr (s, tbs' new_options)"
    using call_FromMap_result [of GetBlockBasedTableOptionsFromMap]
    by (simp add: GetBlockBasedTableOptionsFromMap_def)
  show "Table_same_field key (tbs' new_options) (tbs base_options)"
  proof (rule for_each_entry_invariant [OF _ _ r])
    show "Table_same_field key (tbs base_options) (tbs base_options)"
      by (rule Table_same_field_refl)
  next
    fix name "value" opts
    assume "(name, value) \<in> set entries" and p: "Table_same_field key opts (tbs base_options)"
    with a have "key \<noteq> name" by force
    then show "attempt_all (\<lambda>t'. Table_same_field key t' (tbs base_options))
        (GetBlockBasedTableOptions_entry name value opts)"
      using p by (rule GetBlockBasedTableOptions_entry_frame)
  qed
next
  assume "new_options \<noteq> base_options
      \<and> call_FromMap GetBlockBasedTableOptionsFromMap tbs base_options entries new_options
            = Inr (s, tbs')"
  then show "tbs' base_options = tbs base_options"
    using call_FromMap_result [of GetBlockBasedTableOptionsFromMap] by blast
next
  show "\<exists>s1 dbs1. call_FromMap GetDBOptionsFromMap dbs base_options entries new_options
      = Inr (s1, dbs1)"
    by (rule call_GetDBOptionsFromMap_returns)
qed

theorem absent_key_keeps_base_field_witness:
  "call_FromMap GetDBOptionsFromMap (\<lambda>a. example_db_options) 0
      [(''create_if_missing'', ''true''), (''max_open_files'', ''bogus'')] 1
     = Inr (InvalidArgument ''error parsing max_open_files:stoi'',
         (\<lambda>a. example_db_options)(1 := example_db_options\<lparr>create_if_missing := True\<rparr>))
   \<and> use_fsync (example_db_options\<lparr>create_if_missing := True\<rparr>) = use_fsync example_db_options
   \<and> call_FromMap (GetColumnFamilyOptionsFromMap id no_stod example_table_options)
        (\<lambda>a. example_cf_options) 0 [(''num_levels'', ''5'')] 1
     = Inr (OK, (\<lambda>a. example_cf_options)(1 := example_cf_options\<lparr>num_levels := 5\<rparr>))
   \<and> compression (example_cf_options\<lparr>num_levels := 5\<rparr>) = compression example_cf_options
   \<and> call_FromMap GetBlockBasedTableOptionsFromMap (\<lambda>a. example_table_options) 0
        [(''block_size'', ''8192'')] 1
     = Inr (OK, (\<lambda>a. example_table_options)(1 := example_table_options\<lparr>block_size := 8192\<rparr>))
   \<and> checksum (example_table_options\<lparr>block_size := 8192\<rparr>) = checksum example_table_options
   \<and> ((\<lambda>a. example_db_options)(1 := example_db_options\<lparr>create_if_missing := True\<rparr>)) (0::nat)
       = example_db_options"
proof -
  have d: "call_FromMap GetDBOptionsFromMap (\<lambda>a. example_db_options) 0
      [(''create_if_missing'', ''true''), (''max_open_files'', ''bogus'')] 1
     = Inr (InvalidArgument ''error parsing max_open_files:stoi'',
         (\<lambda>a. example_db_options)(1 := example_db_options\<lparr>create_if_missing := True\<rparr>))"
    by (simp add: call_FromMap_def GetDBOptionsFromMap_def GetDBOptions_entry_def store_def
        ParseBoolean_def parse_defs)
  have c: "call_FromMap (GetColumnFamilyOptionsFromMap id no_stod example_table_options)
        (\<lambda>a. example_cf_options) 0 [(''num_levels'', ''5'')] 1
     = Inr (OK, (\<lambda>a. example_cf_options)(1 := example_cf_options\<lparr>num_levels := 5\<rparr>))"
    by (simp add: call_FromMap_def GetColumnFamilyOptionsFromMap_def CF_entry_defs store_def
        parse_defs)
  have t: "call_FromMap GetBlockBasedTableOptionsFromMap (\<lambda>a. example_table_options) 0
        [(''block_size'', ''8192'')] 1
     = Inr (OK, (\<lambda>a. example_table_options)(1 := example_table_options\<lparr>block_size := 8192\<rparr>))"
    by (simp add: call_FromMap_def GetBlockBasedTableOptionsFromMap_def
        GetBlockBasedTableOptions_entry_def store_def parse_defs)
  note w1 = absent_key_keeps_base_field [of "''use_fsync''"
      "[(''create_if_missing'', ''true''), (''max_open_files'', ''bogus'')]"
      "\<lambda>a. example_db_options" 0 1 "InvalidArgument ''error parsing max_open_files:stoi''"
      "(\<lambda>a. example_db_options)(1 := example_db_options\<lparr>create_if_missing := True\<rparr>)"
      id no_stod example_table_options "\<lambda>a. example_cf_options" "\<lambda>a. example_cf_options"
      "\<lambda>a. example_table_options" "\<lambda>a. example_table_options"]
  note w2 = absent_key_keeps_base_field [of "''compression''" "[(''num_levels'', ''5'')]"
      "\<lambda>a. example_db_options" 0 1 OK "\<lambda>a. example_db_options"
      id no_stod example_table_options "\<lambda>a. example_cf_options"
      "(\<lambda>a. example_cf_options)(1 := example_cf_options\<lparr>num_levels := 5\<rparr>)"
      "\<lambda>a. example_table_options" "\<lambda>a. example_table_options"]
  note w3 = absent_key_keeps_base_field [of "''checksum''" "[(''block_size'', ''8192'')]"
      "\<lambda>a. example_db_options" 0 1 OK "\<lambda>a. example_db_options"
      id no_stod example_table_options "\<lambda>a. example_cf_options" "\<lambda>a. example_cf_options"
      "\<lambda>a. example_table_options"
      "(\<lambda>a. example_table_options)(1 := example_table_options\<lparr>block_size := 8192\<rparr>)"]
  from d w1 have 1: "use_fsync (example_db_options\<lparr>create_if_missing := True\<rparr>)
      = use_fsync example_db_options"
    and 4: "((\<lambda>a. example_db_options)(1 := example_db_options\<lparr>create_if_missing := True\<rparr>))
      (0::nat) = example_db_options"
    by (simp_all add: DB_keys_def DB_same_field_def)
  from c w2 have 2: "compression (example_cf_options\<lparr>num_levels := 5\<rparr>)
      = compression example_cf_options"
    by (simp add: CF_keys_def CF_same_field_def)
  from t w3 have 3: "checksum (example_table_options\<lparr>block_size := 8192\<rparr>)
      = checksum example_table_options"
    by (simp add: Table_keys_def Table_same_field_def)
  from d c t 1 2 3 4 show ?thesis by (intro conjI)
qed

theorem aliased_base_is_written_counterexample:
  "call_FromMap GetDBOptionsFromMap (\<lambda>a. example_db_options) 0
      [(''create_if_missing'', ''true'')] 0
     = Inr (OK, (\<lambda>a. example_db_options)(0 := example_db_options\<lparr>create_if_missing := True\<rparr>))
   \<and> create_if_missing
       (((\<lambda>a. example_db_options)(0 := example_db_options\<lparr>create_if_missing := True\<rparr>)) (0::nat))
     \<noteq> create_if_missing ((\<lambda>a. example_db_options) (0::nat))"
  by (simp add: call_FromMap_def GetDBOptionsFromMap_def GetDBOptions_entry_def store_def
      ParseBoolean_def example_db_options_def)

section \<open>Tagged values\<close>

text \<open>
  The branches of the two tagged keys, with the tag as a parameter: what the dispatchers do
  for \<open>filter_policy\<close> with \<open>kName = "bloomfilter:"\<close> and for \<open>prefix_extractor\<close> with
  \<open>kName = "fixed:"\<close>.
\<close>

definition filter_policy_branch ::
  "string \<Rightarrow> string \<Rightarrow> BlockBasedTableOptions \<Rightarrow> BlockBasedTableOptions attempt" where
  "filter_policy_branch kName value t =
     (if substr value 0 (length kName) \<noteq> kName then
        Returned (InvalidArgument ''Invalid filter policy name'') t
      else
        (case str_find value CHR '':'' (length kName) of
           None \<Rightarrow>
             Returned (InvalidArgument
               ''Invalid filter policy config, missing bits_per_key'') t
         | Some pos \<Rightarrow>
             (case trim (substr value (length kName) (pos - length kName)) of
                Inl f \<Rightarrow> Faulted f
              | Inr bits \<Rightarrow>
                  (case ParseInt bits of
                     Inl e \<Rightarrow> Thrown e t
                   | Inr bits_per_key \<Rightarrow>
                       (case trim (substr_from value (pos + 1)) of
                          Inl f \<Rightarrow> Faulted f
                        | Inr b \<Rightarrow>
                            store (ParseBoolean ''use_block_based_builder'' b)
                              (\<lambda>use_block_based_builder. t\<lparr>filter_policy :=
                                 Some (BloomFilterPolicy bits_per_key
                                   use_block_based_builder)\<rparr>) t)))))"

definition prefix_extractor_branch ::
  "string \<Rightarrow> string \<Rightarrow> 'd ColumnFamilyOptions \<Rightarrow> 'd ColumnFamilyOptions attempt" where
  "prefix_extractor_branch kName value c =
     (if substr value 0 (length kName) \<noteq> kName then
        Returned (InvalidArgument (''Invalid Prefix Extractor type: '' @ value)) c
      else
        (case trim (substr_from value (length kName)) of
           Inl f \<Rightarrow> Faulted f
         | Inr len \<Rightarrow>
             store (ParseInt len)
               (\<lambda>prefix_length. c\<lparr>prefix_extractor :=
                  Some (FixedPrefixTransform prefix_length)\<rparr>) c))"

lemma entry_filter_policy:
  "GetBlockBasedTableOptions_entry ''filter_policy'' value t =
     filter_policy_branch ''bloomfilter:'' value t"
  by (simp add: GetBlockBasedTableOptions_entry_def filter_policy_branch_def Let_def)

lemma entry_prefix_extractor:
  "GetColumnFamilyOptions_entry iter stod dflt ''prefix_extractor'' value c =
     prefix_extractor_branch ''fixed:'' value c"
  by (simp add: CF_entry_defs prefix_extractor_branch_def Let_def)

lemma str_find_append:
  assumes "c \<notin> set a"
  shows "str_find (pre @ a @ c # rest) c (length pre) = Some (length pre + length a)"
proof -
  have "takeWhile (\<lambda>x. x \<noteq> c) (a @ c # rest) = a"
    using assms by (induction a) auto
  then show ?thesis by (simp add: str_find_def)
qed

lemma str_find_none: "c \<notin> set rest \<Longrightarrow> str_find (pre @ rest) c (length pre) = None"
  by (simp add: str_find_def)

lemma in_set_dropWhile: "x \<in> set xs \<Longrightarrow> \<not> P x \<Longrightarrow> x \<in> set (dropWhile P xs)"
  by (induction xs) auto

lemma in_set_trimmed: "c \<in> set s \<Longrightarrow> \<not> isspace c \<Longrightarrow> c \<in> set (trimmed s)"
proof -
  assume c: "c \<in> set s" and n: "\<not> isspace c"
  then have "c \<in> set (rev (dropWhile isspace s))" using in_set_dropWhile by fastforce
  then have "c \<in> set (dropWhile isspace (rev (dropWhile isspace s)))"
    using n by (rule in_set_dropWhile)
  then show ?thesis by (simp add: trimmed_def)
qed

lemma ParseBoolean_colon:
  assumes "CHR '':'' \<in> set b"
  shows "ParseBoolean type b = Inl (invalid_argument type)"
proof -
  from assms have "b \<noteq> ''true''" "b \<noteq> ''1''" "b \<noteq> ''false''" "b \<noteq> ''0''" by auto
  then show ?thesis by (simp add: ParseBoolean_def)
qed

lemma filter_policy_branch_mismatch:
  "substr value 0 (length kName) \<noteq> kName \<Longrightarrow>
   filter_policy_branch kName value t =
     Returned (InvalidArgument ''Invalid filter policy name'') t"
  by (simp add: filter_policy_branch_def)

lemma filter_policy_branch_missing:
  "CHR '':'' \<notin> set rest \<Longrightarrow>
   filter_policy_branch kName (kName @ rest) t =
     Returned (InvalidArgument ''Invalid filter policy config, missing bits_per_key'') t"
  by (simp add: filter_policy_branch_def substr_def str_find_none)

lemma filter_policy_branch_extra:
  assumes "bits \<noteq> []" and "CHR '':'' \<notin> set bits" and "CHR '':'' \<in> set rest"
  shows "\<exists>e. filter_policy_branch kName (kName @ bits @ CHR '':'' # rest) t = Thrown e t"
proof -
  let ?v = "kName @ bits @ CHR '':'' # rest"
  have f: "str_find ?v CHR '':'' (length kName) = Some (length kName + length bits)"
    using assms(2) by (rule str_find_append)
  have s0: "substr ?v 0 (length kName) = kName" by (simp add: substr_def)
  have s1: "substr ?v (length kName) (length bits) = bits"
    by (simp add: substr_def)
  have s2: "substr_from ?v (Suc (length kName + length bits)) = rest"
    by (simp add: substr_from_def)
  have t1: "trim bits = Inr (trimmed bits)" using assms(1) by (rule trim_nonempty)
  from assms(3) have "rest \<noteq> []" by auto
  then have t2: "trim rest = Inr (trimmed rest)" by (rule trim_nonempty)
  have "CHR '':'' \<in> set (trimmed rest)"
    using assms(3) by (rule in_set_trimmed) (simp add: isspace_def)
  then have b: "ParseBoolean ''use_block_based_builder'' (trimmed rest)
      = Inl (invalid_argument ''use_block_based_builder'')"
    by (rule ParseBoolean_colon)
  show ?thesis
    by (cases "ParseInt (trimmed bits)")
       (simp_all add: filter_policy_branch_def f s0 s1 s2 t1 t2 b store_def)
qed

lemma prefix_extractor_branch_mismatch:
  "substr value 0 (length kName) \<noteq> kName \<Longrightarrow>
   prefix_extractor_branch kName value c =
     Returned (InvalidArgument (''Invalid Prefix Extractor type: '' @ value)) c"
  by (simp add: prefix_extractor_branch_def)

lemma FromMap_step_thrown:
  assumes "\<And>name value opts opts'. body name value opts \<noteq> Returned OK opts'"
    and "for_each_entry body pre opts = Inr (OK, o1)"
    and "body k v o1 = Thrown e o1"
  shows "for_each_entry body (pre @ (k, v) # post) opts =
    Inr (InvalidArgument (''error parsing '' @ k @ '':'' @ what e), o1)"
  using for_each_entry_append [of body pre opts o1 "(k, v) # post", OF assms(1,2)] assms(3)
  by simp

text \<open>
  C5, as the code has it.  A \<open>filter_policy\<close> value that does not begin with
  \<open>bloomfilter:\<close> and a \<open>prefix_extractor\<close> value that does not begin with \<open>fixed:\<close> are
  answered with \<open>InvalidArgument\<close> ("Invalid filter policy name", "Invalid Prefix Extractor
  type: " and the value).  For \<open>filter_policy\<close>, a value with no \<open>:\<close> after the tag (a
  field is missing) is answered with "Invalid filter policy config, missing bits_per_key",
  and a value whose text after the bits field holds a further \<open>:\<close> (a field too many) with
  "error parsing filter_policy:" and the coercer's message.  \<open>bloomfilter:10:true\<close> gives a
  Bloom filter policy of 10 bits per key with the block-based builder, \<open>bloomfilter:10\<close>
  the missing-field error.  For \<open>prefix_extractor\<close> nothing of the kind holds of further
  fields: the evaluation of \<open>fixed:8:9\<close> below shows it accepted.
\<close>

theorem tagged_payload_errors:
  "(GetBlockBasedTableOptionsFromMap t pre = Inr (OK, t1)
        \<and> take (length ''bloomfilter:'') v \<noteq> ''bloomfilter:'' \<longrightarrow>
      GetBlockBasedTableOptionsFromMap t (pre @ (''filter_policy'', v) # post) =
        Inr (InvalidArgument ''Invalid filter policy name'', t1))
   \<and> (GetColumnFamilyOptionsFromMap iter stod dflt c pre = Inr (OK, c1)
        \<and> take (length ''fixed:'') v \<noteq> ''fixed:'' \<longrightarrow>
      GetColumnFamilyOptionsFromMap iter stod dflt c (pre @ (''prefix_extractor'', v) # post) =
        Inr (InvalidArgument (''Invalid Prefix Extractor type: '' @ v), c1))
   \<and> (GetBlockBasedTableOptionsFromMap t pre = Inr (OK, t1) \<and> CHR '':'' \<notin> set rest \<longrightarrow>
      GetBlockBasedTableOptionsFromMap t
          (pre @ (''filter_policy'', ''bloomfilter:'' @ rest) # post) =
        Inr (InvalidArgument ''Invalid filter policy config, missing bits_per_key'', t1))
   \<and> (GetBlockBasedTableOptionsFromMap t pre = Inr (OK, t1) \<and> bits \<noteq> []
        \<and> CHR '':'' \<notin> set bits \<and> CHR '':'' \<in> set extra \<longrightarrow>
      (\<exists>msg. GetBlockBasedTableOptionsFromMap t
          (pre @ (''filter_policy'', ''bloomfilter:'' @ bits @ '':'' @ extra) # post) =
        Inr (InvalidArgument (''error parsing filter_policy:'' @ msg), t1)))
   \<and> GetBlockBasedTableOptionsFromMap t [(''filter_policy'', ''bloomfilter:10:true'')] =
        Inr (OK, t\<lparr>filter_policy := Some (BloomFilterPolicy 10 True)\<rparr>)
   \<and> GetBlockBasedTableOptionsFromMap t [(''filter_policy'', ''bloomfilter:10'')] =
        Inr (InvalidArgument ''Invalid filter policy config, missing bits_per_key'', t)"
proof (intro conjI impI)
  assume a: "GetBlockBasedTableOptionsFromMap t pre = Inr (OK, t1)
      \<and> take (length ''bloomfilter:'') v \<noteq> ''bloomfilter:''"
  moreover have "substr v 0 (length ''bloomfilter:'') = take (length ''bloomfilter:'') v"
    by (simp only: substr_def drop_0)
  ultimately have "substr v 0 (length ''bloomfilter:'') \<noteq> ''bloomfilter:''" by simp
  then have "GetBlockBasedTableOptions_entry ''filter_policy'' v t1 =
      Returned (InvalidArgument ''Invalid filter policy name'') t1"
    unfolding entry_filter_policy by (rule filter_policy_branch_mismatch)
  with a show "GetBlockBasedTableOptionsFromMap t (pre @ (''filter_policy'', v) # post) =
      Inr (InvalidArgument ''Invalid filter policy name'', t1)"
    unfolding GetBlockBasedTableOptionsFromMap_def
    by (intro FromMap_step) (simp_all add: GetBlockBasedTableOptions_entry_not_OK)
next
  assume a: "GetColumnFamilyOptionsFromMap iter stod dflt c pre = Inr (OK, c1)
      \<and> take (length ''fixed:'') v \<noteq> ''fixed:''"
  moreover have "substr v 0 (length ''fixed:'') = take (length ''fixed:'') v"
    by (simp only: substr_def drop_0)
  ultimately have "substr v 0 (length ''fixed:'') \<noteq> ''fixed:''" by simp
  then have "GetColumnFamilyOptions_entry iter stod dflt ''prefix_extractor'' v c1 =
      Returned (InvalidArgument (''Invalid Prefix Extractor type: '' @ v)) c1"
    unfolding entry_prefix_extractor by (rule prefix_extractor_branch_mismatch)
  with a show "GetColumnFamilyOptionsFromMap iter stod dflt c
        (pre @ (''prefix_extractor'', v) # post) =
      Inr (InvalidArgument (''Invalid Prefix Extractor type: '' @ v), c1)"
    unfolding GetColumnFamilyOptionsFromMap_def
    by (intro FromMap_step) (simp_all add: GetColumnFamilyOptions_entry_not_OK)
next
  assume a: "GetBlockBasedTableOptionsFromMap t pre = Inr (OK, t1) \<and> CHR '':'' \<notin> set rest"
  then have "CHR '':'' \<notin> set rest" by simp
  then have "GetBlockBasedTableOptions_entry ''filter_policy'' (''bloomfilter:'' @ rest) t1 =
      Returned (InvalidArgument ''Invalid filter policy config, missing bits_per_key'') t1"
    unfolding entry_filter_policy by (rule filter_policy_branch_missing)
  with a show "GetBlockBasedTableOptionsFromMap t
        (pre @ (''filter_policy'', ''bloomfilter:'' @ rest) # post) =
      Inr (InvalidArgument ''Invalid filter policy config, missing bits_per_key'', t1)"
    unfolding GetBlockBasedTableOptionsFromMap_def
    by (intro FromMap_step) (simp_all only: GetBlockBasedTableOptions_entry_not_OK not_False_eq_True)
next
  assume a: "GetBlockBasedTableOptionsFromMap t pre = Inr (OK, t1) \<and> bits \<noteq> []
      \<and> CHR '':'' \<notin> set bits \<and> CHR '':'' \<in> set extra"
  then obtain e where
    "filter_policy_branch ''bloomfilter:'' (''bloomfilter:'' @ bits @ CHR '':'' # extra) t1
      = Thrown e t1"
    using filter_policy_branch_extra [of bits extra "''bloomfilter:''" t1] by blast
  then have "GetBlockBasedTableOptions_entry ''filter_policy''
      (''bloomfilter:'' @ bits @ CHR '':'' # extra) t1 = Thrown e t1"
    by (simp only: entry_filter_policy)
  with a have "for_each_entry GetBlockBasedTableOptions_entry
      (pre @ (''filter_policy'', ''bloomfilter:'' @ bits @ CHR '':'' # extra) # post) t =
      Inr (InvalidArgument (''error parsing '' @ ''filter_policy'' @ '':'' @ what e), t1)"
    unfolding GetBlockBasedTableOptionsFromMap_def
    by (intro FromMap_step_thrown)
       (simp_all only: GetBlockBasedTableOptions_entry_not_OK not_False_eq_True)
  then have "GetBlockBasedTableOptionsFromMap t
      (pre @ (''filter_policy'', ''bloomfilter:'' @ bits @ '':'' @ extra) # post) =
      Inr (InvalidArgument (''error parsing filter_policy:'' @ what e), t1)"
    by (simp add: GetBlockBasedTableOptionsFromMap_def)
  then show "\<exists>msg. GetBlockBasedTableOptionsFromMap t
      (pre @ (''filter_policy'', ''bloomfilter:'' @ bits @ '':'' @ extra) # post) =
      Inr (InvalidArgument (''error parsing filter_policy:'' @ msg), t1)" ..
next
  show "GetBlockBasedTableOptionsFromMap t [(''filter_policy'', ''bloomfilter:10:true'')] =
      Inr (OK, t\<lparr>filter_policy := Some (BloomFilterPolicy 10 True)\<rparr>)"
    by (simp add: GetBlockBasedTableOptionsFromMap_def GetBlockBasedTableOptions_entry_def
        store_def parse_defs tok_simps ParseBoolean_def)
next
  show "GetBlockBasedTableOptionsFromMap t [(''filter_policy'', ''bloomfilter:10'')] =
      Inr (InvalidArgument ''Invalid filter policy config, missing bits_per_key'', t)"
    by (simp add: GetBlockBasedTableOptionsFromMap_def GetBlockBasedTableOptions_entry_def
        store_def parse_defs tok_simps ParseBoolean_def)
qed

theorem tagged_payload_errors_witness:
  "GetBlockBasedTableOptionsFromMap example_table_options
      [(''block_size'', ''8192''), (''filter_policy'', ''bloom:10:true'')] =
     Inr (InvalidArgument ''Invalid filter policy name'',
          example_table_options\<lparr>block_size := 8192\<rparr>)
   \<and> GetColumnFamilyOptionsFromMap id no_stod example_table_options example_cf_options
      [(''num_levels'', ''5''), (''prefix_extractor'', ''capped:8'')] =
     Inr (InvalidArgument ''Invalid Prefix Extractor type: capped:8'',
          example_cf_options\<lparr>num_levels := 5\<rparr>)
   \<and> GetBlockBasedTableOptionsFromMap example_table_options
      [(''block_size'', ''8192''), (''filter_policy'', ''bloomfilter:10'')] =
     Inr (InvalidArgument ''Invalid filter policy config, missing bits_per_key'',
          example_table_options\<lparr>block_size := 8192\<rparr>)
   \<and> GetBlockBasedTableOptionsFromMap example_table_options
      [(''block_size'', ''8192''), (''filter_policy'', ''bloomfilter:10:true:1'')] =
     Inr (InvalidArgument ''error parsing filter_policy:use_block_based_builder'',
          example_table_options\<lparr>block_size := 8192\<rparr>)"
proof -
  have t: "GetBlockBasedTableOptionsFromMap example_table_options [(''block_size'', ''8192'')]
      = Inr (OK, example_table_options\<lparr>block_size := 8192\<rparr>)"
    by (simp add: GetBlockBasedTableOptionsFromMap_def GetBlockBasedTableOptions_entry_def
        store_def parse_defs)
  have c: "GetColumnFamilyOptionsFromMap id no_stod example_table_options example_cf_options
      [(''num_levels'', ''5'')] = Inr (OK, example_cf_options\<lparr>num_levels := 5\<rparr>)"
    by (simp add: GetColumnFamilyOptionsFromMap_def CF_entry_defs store_def parse_defs)
  have x: "GetBlockBasedTableOptionsFromMap example_table_options
      [(''block_size'', ''8192''), (''filter_policy'', ''bloomfilter:10:true:1'')] =
     Inr (InvalidArgument ''error parsing filter_policy:use_block_based_builder'',
          example_table_options\<lparr>block_size := 8192\<rparr>)"
    by (simp add: GetBlockBasedTableOptionsFromMap_def GetBlockBasedTableOptions_entry_def
        store_def parse_defs tok_simps ParseBoolean_def)
  note w1 = tagged_payload_errors [of example_table_options "[(''block_size'', ''8192'')]"
      "example_table_options\<lparr>block_size := 8192\<rparr>" "''bloom:10:true''" "[]"
      id no_stod example_table_options example_cf_options example_cf_options "''10''"
      "''10''" "''true:1''"]
  note w2 = tagged_payload_errors [of example_table_options "[(''num_levels'', ''5'')]"
      "example_table_options" "''capped:8''" "[]"
      id no_stod example_table_options example_cf_options
      "example_cf_options\<lparr>num_levels := 5\<rparr>" "''10''" "''10''" "''true:1''"]
  from t w1 have 1: "GetBlockBasedTableOptionsFromMap example_table_options
      [(''block_size'', ''8192''), (''filter_policy'', ''bloom:10:true'')] =
     Inr (InvalidArgument ''Invalid filter policy name'',
          example_table_options\<lparr>block_size := 8192\<rparr>)"
    and 3: "GetBlockBasedTableOptionsFromMap example_table_options
      [(''block_size'', ''8192''), (''filter_policy'', ''bloomfilter:10'')] =
     Inr (InvalidArgument ''Invalid filter policy config, missing bits_per_key'',
          example_table_options\<lparr>block_size := 8192\<rparr>)"
    by simp_all
  from t w1 have "\<exists>msg. GetBlockBasedTableOptionsFromMap example_table_options
      [(''block_size'', ''8192''), (''filter_policy'', ''bloomfilter:10:true:1'')] =
     Inr (InvalidArgument (''error parsing filter_policy:'' @ msg),
          example_table_options\<lparr>block_size := 8192\<rparr>)"
    by simp
  from c w2 have 2: "GetColumnFamilyOptionsFromMap id no_stod example_table_options
      example_cf_options [(''num_levels'', ''5''), (''prefix_extractor'', ''capped:8'')] =
     Inr (InvalidArgument ''Invalid Prefix Extractor type: capped:8'',
          example_cf_options\<lparr>num_levels := 5\<rparr>)"
    by simp
  from 1 2 3 x show ?thesis by (intro conjI)
qed

theorem prefix_extractor_extra_field_counterexample:
  "GetColumnFamilyOptionsFromMap id no_stod example_table_options example_cf_options
      [(''prefix_extractor'', ''fixed:8:9'')] =
     Inr (OK, example_cf_options\<lparr>prefix_extractor := Some (FixedPrefixTransform 8)\<rparr>)"
  by (simp add: GetColumnFamilyOptionsFromMap_def CF_entry_defs store_def parse_defs tok_simps)

section \<open>The nested table configuration\<close>

text \<open>
  What is asked of the order of a range-for over a map: it visits the entries of the map,
  each once.  (The keys of a map are distinct, so for the entries of a map this says that
  the visit is a rearrangement of them.)
\<close>

definition visits_each_entry_once :: "(opts_map \<Rightarrow> (string \<times> string) list) \<Rightarrow> bool" where
  "visits_each_entry_once iter = (\<forall>m. set (iter m) = set m \<and> length (iter m) = length m)"

lemma visit_one:
  assumes "visits_each_entry_once iter"
  shows "iter [e] = [e]"
proof -
  from assms have "set (iter [e]) = {e}" "length (iter [e]) = 1"
    by (simp_all add: visits_each_entry_once_def)
  then show ?thesis by (cases "iter [e]") auto
qed

lemma visit_two:
  assumes "visits_each_entry_once iter" and "a \<noteq> b"
  shows "iter [a, b] = [a, b] \<or> iter [a, b] = [b, a]"
proof -
  from assms(1) have s: "set (iter [a, b]) = {a, b}" and l: "length (iter [a, b]) = 2"
    by (simp_all add: visits_each_entry_once_def)
  from l obtain x y where xy: "iter [a, b] = [x, y]"
    by (cases "iter [a, b]"; cases "tl (iter [a, b])") auto
  with s have "{x, y} = {a, b}" by simp
  then have "(x = a \<and> y = b) \<or> (x = b \<and> y = a)" by (simp add: doubleton_eq_iff)
  with xy show ?thesis by auto
qed

text \<open>
  C3.  Whatever the order in which the maps are visited, whatever \<open>std::stod\<close> does and
  whatever the default table configuration \<open>dflt\<close> is:
  \<open>GetColumnFamilyOptionsFromString\<close> on
  \<open>block_based_table_factory={block_size=8192;block_restart_interval=4}\<close> returns \<open>OK\<close> and
  leaves the base configuration with a block-based table factory built from \<open>dflt\<close> with
  \<open>block_size = 8192\<close> and \<open>block_restart_interval = 4\<close>; all else is as in the base.
\<close>

theorem nested_table_factory:
  assumes "visits_each_entry_once iter"
  shows "GetColumnFamilyOptionsFromString iter stod dflt base_options
      ''block_based_table_factory={block_size=8192;block_restart_interval=4}'' new_options =
    Inr (OK, base_options\<lparr>table_factory := Some (BlockBasedTableFactory
      (dflt\<lparr>block_size := 8192, block_restart_interval := 4\<rparr>))\<rparr>)"
proof -
  have outer: "StringToMap
      ''block_based_table_factory={block_size=8192;block_restart_interval=4}'' [] =
      Inr (OK, [(''block_based_table_factory'', ''block_size=8192;block_restart_interval=4'')])"
    by (simp add: tok_simps)
  have inner: "StringToMap ''block_size=8192;block_restart_interval=4'' [] =
      Inr (OK, [(''block_size'', ''8192''), (''block_restart_interval'', ''4'')])"
    by (simp add: tok_simps)
  have ab: "GetBlockBasedTableOptionsFromMap dflt
      [(''block_size'', ''8192''), (''block_restart_interval'', ''4'')] =
      Inr (OK, dflt\<lparr>block_size := 8192, block_restart_interval := 4\<rparr>)"
    by (simp add: GetBlockBasedTableOptionsFromMap_def GetBlockBasedTableOptions_entry_def
        store_def parse_defs)
  have ba: "GetBlockBasedTableOptionsFromMap dflt
      [(''block_restart_interval'', ''4''), (''block_size'', ''8192'')] =
      Inr (OK, dflt\<lparr>block_size := 8192, block_restart_interval := 4\<rparr>)"
    by (simp add: GetBlockBasedTableOptionsFromMap_def GetBlockBasedTableOptions_entry_def
        store_def parse_defs)
  have "iter [(''block_size'', ''8192''), (''block_restart_interval'', ''4'')] =
        [(''block_size'', ''8192''), (''block_restart_interval'', ''4'')]
      \<or> iter [(''block_size'', ''8192''), (''block_restart_interval'', ''4'')] =
        [(''block_restart_interval'', ''4''), (''block_size'', ''8192'')]"
    using assms by (rule visit_two) simp
  with ab ba have table: "GetBlockBasedTableOptionsFromString iter dflt
      ''block_size=8192;block_restart_interval=4'' dflt =
      Inr (OK, dflt\<lparr>block_size := 8192, block_restart_interval := 4\<rparr>)"
    unfolding GetBlockBasedTableOptionsFromString_def inner by auto
  have entry: "GetColumnFamilyOptions_entry iter stod dflt ''block_based_table_factory''
      ''block_size=8192;block_restart_interval=4'' base_options =
      Done (base_options\<lparr>table_factory := Some (BlockBasedTableFactory
        (dflt\<lparr>block_size := 8192, block_restart_interval := 4\<rparr>))\<rparr>)"
    by (simp add: CF_entry_defs table)
  have "iter [(''block_based_table_factory'', ''block_size=8192;block_restart_interval=4'')] =
      [(''block_based_table_factory'', ''block_size=8192;block_restart_interval=4'')]"
    using assms by (rule visit_one)
  then show ?thesis
    unfolding GetColumnFamilyOptionsFromString_def outer
    by (simp add: GetColumnFamilyOptionsFromMap_def entry)
qed

theorem nested_table_factory_witness:
  "GetColumnFamilyOptionsFromString rev no_stod example_table_options example_cf_options
      ''block_based_table_factory={block_size=8192;block_restart_interval=4}''
      example_cf_options =
    Inr (OK, example_cf_options\<lparr>table_factory := Some (BlockBasedTableFactory
      (example_table_options\<lparr>block_size := 8192, block_restart_interval := 4\<rparr>))\<rparr>)"
proof -
  have "visits_each_entry_once rev" by (simp add: visits_each_entry_once_def)
  then show ?thesis by (rule nested_table_factory)
qed

section \<open>Tokenizing a rendered list of entries\<close>

text \<open>
  The grammar of the specification, for entries with plain values: \<open>render\<close> writes a list
  of entries as \<open>key=value;key=value;...\<close>.  A key is plain when it is not empty, holds no
  \<open>=\<close> and neither begins nor ends with whitespace; a value is plain when it is not
  empty, holds no \<open>;\<close>, does not begin with \<open>{\<close> and neither begins nor ends with
  whitespace.
\<close>

fun render :: "(string \<times> string) list \<Rightarrow> string" where
  "render [] = []"
| "render [(k, v)] = k @ ''='' @ v"
| "render ((k, v) # e # es) = k @ ''='' @ v @ '';'' @ render (e # es)"

definition plain_key :: "string \<Rightarrow> bool" where
  "plain_key k = (k \<noteq> [] \<and> CHR ''='' \<notin> set k \<and> \<not> isspace (hd k) \<and> \<not> isspace (last k))"

definition plain_value :: "string \<Rightarrow> bool" where
  "plain_value v =
     (v \<noteq> [] \<and> CHR '';'' \<notin> set v \<and> hd v \<noteq> CHR ''{'' \<and> \<not> isspace (hd v) \<and> \<not> isspace (last v))"

definition plain_entry :: "string \<times> string \<Rightarrow> bool" where
  "plain_entry e = (plain_key (fst e) \<and> plain_value (snd e))"

lemma trimmed_id:
  assumes "s \<noteq> []" and "\<not> isspace (hd s)" and "\<not> isspace (last s)"
  shows "trimmed s = s"
proof -
  have "dropWhile isspace s = s" using assms(1,2) by (cases s) auto
  moreover have "dropWhile isspace (rev s) = rev s"
    using assms(1,3) by (cases "rev s") (auto simp: hd_rev [symmetric] simp del: hd_rev)
  ultimately show ?thesis by (simp add: trimmed_def)
qed

lemma trim_id:
  assumes "s \<noteq> []" and "\<not> isspace (hd s)" and "\<not> isspace (last s)"
  shows "trim s = Inr s"
  using assms by (simp add: trim_nonempty trimmed_id)

lemma skip_space_stay:
  "pos < length opts \<Longrightarrow> \<not> isspace (opts ! pos) \<Longrightarrow> skip_space opts pos = pos"
  by (subst skip_space.simps) simp

lemma StringToMap_body_plain:
  assumes "plain_key k" and "plain_value v" and "tl_opts = [] \<or> hd tl_opts = CHR '';''"
  shows "StringToMap_body (pre @ k @ CHR ''='' # v @ tl_opts) (length pre) =
    Inr (Some (k, v),
      if tl_opts = [] then Break else Next (length pre + length k + 1 + length v + 1))"
proof -
  define opts where "opts = pre @ k @ CHR ''='' # v @ tl_opts"
  define p0 where "p0 = length pre"
  define e where "e = length pre + length k"
  define p1 where "p1 = length pre + length k + 1"
  define s where "s = length pre + length k + 1 + length v"
  let ?pre1 = "pre @ k @ [CHR ''='']"
  from assms(1) have k: "k \<noteq> []" "CHR ''='' \<notin> set k" "\<not> isspace (hd k)" "\<not> isspace (last k)"
    by (simp_all add: plain_key_def)
  from assms(2) have v: "v \<noteq> []" "CHR '';'' \<notin> set v" "hd v \<noteq> CHR ''{''"
      "\<not> isspace (hd v)" "\<not> isspace (last v)"
    by (simp_all add: plain_value_def)
  have eq: "str_find opts CHR ''='' p0 = Some e"
    unfolding opts_def p0_def e_def using k(2) by (rule str_find_append)
  have key: "trim (substr opts p0 (e - p0)) = Inr k"
    unfolding opts_def p0_def e_def using k by (simp add: substr_def trim_id)
  have at1: "opts ! p1 = hd v"
  proof -
    from v(1) obtain c cs where "v = c # cs" by (cases v) auto
    then show ?thesis unfolding opts_def p1_def by (simp add: nth_append)
  qed
  have lt1: "p1 < length opts" unfolding opts_def p1_def using v(1) by simp
  have sk: "skip_space opts (Suc e) = p1"
  proof -
    have "skip_space opts p1 = p1"
      using lt1 v(4) by (intro skip_space_stay) (simp_all only: at1 not_False_eq_True)
    then show ?thesis by (simp add: e_def p1_def)
  qed
  have ge1: "\<not> length opts \<le> p1" using lt1 by simp
  have br: "opts ! p1 \<noteq> CHR ''{''" using v(3) by (simp only: at1 not_False_eq_True)
  have o1: "opts = ?pre1 @ v @ tl_opts" by (simp add: opts_def)
  have l1: "p1 = length ?pre1" by (simp add: p1_def)
  show ?thesis
  proof (cases "tl_opts = []")
    case True
    have "str_find (?pre1 @ v) CHR '';'' (length ?pre1) = None"
      using v(2) by (rule str_find_none)
    then have sc: "str_find opts CHR '';'' p1 = None"
      using True by (simp add: o1 l1)
    have val: "trim (substr_from opts p1) = Inr v"
      using True v by (simp add: o1 l1 substr_from_def trim_id)
    have "StringToMap_body opts p0 = Inr (Some (k, v), Break)"
      by (simp add: StringToMap_body_def Let_def eq key k(1) sk ge1 br sc val)
    with True show ?thesis by (simp add: opts_def p0_def)
  next
    case False
    with assms(3) obtain rest where tl: "tl_opts = CHR '';'' # rest" by (cases tl_opts) auto
    have "str_find (?pre1 @ v @ CHR '';'' # rest) CHR '';'' (length ?pre1)
        = Some (length ?pre1 + length v)"
      using v(2) by (rule str_find_append)
    then have sc: "str_find opts CHR '';'' p1 = Some s"
      using tl by (simp add: o1 l1 s_def)
    have val: "trim (substr opts p1 (s - p1)) = Inr v"
      using v by (simp add: o1 l1 s_def substr_def trim_id)
    have "StringToMap_body opts p0 = Inr (Some (k, v), Next (s + 1))"
      by (simp add: StringToMap_body_def Let_def eq key k(1) sk ge1 br sc val)
    with False show ?thesis by (simp add: opts_def p0_def s_def)
  qed
qed

lemma render_nonempty: "es \<noteq> [] \<Longrightarrow> plain_entry (hd es) \<Longrightarrow> render es \<noteq> []"
  by (cases es rule: render.cases) (auto simp: plain_entry_def plain_key_def)

lemma hd_render: "es \<noteq> [] \<Longrightarrow> plain_entry (hd es) \<Longrightarrow> hd (render es) = hd (fst (hd es))"
  by (cases es rule: render.cases) (auto simp: plain_entry_def plain_key_def)

lemma last_render:
  "es \<noteq> [] \<Longrightarrow> list_all plain_entry es \<Longrightarrow> last (render es) = last (snd (last es))"
proof (induction es rule: render.induct)
  case 1
  then show ?case by simp
next
  case (2 k v)
  then show ?case by (simp add: plain_entry_def plain_value_def)
next
  case (3 k v e es)
  then have "render (e # es) \<noteq> []" by (intro render_nonempty) simp_all
  with 3 show ?case by simp
qed

lemma StringToMap_render_loop:
  "es \<noteq> [] \<Longrightarrow> list_all plain_entry es \<Longrightarrow>
   StringToMap_loop (pre @ render es) (length pre) m = Inr (OK, assign_all es m)
   \<and> StringToMap_pairs (pre @ render es) (length pre) = es"
proof (induction es arbitrary: pre m rule: render.induct)
  case 1
  then show ?case by simp
next
  case (2 k v)
  then have kv: "plain_key k" "plain_value v" by (simp_all add: plain_entry_def)
  define opts where "opts = pre @ render [(k, v)]"
  have b: "StringToMap_body opts (length pre) = Inr (Some (k, v), Break)"
    using StringToMap_body_plain [OF kv, of "[]" pre] by (simp add: opts_def)
  have lt: "length pre < length opts" using kv(1) by (simp add: opts_def plain_key_def)
  have "StringToMap_loop opts (length pre) m = Inr (OK, assign_all [(k, v)] m)"
    using lt b by (subst StringToMap_loop.simps) (simp add: assign_all_def)
  moreover have "StringToMap_pairs opts (length pre) = [(k, v)]"
    using lt b by (subst StringToMap_pairs.simps) simp
  ultimately show ?case by (simp only: opts_def)
next
  case (3 k v e es)
  from "3.prems" have rest: "list_all plain_entry (e # es)" by simp
  from "3.prems" have kv: "plain_key k" "plain_value v" by (simp_all add: plain_entry_def)
  define pre' where "pre' = pre @ k @ ''='' @ v @ '';''"
  define opts where "opts = pre @ render ((k, v) # e # es)"
  have o: "opts = pre' @ render (e # es)" by (simp add: opts_def pre'_def)
  have lp: "length pre' = length pre + length k + 1 + length v + 1" by (simp add: pre'_def)
  have b: "StringToMap_body opts (length pre) = Inr (Some (k, v), Next (length pre'))"
    using StringToMap_body_plain [OF kv, of "CHR '';'' # render (e # es)" pre]
    by (simp add: opts_def lp)
  have lt: "length pre < length opts" using kv(1) by (simp add: opts_def plain_key_def)
  from "3.IH" [of pre' "map_assign k v m"] rest
  have ih: "StringToMap_loop opts (length pre') (map_assign k v m)
      = Inr (OK, assign_all (e # es) (map_assign k v m))"
    and ihp: "StringToMap_pairs opts (length pre') = e # es"
    by (simp_all add: o)
  have "StringToMap_loop opts (length pre) m = Inr (OK, assign_all ((k, v) # e # es) m)"
    using lt b ih by (subst StringToMap_loop.simps) (simp add: assign_all_Cons)
  moreover have "StringToMap_pairs opts (length pre) = (k, v) # e # es"
    using lt b ihp by (subst StringToMap_pairs.simps) simp
  ultimately show ?case by (simp only: opts_def)
qed

lemma StringToMap_render:
  assumes "es \<noteq> []" and "list_all plain_entry es"
  shows "trim (render es) = Inr (render es)"
    and "StringToMap (render es) [] = Inr (OK, assign_all es [])"
    and "StringToMap_pairs (render es) 0 = es"
proof -
  from assms have h: "plain_entry (hd es)" and l: "plain_entry (last es)"
    by (auto simp: list_all_iff)
  have "render es \<noteq> []" using assms(1) h by (rule render_nonempty)
  moreover have "\<not> isspace (hd (render es))"
    using h by (simp add: hd_render [OF assms(1) h] plain_entry_def plain_key_def)
  moreover have "\<not> isspace (last (render es))"
    using l by (simp add: last_render [OF assms] plain_entry_def plain_value_def)
  ultimately show t: "trim (render es) = Inr (render es)" by (rule trim_id)
  from StringToMap_render_loop [OF assms, of "[]" "[]"]
  show "StringToMap (render es) [] = Inr (OK, assign_all es [])"
    and "StringToMap_pairs (render es) 0 = es"
    by (simp_all add: StringToMap_def t)
qed

text \<open>
  Every parse call of the file hands \<open>StringToMap\<close> a new, empty map.  When the
  tokenizer accepts its input, the map it returns has distinct keys and holds exactly the
  pairs read from the input, a key bound to the value of its last pair: looking a key up
  gives what a search of the pairs from the last one backwards gives, so a key of no pair
  is not in the map, and a pair that no later pair with the same key follows is in it.
  On the rendering of a list of plain entries the pairs read are the entries rendered, in
  their order, and the input is accepted.
\<close>

theorem StringToMap_last_occurrence_wins:
  "(trim opts_str = Inr opts \<and> StringToMap opts_str [] = Inr (OK, m) \<longrightarrow>
      distinct (map fst m)
      \<and> map_of m = map_of (rev (StringToMap_pairs opts 0))
      \<and> set (map fst m) = set (map fst (StringToMap_pairs opts 0))
      \<and> (\<forall>ps k v qs. StringToMap_pairs opts 0 = ps @ (k, v) # qs \<and> k \<notin> set (map fst qs)
            \<longrightarrow> map_of m k = Some v))
   \<and> (es \<noteq> [] \<and> list_all plain_entry es \<longrightarrow>
      trim (render es) = Inr (render es)
      \<and> StringToMap_pairs (render es) 0 = es
      \<and> (\<exists>m'. StringToMap (render es) [] = Inr (OK, m')
            \<and> distinct (map fst m') \<and> map_of m' = map_of (rev es)))"
proof (intro conjI impI)
  assume a: "trim opts_str = Inr opts \<and> StringToMap opts_str [] = Inr (OK, m)"
  then have "StringToMap_loop opts 0 [] = Inr (OK, m)" by (auto simp: StringToMap_def)
  then have m: "m = assign_all (StringToMap_pairs opts 0) []" by (rule StringToMap_loop_pairs)
  show d: "distinct (map fst m)" unfolding m by (rule distinct_assign_all) simp
  show mo: "map_of m = map_of (rev (StringToMap_pairs opts 0))"
    unfolding m by (simp add: map_of_assign_all)
  have "dom (map_of m) = dom (map_of (rev (StringToMap_pairs opts 0)))" by (simp only: mo)
  then show "set (map fst m) = set (map fst (StringToMap_pairs opts 0))"
    by (simp add: dom_map_of_conv_image_fst)
  have "map_of m k = Some v"
    if "StringToMap_pairs opts 0 = ps @ (k, v) # qs" and "k \<notin> set (map fst qs)" for ps k v qs
  proof -
    have "map_of (rev qs) k = None" using that(2) by (simp add: map_of_eq_None_iff)
    then show ?thesis by (simp add: mo that(1) map_add_def)
  qed
  then show "\<forall>ps k v qs. StringToMap_pairs opts 0 = ps @ (k, v) # qs \<and> k \<notin> set (map fst qs)
      \<longrightarrow> map_of m k = Some v"
    by blast
next
  assume a: "es \<noteq> [] \<and> list_all plain_entry es"
  then show "trim (render es) = Inr (render es)" by (simp add: StringToMap_render(1))
  from a show "StringToMap_pairs (render es) 0 = es" by (simp add: StringToMap_render(3))
  from a have "StringToMap (render es) [] = Inr (OK, assign_all es [])"
    by (simp add: StringToMap_render(2))
  moreover have "distinct (map fst (assign_all es []))" by (rule distinct_assign_all) simp
  moreover have "map_of (assign_all es []) = map_of (rev es)" by (simp add: map_of_assign_all)
  ultimately show "\<exists>m'. StringToMap (render es) [] = Inr (OK, m')
      \<and> distinct (map fst m') \<and> map_of m' = map_of (rev es)"
    by blast
qed

theorem StringToMap_last_occurrence_wins_witness:
  "StringToMap ''a=1;b=2;a=3'' [] = Inr (OK, [(''a'', ''3''), (''b'', ''2'')])
   \<and> StringToMap_pairs ''a=1;b=2;a=3'' 0 = [(''a'', ''1''), (''b'', ''2''), (''a'', ''3'')]
   \<and> render [(''a'', ''1''), (''b'', ''2''), (''a'', ''3'')] = ''a=1;b=2;a=3''
   \<and> map_of [(''a'', ''3''), (''b'', ''2'')] ''a'' = Some ''3''"
proof -
  have t: "trim ''a=1;b=2;a=3'' = Inr ''a=1;b=2;a=3''" by (simp add: tok_simps)
  have s: "StringToMap ''a=1;b=2;a=3'' [] = Inr (OK, [(''a'', ''3''), (''b'', ''2'')])"
    by (simp add: tok_simps)
  have r: "render [(''a'', ''1''), (''b'', ''2''), (''a'', ''3'')] = ''a=1;b=2;a=3''"
    by simp
  have pl: "list_all plain_entry [(''a'', ''1''), (''b'', ''2''), (''a'', ''3'')]"
    by (simp add: plain_entry_def plain_key_def plain_value_def isspace_def)
  note w = StringToMap_last_occurrence_wins [of "''a=1;b=2;a=3''" "''a=1;b=2;a=3''"
      "[(''a'', ''3''), (''b'', ''2'')]" "[(''a'', ''1''), (''b'', ''2''), (''a'', ''3'')]"]
  from w t s pl have p: "StringToMap_pairs ''a=1;b=2;a=3'' 0
      = [(''a'', ''1''), (''b'', ''2''), (''a'', ''3'')]"
    by (simp only: r) simp
  from w t s have a: "\<forall>ps k v qs. StringToMap_pairs ''a=1;b=2;a=3'' 0 = ps @ (k, v) # qs
      \<and> k \<notin> set (map fst qs) \<longrightarrow> map_of [(''a'', ''3''), (''b'', ''2'')] k = Some v"
    by blast
  from a [rule_format, of "[(''a'', ''1''), (''b'', ''2'')]" "''a''" "''3''" "[]"] p
  have "map_of [(''a'', ''3''), (''b'', ''2'')] ''a'' = Some ''3''" by simp
  with s p r show ?thesis by (intro conjI)
qed

text \<open>
  C6.  A well-formed input should give a map that binds each key to the value of its last
  occurrence, and where the tokenizer accepts its input it does
  (\<open>StringToMap_last_occurrence_wins\<close>).  But the grammar lets an entry have no value.
  When such an entry is followed by another one, or when its value is an empty pair of
  braces, the text handed to \<open>trim\<close> is the empty string: the tokenizer runs into the
  out-of-range read of C1 and returns no map.
\<close>

theorem StringToMap_empty_value_out_of_range:
  "StringToMap ''a=;b=1'' [] = Inl OutOfRange
   \<and> StringToMap ''a={};b=1'' [] = Inl OutOfRange
   \<and> StringToMap ''a=;a=1'' [] = Inl OutOfRange"
  by (simp add: tok_simps SIZE_MAX_def)

end
